(* ===== verification/Go_Prelude.thy ===== *)
theory Go_Prelude
  imports Main "HOL-Library.Word"
begin

text \<open>
  The vocabulary the component theories share.

  \<^item> Go's types: \<open>byte\<close>, \<open>uint16\<close>, \<open>uint32\<close>, \<open>uint64\<close> are words of their width; \<open>int64\<close>
    is a 64-bit word read with \<^const>\<open>sint\<close>; a Go \<open>string\<close> is Isabelle's \<^typ>\<open>string\<close>, a list
    of 8-bit characters, so \<^const>\<open>length\<close> is Go's \<open>len\<close>; a byte slice is a list of bytes, and an
    \<^emph>\<open>option\<close> of it where the code tells \<open>nil\<close> from the empty slice.
  \<^item> Go's \<open>(value, error)\<close> results are values of a sum type, \<open>Inl\<close> the error. \<open>bindR\<close> is the
    \<open>if err != nil { return err }\<close> of the source.
  \<^item> Little- and big-endian integers (package \<open>encoding/binary\<close>).
  \<^item> UTF-8 as Go's \<open>unicode/utf8\<close> and \<open>range\<close> over a string read it.
  \<^item> The locale \<open>kept_by_steps\<close>: invariants of the step relations that model interleavings.
\<close>

type_synonym byte = "8 word"
type_synonym bytes = "byte list"
type_synonym u16 = "16 word"
type_synonym u32 = "32 word"
type_synonym u64 = "64 word"
type_synonym i64 = "64 word"
type_synonym i32 = "32 word"

named_theorems result_simps \<open>rewriting of results: bindR, checkR\<close>
named_theorems endian_simps \<open>lengths and round trips of fixed-width integers\<close>
named_theorems utf8_simps \<open>rewriting of UTF-8 decoding\<close>


section \<open>Results\<close>

definition bindR :: "'e + 'a \<Rightarrow> ('a \<Rightarrow> 'e + 'b) \<Rightarrow> 'e + 'b" where
  "bindR r f = (case r of Inl e \<Rightarrow> Inl e | Inr a \<Rightarrow> f a)"

definition checkR :: "bool \<Rightarrow> 'e \<Rightarrow> 'e + unit" where
  "checkR bad e = (if bad then Inl e else Inr ())"

lemma bindR_Inl [simp, result_simps]: "bindR (Inl e) f = Inl e"
  by (simp add: bindR_def)

lemma bindR_Inr [simp, result_simps]: "bindR (Inr a) f = f a"
  by (simp add: bindR_def)

lemma bindR_eq_Inr [result_simps]: "bindR r f = Inr b \<longleftrightarrow> (\<exists>a. r = Inr a \<and> f a = Inr b)"
  by (cases r) auto

lemma bindR_eq_Inl [result_simps]:
  "bindR r f = Inl e \<longleftrightarrow> r = Inl e \<or> (\<exists>a. r = Inr a \<and> f a = Inl e)"
  by (cases r) auto

lemma bindR_cong [fundef_cong]:
  "r = r' \<Longrightarrow> (\<And>a. r' = Inr a \<Longrightarrow> f a = f' a) \<Longrightarrow> bindR r f = bindR r' f'"
  by (cases r') auto

lemma checkR_eq_Inr [result_simps]: "checkR bad e = Inr u \<longleftrightarrow> \<not> bad"
  by (simp add: checkR_def)

lemma checkR_eq_Inl [result_simps]: "checkR bad e = Inl e' \<longleftrightarrow> bad \<and> e' = e"
  by (auto simp: checkR_def)

lemma checkR_simps [simp]: "checkR True e = Inl e" "checkR False e = Inr ()"
  by (simp_all add: checkR_def)

lemma bindR_checkR [simp]:
  "bindR (checkR bad e) f = (if bad then Inl e else f ())"
  by (simp add: checkR_def)


text \<open>\<open>mapErr\<close> is \<open>fmt.Errorf\<close> wrapping the error of an inner call.\<close>

definition mapErr :: "('e \<Rightarrow> 'f) \<Rightarrow> 'e + 'a \<Rightarrow> 'f + 'a" where
  "mapErr f r = (case r of Inl e \<Rightarrow> Inl (f e) | Inr a \<Rightarrow> Inr a)"

lemma mapErr_simps [simp, result_simps]:
  "mapErr f r = Inr a \<longleftrightarrow> r = Inr a" "mapErr f (Inl e) = Inl (f e)" "mapErr f (Inr a) = Inr a"
  by (auto simp: mapErr_def split: sum.splits)

text \<open>
  \<open>eachR f i xs\<close> is \<open>for index, x := range xs\<close> with an early \<open>return err\<close> in its body.
\<close>

fun eachR :: "(nat \<Rightarrow> 'a \<Rightarrow> 'e + unit) \<Rightarrow> nat \<Rightarrow> 'a list \<Rightarrow> 'e + unit" where
  "eachR f i [] = Inr ()"
| "eachR f i (x # xs) = bindR (f i x) (\<lambda>_. eachR f (Suc i) xs)"

lemma eachR_eq_Inr [result_simps]:
  "eachR f i xs = Inr u \<longleftrightarrow> (\<forall>k < length xs. f (i + k) (xs ! k) = Inr ())"
proof (induction xs arbitrary: i)
  case Nil
  then show ?case by simp
next
  case (Cons x xs)
  have "(\<forall>k < length (x # xs). f (i + k) ((x # xs) ! k) = Inr ()) \<longleftrightarrow>
        f i x = Inr () \<and> (\<forall>k < length xs. f (Suc i + k) (xs ! k) = Inr ())"
    by (auto simp: nth_Cons split: nat.splits)
  with Cons show ?case by (auto simp: bindR_eq_Inr)
qed

lemma all_nth_set: "(\<forall>k < length xs. P (xs ! k)) \<longleftrightarrow> (\<forall>x \<in> set xs. P x)"
  by (metis in_set_conv_nth)

text \<open>Go's \<open>len\<close> and \<open>range\<close> of a slice that may be nil.\<close>

definition blen :: "bytes option \<Rightarrow> nat" where
  "blen b = (case b of None \<Rightarrow> 0 | Some d \<Rightarrow> length d)"

lemma blen_simps [simp]: "blen None = 0" "blen (Some d) = length d"
  by (simp_all add: blen_def)

definition the_bytes :: "bytes option \<Rightarrow> bytes" where
  "the_bytes b = (case b of None \<Rightarrow> [] | Some d \<Rightarrow> d)"

lemma the_bytes_simps [simp]: "the_bytes None = []" "the_bytes (Some d) = d"
  by (simp_all add: the_bytes_def)


section \<open>Fixed-width integers\<close>

text \<open>\<open>le_bytes k v\<close> are the \<open>k\<close> low bytes of \<open>v\<close>, least significant first.\<close>

fun le_bytes :: "nat \<Rightarrow> nat \<Rightarrow> bytes" where
  "le_bytes 0 v = []"
| "le_bytes (Suc k) v = word_of_nat (v mod 256) # le_bytes k (v div 256)"

fun nat_le :: "bytes \<Rightarrow> nat" where
  "nat_le [] = 0"
| "nat_le (b # bs) = unat b + 256 * nat_le bs"

definition be_bytes :: "nat \<Rightarrow> nat \<Rightarrow> bytes" where
  "be_bytes k v = rev (le_bytes k v)"

definition nat_be :: "bytes \<Rightarrow> nat" where
  "nat_be bs = nat_le (rev bs)"

lemma length_le_bytes [simp, endian_simps]: "length (le_bytes k v) = k"
  by (induction k arbitrary: v) auto

lemma length_be_bytes [simp, endian_simps]: "length (be_bytes k v) = k"
  by (simp add: be_bytes_def)

lemma unat_byte_of_nat: "n < 256 \<Longrightarrow> unat (word_of_nat n :: byte) = n"
  by (simp add: unat_of_nat)

lemma unat_byte_less [simp]: "unat (b :: byte) < 256"
  using unsigned_less [of b] by simp

lemma nat_le_le_bytes [endian_simps]: "nat_le (le_bytes k v) = v mod 256 ^ k"
proof (induction k arbitrary: v)
  case 0
  then show ?case by simp
next
  case (Suc k)
  have "nat_le (le_bytes (Suc k) v) = v mod 256 + 256 * (v div 256 mod 256 ^ k)"
    using Suc by (simp add: unat_byte_of_nat)
  also have "\<dots> = v mod (256 * 256 ^ k)"
    by (simp add: mod_mult2_eq)
  finally show ?case by simp
qed

lemma nat_le_bound: "nat_le bs < 256 ^ length bs"
proof (induction bs)
  case Nil
  then show ?case by simp
next
  case (Cons b bs)
  have "unat b + 256 * nat_le bs < 256 + 256 * nat_le bs"
    by simp
  also have "\<dots> \<le> 256 * 256 ^ length bs"
    using Cons by simp
  finally show ?case by simp
qed

lemma le_bytes_nat_le [endian_simps]: "length bs = k \<Longrightarrow> le_bytes k (nat_le bs) = bs"
proof (induction bs arbitrary: k)
  case Nil
  then show ?case by simp
next
  case (Cons b bs)
  have "(unat b + 256 * nat_le bs) mod 256 = unat b" "(unat b + 256 * nat_le bs) div 256 = nat_le bs"
    by simp_all
  with Cons show ?case by auto
qed

lemma nat_be_be_bytes [endian_simps]: "nat_be (be_bytes k v) = v mod 256 ^ k"
  by (simp add: nat_be_def be_bytes_def nat_le_le_bytes)

lemma be_bytes_nat_be [endian_simps]: "length bs = k \<Longrightarrow> be_bytes k (nat_be bs) = bs"
  by (simp add: nat_be_def be_bytes_def le_bytes_nat_le)

lemma nat_be_bound: "nat_be bs < 256 ^ length bs"
  using nat_le_bound [of "rev bs"] by (simp add: nat_be_def)


section \<open>Strings and bytes\<close>

definition string_bytes :: "string \<Rightarrow> bytes" where
  "string_bytes s = map (\<lambda>c. word_of_nat (of_char c)) s"

definition bytes_string :: "bytes \<Rightarrow> string" where
  "bytes_string bs = map (\<lambda>b. char_of (unat b)) bs"

lemma length_string_bytes [simp]: "length (string_bytes s) = length s"
  by (simp add: string_bytes_def)

lemma length_bytes_string [simp]: "length (bytes_string bs) = length bs"
  by (simp add: bytes_string_def)

lemma bytes_string_string_bytes [simp]: "bytes_string (string_bytes s) = s"
  by (induction s) (simp_all add: bytes_string_def string_bytes_def unat_byte_of_nat)

lemma string_bytes_bytes_string [simp]: "string_bytes (bytes_string bs) = bs"
  by (induction bs) (simp_all add: bytes_string_def string_bytes_def)

lemma string_bytes_eq_iff [simp]: "string_bytes s = string_bytes t \<longleftrightarrow> s = t"
  by (metis bytes_string_string_bytes)


section \<open>UTF-8\<close>

text \<open>
  \<open>utf8_head bs\<close> is the length of the well-formed UTF-8 sequence \<open>bs\<close> starts with, 0 if it
  starts with none: the acceptance table of \<open>unicode/utf8\<close> (no overlong forms, no surrogates,
  nothing above U+10FFFF).
\<close>

definition utf8_cont :: "byte \<Rightarrow> bool" where
  "utf8_cont b \<longleftrightarrow> 0x80 \<le> b \<and> b \<le> 0xBF"

definition utf8_one :: "byte \<Rightarrow> bool" where
  "utf8_one b \<longleftrightarrow> b < 0x80"

definition utf8_two :: "byte \<Rightarrow> byte \<Rightarrow> bool" where
  "utf8_two b b1 \<longleftrightarrow> 0xC2 \<le> b \<and> b \<le> 0xDF \<and> utf8_cont b1"

definition utf8_three :: "byte \<Rightarrow> byte \<Rightarrow> byte \<Rightarrow> bool" where
  "utf8_three b b1 b2 \<longleftrightarrow> 0xE0 \<le> b \<and> b \<le> 0xEF \<and> utf8_cont b1 \<and> utf8_cont b2 \<and>
     (if b = 0xE0 then 0xA0 \<le> b1 else if b = 0xED then b1 \<le> 0x9F else True)"

definition utf8_four :: "byte \<Rightarrow> byte \<Rightarrow> byte \<Rightarrow> byte \<Rightarrow> bool" where
  "utf8_four b b1 b2 b3 \<longleftrightarrow> 0xF0 \<le> b \<and> b \<le> 0xF4 \<and> utf8_cont b1 \<and> utf8_cont b2 \<and> utf8_cont b3 \<and>
     (if b = 0xF0 then 0x90 \<le> b1 else if b = 0xF4 then b1 \<le> 0x8F else True)"

definition utf8_head :: "bytes \<Rightarrow> nat" where
  "utf8_head bs =
     (case bs of [] \<Rightarrow> 0 | b # bs1 \<Rightarrow>
        (if utf8_one b then 1
         else (case bs1 of [] \<Rightarrow> 0 | b1 # bs2 \<Rightarrow>
           (if utf8_two b b1 then 2
            else (case bs2 of [] \<Rightarrow> 0 | b2 # bs3 \<Rightarrow>
              (if utf8_three b b1 b2 then 3
               else (case bs3 of [] \<Rightarrow> 0 | b3 # _ \<Rightarrow>
                 (if utf8_four b b1 b2 b3 then 4 else 0))))))))"

lemma utf8_head_le: "utf8_head bs \<le> length bs"
  by (simp add: utf8_head_def split: list.split)

lemma utf8_head_append: "utf8_head bs \<noteq> 0 \<Longrightarrow> utf8_head (bs @ cs) = utf8_head bs"
  by (simp add: utf8_head_def split: list.split_asm if_split_asm)

text \<open>
  \<open>range\<close> over a string: the runes, each as the bytes \<open>strings.Builder.WriteRune\<close> writes for it.
  A byte that starts no well-formed sequence is U+FFFD and one byte wide.
\<close>

definition rune_error :: bytes where
  "rune_error = [0xEF, 0xBF, 0xBD]"

function runes :: "bytes \<Rightarrow> bytes list" where
  "runes bs =
     (if bs = [] then []
      else if utf8_head bs = 0 then rune_error # runes (drop 1 bs)
      else take (utf8_head bs) bs # runes (drop (utf8_head bs) bs))"
  by pat_completeness auto
termination
  by (relation "measure length") (auto simp: length_drop)

declare runes.simps [simp del]

function utf8_valid :: "bytes \<Rightarrow> bool" where
  "utf8_valid bs =
     (if bs = [] then True
      else if utf8_head bs = 0 then False
      else utf8_valid (drop (utf8_head bs) bs))"
  by pat_completeness auto
termination
  by (relation "measure length") auto

declare utf8_valid.simps [simp del]

lemma runes_Nil [simp, utf8_simps]: "runes [] = []"
  by (simp add: runes.simps)

lemma utf8_valid_Nil [simp, utf8_simps]: "utf8_valid []"
  by (simp add: utf8_valid.simps)

lemma utf8_head_ascii [simp]: "b < 0x80 \<Longrightarrow> utf8_head (b # bs) = 1"
  by (simp add: utf8_head_def utf8_one_def)

lemma runes_ascii [utf8_simps]: "b < 0x80 \<Longrightarrow> runes (b # bs) = [b] # runes bs"
  by (simp add: runes.simps [of "b # bs"])

lemma utf8_valid_ascii [utf8_simps]: "b < 0x80 \<Longrightarrow> utf8_valid (b # bs) = utf8_valid bs"
  by (simp add: utf8_valid.simps [of "b # bs"])

text \<open>A well-formed text is cut into well-formed sequences and nothing else.\<close>

lemma utf8_valid_append:
  "utf8_valid xs \<Longrightarrow> utf8_valid (xs @ ys) = utf8_valid ys"
proof (induction xs rule: utf8_valid.induct)
  case (1 xs)
  show ?case
  proof (cases "xs = []")
    case True
    then show ?thesis by simp
  next
    case False
    with "1.prems" have h: "utf8_head xs \<noteq> 0" and v: "utf8_valid (drop (utf8_head xs) xs)"
      by (auto simp: utf8_valid.simps [of xs] split: if_splits)
    from False h v have "utf8_valid (drop (utf8_head xs) xs @ ys) = utf8_valid ys"
      by (rule "1.IH")
    with False h show ?thesis
      by (subst utf8_valid.simps) (simp add: utf8_head_append utf8_head_le)
  qed
qed

lemma runes_append_valid:
  "utf8_valid xs \<Longrightarrow> runes (xs @ ys) = runes xs @ runes ys"
proof (induction xs rule: utf8_valid.induct)
  case (1 xs)
  show ?case
  proof (cases "xs = []")
    case True
    then show ?thesis by simp
  next
    case False
    with "1.prems" have h: "utf8_head xs \<noteq> 0" and v: "utf8_valid (drop (utf8_head xs) xs)"
      by (auto simp: utf8_valid.simps [of xs] split: if_splits)
    from False h v have ih: "runes (drop (utf8_head xs) xs @ ys) = runes (drop (utf8_head xs) xs) @ runes ys"
      by (rule "1.IH")
    from False h show ?thesis
      by (simp add: runes.simps [of xs] runes.simps [of "xs @ ys"] utf8_head_append utf8_head_le ih)
  qed
qed

lemma concat_runes_valid: "utf8_valid xs \<Longrightarrow> concat (runes xs) = xs"
proof (induction xs rule: utf8_valid.induct)
  case (1 xs)
  then show ?case
    by (cases "xs = []") (auto simp: utf8_valid.simps [of xs] runes.simps [of xs] split: if_splits)
qed


section \<open>Decimal numbers\<close>

text \<open>\<open>fmt.Sprintf("%d", n)\<close> for an unsigned integer.\<close>

fun decimal :: "nat \<Rightarrow> string" where
  "decimal n = (if n < 10 then [char_of (48 + n)] else decimal (n div 10) @ [char_of (48 + n mod 10)])"

declare decimal.simps [simp del]


section \<open>Step relations\<close>

text \<open>A predicate that every step keeps holds wherever a run from a state with it leads.\<close>

locale kept_by_steps =
  fixes move :: "'s \<Rightarrow> 's \<Rightarrow> bool" and good :: "'s \<Rightarrow> bool"
  assumes move_good: "move s s' \<Longrightarrow> good s \<Longrightarrow> good s'"
begin

lemma run_good:
  assumes "move\<^sup>*\<^sup>* s s'" "good s"
  shows "good s'"
  using assms(1) by (induction rule: rtranclp_induct) (use assms(2) move_good in blast)+

end

lemma rtranclp_two: "r x y \<Longrightarrow> r y z \<Longrightarrow> r\<^sup>*\<^sup>* x z"
  by (meson converse_rtranclp_into_rtranclp rtranclp.rtrancl_refl)

end
