(* ===== verification/Wire_Scan.thy ===== *)
theory Wire_Scan
  imports Go_Prelude
begin

text \<open>
  \<^verbatim>\<open>internal/wire/scan.go\<close>: the pass over a raw MessagePack envelope that runs before the
  library decoder, so that a hostile length prefix cannot drive an allocation. \<open>scanValue\<close>,
  \<open>scanEntries\<close> (with its loop \<open>scanLoop\<close>), \<open>scanLen\<close>, \<open>scanBlob\<close>, \<open>checkLimit\<close> and
  \<open>validateShape\<close> are the functions of that file; positions are offsets into the whole input, as
  in the source. The abstract specification is a grammar of MessagePack values within the
  boundary's limits (\<open>mp_value\<close>), stated on byte strings without positions or scanning order.
\<close>

section \<open>The scanner\<close>

definition maxScanDepth :: nat where "maxScanDepth = 64"
definition maxArrayEntries :: nat where "maxArrayEntries = 1024"
definition maxMapEntries :: nat where "maxMapEntries = 1024"
definition maxBlobBytes :: nat where "maxBlobBytes = 2 ^ 20"

datatype limit_kind = LimitArray | LimitMap | LimitBlob

datatype scan_error =
    DepthExceeded
  | TruncatedValue nat
  | ReservedByte nat
  | UnrecognizedType byte nat
  | TruncatedLength nat
  | DeclaredLength nat nat
  | LengthLimit limit_kind nat nat
  | TruncatedPayload nat nat
  | ContainerClaims nat nat
  | TrailingBytes nat

definition checkLimit :: "limit_kind \<Rightarrow> nat \<Rightarrow> nat \<Rightarrow> scan_error + unit" where
  "checkLimit kind got maximum = (if got > maximum then Inl (LengthLimit kind got maximum) else Inr ())"

definition scanLen :: "bytes \<Rightarrow> nat \<Rightarrow> nat \<Rightarrow> scan_error + (nat \<times> nat)" where
  "scanLen data pos width =
     (if pos + width > length data then Inl (TruncatedLength pos)
      else let n = nat_be (take width (drop pos data));
               pos' = pos + width
           in if n > length data - pos' then Inl (DeclaredLength n (length data - pos'))
              else Inr (n, pos'))"

definition scanBlob :: "bytes \<Rightarrow> nat \<Rightarrow> nat \<Rightarrow> scan_error + nat" where
  "scanBlob data pos n =
     bindR (checkLimit LimitBlob n maxBlobBytes) (\<lambda>_.
       if n > length data - pos then Inl (TruncatedPayload n (length data - pos))
       else Inr (pos + n))"

unbundle bit_operations_syntax

function scanValue :: "bytes \<Rightarrow> nat \<Rightarrow> nat \<Rightarrow> scan_error + nat"
  and scanEntries :: "bytes \<Rightarrow> nat \<Rightarrow> nat \<Rightarrow> nat \<Rightarrow> scan_error + nat"
  and scanLoop :: "bytes \<Rightarrow> nat \<Rightarrow> nat \<Rightarrow> nat \<Rightarrow> scan_error + nat"
where
  "scanValue data pos depth =
     (if depth > maxScanDepth then Inl DepthExceeded
      else if pos \<ge> length data then Inl (TruncatedValue pos)
      else let b = data ! pos; pos = pos + 1 in
        if b \<le> 0x7f \<or> b \<ge> 0xe0 then Inr pos
        else if b \<ge> 0x80 \<and> b \<le> 0x8f then scanEntries data pos depth (2 * unat (b AND 0x0f))
        else if b \<ge> 0x90 \<and> b \<le> 0x9f then scanEntries data pos depth (unat (b AND 0x0f))
        else if b \<ge> 0xa0 \<and> b \<le> 0xbf then scanBlob data pos (unat (b AND 0x1f))
        else if b = 0xc0 \<or> b = 0xc2 \<or> b = 0xc3 then Inr pos
        else if b = 0xc1 then Inl (ReservedByte (pos - 1))
        else if b = 0xca then scanBlob data pos 4
        else if b = 0xcb then scanBlob data pos 8
        else if b = 0xcc \<or> b = 0xd0 then scanBlob data pos 1
        else if b = 0xcd \<or> b = 0xd1 then scanBlob data pos 2
        else if b = 0xce \<or> b = 0xd2 then scanBlob data pos 4
        else if b = 0xcf \<or> b = 0xd3 then scanBlob data pos 8
        else if 0xd4 \<le> b \<and> b \<le> 0xd8 then scanBlob data pos (1 + 2 ^ unat (b - 0xd4))
        else if b = 0xc4 \<or> b = 0xd9 then bindR (scanLen data pos 1) (\<lambda>(n, pos). scanBlob data pos n)
        else if b = 0xc5 \<or> b = 0xda then bindR (scanLen data pos 2) (\<lambda>(n, pos). scanBlob data pos n)
        else if b = 0xc6 \<or> b = 0xdb then bindR (scanLen data pos 4) (\<lambda>(n, pos). scanBlob data pos n)
        else if b = 0xc7 then bindR (scanLen data pos 1) (\<lambda>(n, pos). scanBlob data pos (n + 1))
        else if b = 0xc8 then bindR (scanLen data pos 2) (\<lambda>(n, pos). scanBlob data pos (n + 1))
        else if b = 0xc9 then bindR (scanLen data pos 4) (\<lambda>(n, pos). scanBlob data pos (n + 1))
        else if b = 0xdc then bindR (scanLen data pos 2) (\<lambda>(n, pos).
               bindR (checkLimit LimitArray n maxArrayEntries) (\<lambda>_. scanEntries data pos depth n))
        else if b = 0xdd then bindR (scanLen data pos 4) (\<lambda>(n, pos).
               bindR (checkLimit LimitArray n maxArrayEntries) (\<lambda>_. scanEntries data pos depth n))
        else if b = 0xde then bindR (scanLen data pos 2) (\<lambda>(n, pos).
               bindR (checkLimit LimitMap n maxMapEntries) (\<lambda>_. scanEntries data pos depth (2 * n)))
        else if b = 0xdf then bindR (scanLen data pos 4) (\<lambda>(n, pos).
               bindR (checkLimit LimitMap n maxMapEntries) (\<lambda>_. scanEntries data pos depth (2 * n)))
        else Inl (UnrecognizedType b (pos - 1)))"
| "scanEntries data pos depth count =
     (if count > length data - pos then Inl (ContainerClaims count (length data - pos))
      else scanLoop data pos depth count)"
| "scanLoop data pos depth count =
     (if count = 0 then Inr pos
      else bindR (scanValue data pos (depth + 1)) (\<lambda>pos. scanLoop data pos depth (count - 1)))"
  by pat_completeness auto
termination
  by (relation "measures
       [\<lambda>x. case x of Inl (_, _, d) \<Rightarrow> (if d > maxScanDepth then 0 else maxScanDepth + 1 - d)
                | Inr (Inl (_, _, d, _)) \<Rightarrow> maxScanDepth + 1 - d
                | Inr (Inr (_, _, d, _)) \<Rightarrow> maxScanDepth + 1 - d,
        \<lambda>x. case x of Inl (_, _, d) \<Rightarrow> (if d > maxScanDepth then 0 else 3) | Inr (Inl _) \<Rightarrow> 2 | Inr (Inr _) \<Rightarrow> 1,
        \<lambda>x. case x of Inr (Inr (_, _, _, c)) \<Rightarrow> c | _ \<Rightarrow> 0]") auto

definition validateShape :: "bytes \<Rightarrow> scan_error + unit" where
  "validateShape data =
     bindR (scanValue data 0 0) (\<lambda>e.
       if e \<noteq> length data then Inl (TrailingBytes (length data - e)) else Inr ())"

declare scanValue.simps [simp del] scanEntries.simps [simp del] scanLoop.simps [simp del]


section \<open>MessagePack values within the limits\<close>

text \<open>
  The layout a leading byte announces: a payload of a known size, a payload preceded by a
  big-endian length field of a given width (with one more type byte for extensions), a known
  number of nested values, or a length field, a multiplier (2 for the pairs of a map) and the
  limit on the length field.
\<close>

datatype mp_layout =
    MpPayload nat
  | MpCounted nat nat
  | MpEntries nat
  | MpCountedEntries nat nat limit_kind nat
  | MpReserved

definition mp_format :: "byte \<Rightarrow> mp_layout" where
  "mp_format b =
     (if b \<le> 0x7f \<or> b \<ge> 0xe0 then MpPayload 0
      else if b \<ge> 0x80 \<and> b \<le> 0x8f then MpEntries (2 * unat (b AND 0x0f))
      else if b \<ge> 0x90 \<and> b \<le> 0x9f then MpEntries (unat (b AND 0x0f))
      else if b \<ge> 0xa0 \<and> b \<le> 0xbf then MpPayload (unat (b AND 0x1f))
      else (case map_of
        [(0xc0, MpPayload 0), (0xc1, MpReserved), (0xc2, MpPayload 0), (0xc3, MpPayload 0),
         (0xc4, MpCounted 1 0), (0xc5, MpCounted 2 0), (0xc6, MpCounted 4 0),
         (0xc7, MpCounted 1 1), (0xc8, MpCounted 2 1), (0xc9, MpCounted 4 1),
         (0xca, MpPayload 4), (0xcb, MpPayload 8),
         (0xcc, MpPayload 1), (0xcd, MpPayload 2), (0xce, MpPayload 4), (0xcf, MpPayload 8),
         (0xd0, MpPayload 1), (0xd1, MpPayload 2), (0xd2, MpPayload 4), (0xd3, MpPayload 8),
         (0xd4, MpPayload (1 + 1)), (0xd5, MpPayload (1 + 2)), (0xd6, MpPayload (1 + 4)),
         (0xd7, MpPayload (1 + 8)), (0xd8, MpPayload (1 + 16)),
         (0xd9, MpCounted 1 0), (0xda, MpCounted 2 0), (0xdb, MpCounted 4 0),
         (0xdc, MpCountedEntries 2 1 LimitArray maxArrayEntries),
         (0xdd, MpCountedEntries 4 1 LimitArray maxArrayEntries),
         (0xde, MpCountedEntries 2 2 LimitMap maxMapEntries),
         (0xdf, MpCountedEntries 4 2 LimitMap maxMapEntries)] b of
          Some f \<Rightarrow> f | None \<Rightarrow> MpReserved))"

inductive mp_value :: "nat \<Rightarrow> bytes \<Rightarrow> bool"
  and mp_values :: "nat \<Rightarrow> nat \<Rightarrow> bytes \<Rightarrow> bool"
where
  payload: "d \<le> maxScanDepth \<Longrightarrow> mp_format b = MpPayload (length p) \<Longrightarrow> mp_value d (b # p)"
| counted: "d \<le> maxScanDepth \<Longrightarrow> mp_format b = MpCounted (length l) x \<Longrightarrow>
     length p = nat_be l + x \<Longrightarrow> length p \<le> maxBlobBytes \<Longrightarrow> mp_value d (b # l @ p)"
| entries: "d \<le> maxScanDepth \<Longrightarrow> mp_format b = MpEntries n \<Longrightarrow>
     mp_values (Suc d) n body \<Longrightarrow> mp_value d (b # body)"
| counted_entries: "d \<le> maxScanDepth \<Longrightarrow> mp_format b = MpCountedEntries (length l) m k lim \<Longrightarrow>
     nat_be l \<le> lim \<Longrightarrow> mp_values (Suc d) (m * nat_be l) body \<Longrightarrow> mp_value d (b # l @ body)"
| no_values: "mp_values d 0 []"
| more_values: "mp_value d v \<Longrightarrow> mp_values d n vs \<Longrightarrow> mp_values d (Suc n) (v @ vs)"

section \<open>The scanner follows the layout table\<close>

definition scan_layout :: "bytes \<Rightarrow> nat \<Rightarrow> nat \<Rightarrow> mp_layout \<Rightarrow> scan_error + nat" where
  "scan_layout data pos depth f =
     (case f of
        MpPayload n \<Rightarrow> scanBlob data pos n
      | MpCounted w x \<Rightarrow> bindR (scanLen data pos w) (\<lambda>(n, pos). scanBlob data pos (n + x))
      | MpEntries n \<Rightarrow> scanEntries data pos depth n
      | MpCountedEntries w m k lim \<Rightarrow> bindR (scanLen data pos w) (\<lambda>(n, pos).
          bindR (checkLimit k n lim) (\<lambda>_. scanEntries data pos depth (m * n)))
      | MpReserved \<Rightarrow> Inl (ReservedByte (pos - 1)))"

lemma scanBlob_0: "scanBlob data pos 0 = Inr pos"
  by (simp add: scanBlob_def checkLimit_def)

lemma byte_classes:
  fixes b :: byte
  obtains
    (fixint) "b \<le> 0x7f \<or> 0xe0 \<le> b"
  | (fixmap) "\<not> b \<le> 0x7f" "\<not> 0xe0 \<le> b" "0x80 \<le> b" "b \<le> 0x8f"
  | (fixarray) "\<not> b \<le> 0x7f" "\<not> 0xe0 \<le> b" "\<not> b \<le> 0x8f" "0x90 \<le> b" "b \<le> 0x9f"
  | (fixstr) "\<not> b \<le> 0x7f" "\<not> 0xe0 \<le> b" "\<not> b \<le> 0x8f" "\<not> b \<le> 0x9f" "0xa0 \<le> b" "b \<le> 0xbf"
  | (typed) "b \<in> {0xc0, 0xc1, 0xc2, 0xc3, 0xc4, 0xc5, 0xc6, 0xc7, 0xc8, 0xc9, 0xca, 0xcb, 0xcc, 0xcd, 0xce, 0xcf,
      0xd0, 0xd1, 0xd2, 0xd3, 0xd4, 0xd5, 0xd6, 0xd7, 0xd8, 0xd9, 0xda, 0xdb, 0xdc, 0xdd, 0xde, 0xdf}"
proof (cases "unat b \<in> {192..<224}")
  case True
  then have "unat b \<in> set [192..<224]" by (simp only: set_upt)
  then have "word_of_nat (unat b) \<in> (word_of_nat :: nat \<Rightarrow> byte) ` set [192..<224]"
    by (rule imageI)
  then show ?thesis by (intro typed) (simp del: set_upt)
next
  case False
  then consider (1) "unat b \<le> 127 \<or> 224 \<le> unat b" | (2) "128 \<le> unat b" "unat b \<le> 143"
    | (3) "144 \<le> unat b" "unat b \<le> 159" | (4) "160 \<le> unat b" "unat b \<le> 191"
    unfolding atLeastLessThan_iff by linarith
  then show ?thesis
  proof cases
    case 1
    then show ?thesis by (intro fixint) (simp add: word_le_nat_alt)
  next
    case 2
    then show ?thesis by (intro fixmap) (simp_all add: word_le_nat_alt)
  next
    case 3
    then show ?thesis by (intro fixarray) (simp_all add: word_le_nat_alt)
  next
    case 4
    then show ?thesis by (intro fixstr) (simp_all add: word_le_nat_alt)
  qed
qed

lemma scanValue_step:
  assumes "depth \<le> maxScanDepth" "pos < length data"
  shows "scanValue data pos depth = scan_layout data (pos + 1) depth (mp_format (data ! pos))"
proof (cases rule: byte_classes [of "data ! pos"])
  case typed
  with assms show ?thesis
    unfolding insert_iff empty_iff
    by (elim disjE) (simp_all add: scanValue.simps [of data pos depth] mp_format_def scan_layout_def
      scanBlob_0)
qed (use assms in \<open>simp add: scanValue.simps [of data pos depth] mp_format_def scan_layout_def scanBlob_0 Let_def\<close>)+

lemma scanValue_layout:
  "scanValue data pos depth =
     (if depth > maxScanDepth then Inl DepthExceeded
      else if pos \<ge> length data then Inl (TruncatedValue pos)
      else scan_layout data (pos + 1) depth (mp_format (data ! pos)))"
proof -
  consider "depth > maxScanDepth" | "\<not> depth > maxScanDepth" "pos \<ge> length data"
    | "depth \<le> maxScanDepth" "pos < length data"
    by linarith
  then show ?thesis
  proof cases
    case 3
    then show ?thesis by (simp add: scanValue_step)
  qed (simp_all add: scanValue.simps [of data pos depth])
qed

definition slice :: "'a list \<Rightarrow> nat \<Rightarrow> nat \<Rightarrow> 'a list" where
  "slice xs i j = take (j - i) (drop i xs)"

lemma slice_append: "i \<le> j \<Longrightarrow> j \<le> k \<Longrightarrow> slice xs i k = slice xs i j @ slice xs j k"
proof -
  assume "i \<le> j" "j \<le> k"
  then have "k - i = (j - i) + (k - j)" and "drop j xs = drop (j - i) (drop i xs)"
    by simp_all
  then show ?thesis
    unfolding slice_def by (metis take_add)
qed

lemma slice_Cons: "i < j \<Longrightarrow> j \<le> length xs \<Longrightarrow> slice xs i j = xs ! i # slice xs (Suc i) j"
proof -
  assume "i < j" "j \<le> length xs"
  then have "drop i xs = xs ! i # drop (Suc i) xs" and "j - i = Suc (j - Suc i)"
    by (auto simp: Cons_nth_drop_Suc)
  then show ?thesis by (simp add: slice_def)
qed

lemma length_slice [simp]: "j \<le> length xs \<Longrightarrow> length (slice xs i j) = j - i"
  by (simp add: slice_def)

lemma slice_empty [simp]: "slice xs i i = []"
  by (simp add: slice_def)

lemma slice_whole [simp]: "slice xs 0 (length xs) = xs"
  by (simp add: slice_def)

lemma mp_format_payload_small: "mp_format b = MpPayload n \<Longrightarrow> n \<le> maxBlobBytes"
proof -
  have and_le: "unat (b AND m) \<le> unat m" for m
    by (simp add: word_and_le1 flip: word_le_nat_alt)
  have "unat (b AND 0x1f) \<le> 31"
    using and_le [of "0x1f"] by simp
  then show "mp_format b = MpPayload n \<Longrightarrow> n \<le> maxBlobBytes"
    by (auto simp: mp_format_def maxBlobBytes_def split: if_splits)
qed

lemma mp_format_counted_entries: "mp_format b = MpCountedEntries w m k lim \<Longrightarrow> 1 \<le> m"
  by (auto simp: mp_format_def split: if_splits)

lemma scanBlob_eq_Inr:
  "pos \<le> length data \<Longrightarrow>
   scanBlob data pos n = Inr e \<longleftrightarrow> n \<le> maxBlobBytes \<and> e = pos + n \<and> e \<le> length data"
  by (auto simp: scanBlob_def checkLimit_def)

lemma scanLen_eq_Inr:
  "scanLen data pos w = Inr (n, e) \<longleftrightarrow>
     e = pos + w \<and> n = nat_be (slice data pos e) \<and> e + n \<le> length data"
  by (auto simp: scanLen_def Let_def slice_def)

lemma checkLimit_eq_Inr: "checkLimit k n lim = Inr u \<longleftrightarrow> n \<le> lim"
  by (auto simp: checkLimit_def)


section \<open>Every accepted input is a value\<close>

definition scan_sound_at :: "bytes \<Rightarrow> nat \<Rightarrow> bool" where
  "scan_sound_at data d \<longleftrightarrow>
     (\<forall>pos e. scanValue data pos d = Inr e \<longrightarrow>
        pos < e \<and> e \<le> length data \<and> mp_value d (slice data pos e))"

lemma scanLoop_sound:
  assumes "scan_sound_at data (Suc d)"
  shows "scanLoop data pos d n = Inr e \<Longrightarrow> pos \<le> length data \<Longrightarrow>
    pos \<le> e \<and> e \<le> length data \<and> mp_values (Suc d) n (slice data pos e)"
proof (induction n arbitrary: pos)
  case 0
  then show ?case by (simp add: scanLoop.simps mp_value_mp_values.intros)
next
  case (Suc n)
  from Suc.prems obtain p where p: "scanValue data pos (Suc d) = Inr p" "scanLoop data p d n = Inr e"
    by (auto simp: scanLoop.simps [of _ _ _ "Suc n"] bindR_eq_Inr)
  with assms have v: "pos < p" "p \<le> length data" "mp_value (Suc d) (slice data pos p)"
    by (auto simp: scan_sound_at_def)
  with Suc.IH p have vs: "p \<le> e" "e \<le> length data" "mp_values (Suc d) n (slice data p e)"
    by auto
  have "mp_values (Suc d) (Suc n) (slice data pos p @ slice data p e)"
    using v vs by (intro more_values)
  with v vs show ?case by (simp add: slice_append [of pos p e])
qed

lemma scanEntries_sound:
  assumes "scan_sound_at data (Suc d)" "scanEntries data pos d n = Inr e" "pos \<le> length data"
  shows "pos \<le> e \<and> e \<le> length data \<and> mp_values (Suc d) n (slice data pos e)"
  using assms scanLoop_sound by (auto simp: scanEntries.simps split: if_splits)

lemma scan_layout_sound:
  assumes sound: "scan_sound_at data (Suc d)"
    and scan: "scan_layout data (Suc pos) d (mp_format (data ! pos)) = Inr e"
    and pos: "pos < length data" and d: "d \<le> maxScanDepth"
  shows "pos < e \<and> e \<le> length data \<and> mp_value d (slice data pos e)"
proof (cases "mp_format (data ! pos)")
  case (MpPayload n)
  with scan pos have e: "e = Suc pos + n" "e \<le> length data"
    by (auto simp: scan_layout_def scanBlob_eq_Inr)
  then have "mp_value d (data ! pos # slice data (Suc pos) e)"
    using d MpPayload by (intro payload) auto
  with e show ?thesis by (simp add: slice_Cons)
next
  case (MpCounted w x)
  with scan obtain n p where len: "scanLen data (Suc pos) w = Inr (n, p)" and blob: "scanBlob data p (n + x) = Inr e"
    by (auto simp: scan_layout_def bindR_eq_Inr)
  from len have p: "p = Suc pos + w" "n = nat_be (slice data (Suc pos) p)" "p + n \<le> length data"
    by (auto simp: scanLen_eq_Inr)
  with blob have e: "e = p + (n + x)" "e \<le> length data" "n + x \<le> maxBlobBytes"
    by (auto simp: scanBlob_eq_Inr)
  have "mp_value d (data ! pos # slice data (Suc pos) p @ slice data p e)"
    using d p e MpCounted by (intro counted [where x = x]) auto
  moreover have "slice data pos e = data ! pos # slice data (Suc pos) p @ slice data p e"
    using p e slice_append [of "Suc pos" p e data] by (simp add: slice_Cons)
  ultimately show ?thesis using p e by simp
next
  case (MpEntries n)
  with scan sound pos have e: "Suc pos \<le> e" "e \<le> length data" "mp_values (Suc d) n (slice data (Suc pos) e)"
    using scanEntries_sound [of data d "Suc pos" n e] by (auto simp: scan_layout_def)
  then have "mp_value d (data ! pos # slice data (Suc pos) e)"
    using d MpEntries by (intro entries) auto
  with e show ?thesis by (simp add: slice_Cons)
next
  case (MpCountedEntries w m k lim)
  with scan obtain n p where len: "scanLen data (Suc pos) w = Inr (n, p)" and lim: "n \<le> lim"
    and ent: "scanEntries data p d (m * n) = Inr e"
    by (auto simp: scan_layout_def bindR_eq_Inr checkLimit_eq_Inr)
  from len have p: "p = Suc pos + w" "n = nat_be (slice data (Suc pos) p)" "p + n \<le> length data"
    by (auto simp: scanLen_eq_Inr)
  with ent sound have e: "p \<le> e" "e \<le> length data" "mp_values (Suc d) (m * n) (slice data p e)"
    using scanEntries_sound [of data d p "m * n" e] by auto
  have "mp_value d (data ! pos # slice data (Suc pos) p @ slice data p e)"
    using d p e lim MpCountedEntries by (intro counted_entries) auto
  moreover have "slice data pos e = data ! pos # slice data (Suc pos) p @ slice data p e"
    using p e slice_append [of "Suc pos" p e data] by (simp add: slice_Cons)
  ultimately show ?thesis using p e by simp
next
  case MpReserved
  with scan show ?thesis by (simp add: scan_layout_def)
qed

lemma scanValue_sound: "scan_sound_at data d"
proof (induction "maxScanDepth + 1 - d" arbitrary: d rule: less_induct)
  case less
  show ?case
  proof (cases "d \<le> maxScanDepth")
    case True
    then have "scan_sound_at data (Suc d)" by (intro less) simp
    with True show ?thesis
      using scan_layout_sound [of data d] unfolding scan_sound_at_def [of data d]
      by (auto simp: scanValue_layout split: if_splits)
  next
    case False
    then show ?thesis by (simp add: scan_sound_at_def scanValue_layout)
  qed
qed


section \<open>Every value is accepted\<close>

lemma mp_values_length: "mp_value d v \<Longrightarrow> 1 \<le> length v" "mp_values d n vs \<Longrightarrow> n \<le> length vs"
  by (induction rule: mp_value_mp_values.inducts) auto

lemma scan_complete:
  "mp_value d v \<Longrightarrow> (\<forall>pre post. scanValue (pre @ v @ post) (length pre) d = Inr (length pre + length v))"
  "mp_values d n vs \<Longrightarrow> (\<forall>d' pre post. d = Suc d' \<longrightarrow>
     scanLoop (pre @ vs @ post) (length pre) d' n = Inr (length pre + length vs))"
proof (induction rule: mp_value_mp_values.inducts)
  case (payload d b p)
  then show ?case
    using mp_format_payload_small [of b "length p"]
    by (simp add: scanValue_layout scan_layout_def scanBlob_eq_Inr)
next
  case (counted d b l x p)
  have "scanLen (pre @ (b # l @ p) @ post) (Suc (length pre)) (length l)
      = Inr (nat_be l, Suc (length pre) + length l)" for pre post
    using counted by (simp add: scanLen_eq_Inr slice_def)
  with counted show ?case
    by (simp add: scanValue_layout scan_layout_def scanBlob_eq_Inr)
next
  case (entries d b n body)
  have "n \<le> length body" using mp_values_length(2) entries by blast
  moreover have "scanLoop ((pre @ [b]) @ body @ post) (length (pre @ [b])) d n
      = Inr (length (pre @ [b]) + length body)" for pre post
    using entries.IH by blast
  ultimately show ?case
    using entries.hyps by (simp add: scanValue_layout scan_layout_def scanEntries.simps)
next
  case (counted_entries d b l m k lim body)
  have len: "m * nat_be l \<le> length body" using mp_values_length(2) counted_entries by blast
  have m: "1 \<le> m" using mp_format_counted_entries counted_entries by blast
  from m have "nat_be l \<le> m * nat_be l" by simp
  with len have "nat_be l \<le> length body" by linarith
  then have "scanLen (pre @ (b # l @ body) @ post) (Suc (length pre)) (length l)
      = Inr (nat_be l, Suc (length pre) + length l)" for pre post
    by (simp add: scanLen_eq_Inr slice_def)
  moreover have "scanLoop ((pre @ b # l) @ body @ post) (length (pre @ b # l)) d (m * nat_be l)
      = Inr (length (pre @ b # l) + length body)" for pre post
    using counted_entries.IH by blast
  ultimately show ?case
    using counted_entries.hyps len
    by (simp add: scanValue_layout scan_layout_def scanEntries.simps checkLimit_def)
next
  case (no_values d)
  then show ?case by (simp add: scanLoop.simps)
next
  case (more_values d v n vs)
  show ?case
  proof (intro allI impI)
    fix d' pre post assume d: "d = Suc d'"
    have "scanValue (pre @ v @ vs @ post) (length pre) (Suc d') = Inr (length pre + length v)"
      using more_values.IH(1) d by blast
    moreover have "scanLoop ((pre @ v) @ vs @ post) (length (pre @ v)) d' n = Inr (length (pre @ v) + length vs)"
      using more_values.IH(2) d by blast
    ultimately show "scanLoop (pre @ (v @ vs) @ post) (length pre) d' (Suc n) = Inr (length pre + length (v @ vs))"
      by (simp add: scanLoop.simps [of _ _ _ "Suc n"] add.assoc)
  qed
qed


section \<open>What the scanner guarantees\<close>

lemma validateShape_iff: "validateShape data = Inr () \<longleftrightarrow> mp_value 0 data"
proof
  assume "validateShape data = Inr ()"
  then have "scanValue data 0 0 = Inr (length data)"
    by (auto simp: validateShape_def bindR_eq_Inr split: if_splits)
  with scanValue_sound [of data 0] have "mp_value 0 (slice data 0 (length data))"
    unfolding scan_sound_at_def by blast
  then show "mp_value 0 data" by simp
next
  assume "mp_value 0 data"
  then have "scanValue ([] @ data @ []) (length ([] :: bytes)) 0 = Inr (length ([] :: bytes) + length data)"
    using scan_complete(1) by blast
  then show "validateShape data = Inr ()"
    by (simp add: validateShape_def)
qed

text \<open>C1: the scanner accepts exactly the byte strings that are one complete MessagePack value
  within the depth, entry and blob limits, with nothing before or after it; its only other outcome is
  an error.\<close>

theorem validateShape_decides:
  "(if mp_value 0 data then validateShape data = Inr () else isl (validateShape data))"
  using validateShape_iff [of data] by (cases "validateShape data") auto

text \<open>C20: a container header the scanner lets through is backed by data: the entries it announces
  (twice the pairs, for a map) are at most the bytes the scan consumed after it, all of them inside the
  input, so no accepted length prefix can make the decoder allocate more entries than bytes were sent.\<close>

theorem scanEntries_backed_by_bytes:
  assumes "scanEntries data pos depth count = Inr e" "pos \<le> length data"
  shows "pos + count \<le> e \<and> e \<le> length data"
proof -
  have "pos \<le> e" "e \<le> length data" "mp_values (Suc depth) count (slice data pos e)"
    using scanEntries_sound [OF scanValue_sound assms] by auto
  then have "count \<le> e - pos"
    using mp_values_length(2) [of "Suc depth" count "slice data pos e"] by simp
  with \<open>pos \<le> e\<close> \<open>e \<le> length data\<close> show ?thesis by simp
qed

theorem scanEntries_backed_by_bytes_witness:
  "scanEntries [0x92, 0x01, 0xa1, 0x61] 1 0 2 = Inr 4 \<and> 1 + 2 \<le> (4 :: nat)"
proof -
  have "scanEntries [0x92, 0x01, 0xa1, 0x61] 1 0 2 = Inr 4"
    by (simp add: scanEntries.simps scanLoop.simps scanValue.simps scanBlob_def checkLimit_def
      maxScanDepth_def maxBlobBytes_def)
  with scanEntries_backed_by_bytes [of "[0x92, 0x01, 0xa1, 0x61]" 1 0 2 4] show ?thesis
    by simp
qed

end
