(* ===== verification/Wire_Types.thy ===== *)
theory Wire_Types
  imports Go_Prelude
begin

text \<open>
  The kinds and records of \<^verbatim>\<open>internal/wire/wire.go\<close>, the private MessagePack contract shared
  with the native crate. The event and command unions are the flat Go structs, as records with a zero
  value each, so that a Go composite literal is the zero value with the named fields set. A field
  name carries its record's prefix. A Go map is an association list, a pointer an option.
\<close>

section \<open>Kinds\<close>

datatype EventKind =
    EventRunnerConnected
  | EventRunnerDisconnected
  | EventRunnerStopped
  | EventActorStart
  | EventActorStop
  | EventActorAlarm
  | EventActorIntentResult
  | EventActorScheduleResult
  | EventActorQueueResult
  | EventConnectionPreflight
  | EventConnectionOpen
  | EventConnectionClose
  | EventActionCall
  | EventHTTPRequest
  | EventHTTPRequestChunk
  | EventHTTPRequestAbort
  | EventWSOpen
  | EventWSMessage
  | EventWSClose
  | EventKVResult
  | EventStatePersisted
  | EventSQLiteResult
  | EventUnknown string

fun eventKindString :: "EventKind \<Rightarrow> string" where
  "eventKindString EventRunnerConnected = ''runner_connected''"
| "eventKindString EventRunnerDisconnected = ''runner_disconnected''"
| "eventKindString EventRunnerStopped = ''runner_stopped''"
| "eventKindString EventActorStart = ''actor_start''"
| "eventKindString EventActorStop = ''actor_stop''"
| "eventKindString EventActorAlarm = ''actor_alarm''"
| "eventKindString EventActorIntentResult = ''actor_intent_result''"
| "eventKindString EventActorScheduleResult = ''actor_schedule_result''"
| "eventKindString EventActorQueueResult = ''actor_queue_result''"
| "eventKindString EventConnectionPreflight = ''connection_preflight''"
| "eventKindString EventConnectionOpen = ''connection_open''"
| "eventKindString EventConnectionClose = ''connection_close''"
| "eventKindString EventActionCall = ''action_call''"
| "eventKindString EventHTTPRequest = ''http_request''"
| "eventKindString EventHTTPRequestChunk = ''http_request_chunk''"
| "eventKindString EventHTTPRequestAbort = ''http_request_abort''"
| "eventKindString EventWSOpen = ''ws_open''"
| "eventKindString EventWSMessage = ''ws_message''"
| "eventKindString EventWSClose = ''ws_close''"
| "eventKindString EventKVResult = ''kv_result''"
| "eventKindString EventStatePersisted = ''state_persisted''"
| "eventKindString EventSQLiteResult = ''sqlite_result''"
| "eventKindString (EventUnknown s) = s"

datatype CommandKind =
    CommandActorStartResult
  | CommandActorStopResult
  | CommandActorRunResult
  | CommandAlarmHandled
  | CommandActionResult
  | CommandConnectionResult
  | CommandHTTPResponseStart
  | CommandHTTPResponseChunk
  | CommandWSOpenResult
  | CommandWSMessageAck
  | CommandWSSend
  | CommandWSClose
  | CommandBroadcast
  | CommandStopIntent
  | CommandSetAlarm
  | CommandSleepIntent
  | CommandDestroyIntent
  | CommandScheduleAfter
  | CommandScheduleAt
  | CommandScheduleCancel
  | CommandScheduleGet
  | CommandScheduleList
  | CommandQueueSend
  | CommandQueueEnqueueWait
  | CommandQueueNext
  | CommandQueueComplete
  | CommandQueueRetry
  | CommandQueueCancel
  | CommandManagedWorkBegin
  | CommandManagedWorkEnd
  | CommandSaveState
  | CommandKVGet
  | CommandKVList
  | CommandKVPut
  | CommandKVDelete
  | CommandSQLiteExec
  | CommandSQLiteQuery
  | CommandSQLiteBegin
  | CommandSQLiteCommit
  | CommandSQLiteRollback

fun commandKindString :: "CommandKind \<Rightarrow> string" where
  "commandKindString CommandActorStartResult = ''actor_start_result''"
| "commandKindString CommandActorStopResult = ''actor_stop_result''"
| "commandKindString CommandActorRunResult = ''actor_run_result''"
| "commandKindString CommandAlarmHandled = ''alarm_handled''"
| "commandKindString CommandActionResult = ''action_result''"
| "commandKindString CommandConnectionResult = ''connection_result''"
| "commandKindString CommandHTTPResponseStart = ''http_response_start''"
| "commandKindString CommandHTTPResponseChunk = ''http_response_chunk''"
| "commandKindString CommandWSOpenResult = ''ws_open_result''"
| "commandKindString CommandWSMessageAck = ''ws_message_ack''"
| "commandKindString CommandWSSend = ''ws_send''"
| "commandKindString CommandWSClose = ''ws_close_cmd''"
| "commandKindString CommandBroadcast = ''broadcast''"
| "commandKindString CommandStopIntent = ''stop_intent''"
| "commandKindString CommandSetAlarm = ''set_alarm''"
| "commandKindString CommandSleepIntent = ''sleep_intent''"
| "commandKindString CommandDestroyIntent = ''destroy_intent''"
| "commandKindString CommandScheduleAfter = ''schedule_after''"
| "commandKindString CommandScheduleAt = ''schedule_at''"
| "commandKindString CommandScheduleCancel = ''schedule_cancel''"
| "commandKindString CommandScheduleGet = ''schedule_get''"
| "commandKindString CommandScheduleList = ''schedule_list''"
| "commandKindString CommandQueueSend = ''queue_send''"
| "commandKindString CommandQueueEnqueueWait = ''queue_enqueue_wait''"
| "commandKindString CommandQueueNext = ''queue_next''"
| "commandKindString CommandQueueComplete = ''queue_complete''"
| "commandKindString CommandQueueRetry = ''queue_retry''"
| "commandKindString CommandQueueCancel = ''queue_cancel''"
| "commandKindString CommandManagedWorkBegin = ''managed_work_begin''"
| "commandKindString CommandManagedWorkEnd = ''managed_work_end''"
| "commandKindString CommandSaveState = ''save_state''"
| "commandKindString CommandKVGet = ''kv_get''"
| "commandKindString CommandKVList = ''kv_list''"
| "commandKindString CommandKVPut = ''kv_put''"
| "commandKindString CommandKVDelete = ''kv_delete''"
| "commandKindString CommandSQLiteExec = ''sqlite_exec''"
| "commandKindString CommandSQLiteQuery = ''sqlite_query''"
| "commandKindString CommandSQLiteBegin = ''sqlite_begin''"
| "commandKindString CommandSQLiteCommit = ''sqlite_commit''"
| "commandKindString CommandSQLiteRollback = ''sqlite_rollback''"

section \<open>Records\<close>

record WireError =
  we_Code :: "string"
  we_Message :: "string"
  we_SQLiteCode :: "i32 option"
  we_StatementIndex :: "u32 option"

record DrainReport =
  dr_Graceful :: "bool"
  dr_ElapsedMS :: "u64"
  dr_ActorsStopped :: "u32"
  dr_ActorsRemaining :: "u32"

record KVEntry =
  kv_Key :: "bytes option"
  kv_Value :: "bytes option"

record ScheduledEvent =
  se_ID :: "string"
  se_Action :: "string"
  se_Args :: "bytes option"
  se_RunAt :: "i64"

record QueueMessage =
  qm_ID :: "u64"
  qm_Name :: "string"
  qm_Body :: "bytes option"
  qm_CreatedAt :: "i64"
  qm_Completable :: "bool"

record SQLiteValue =
  sv_Kind :: "string"
  sv_Integer :: "i64 option"
  sv_Bits :: "u64 option"
  sv_Text :: "string option"
  sv_Blob :: "bytes option"

record Connection =
  cn_ID :: "string"
  cn_Parameters :: "bytes option"
  cn_State :: "bytes option"
  cn_Path :: "string"
  cn_Headers :: "(string \<times> string) list"
  cn_CanHibernate :: "bool"
  cn_Resumed :: "bool"
  cn_ActorConnect :: "bool"

record Event =
  ev_Kind :: "EventKind"
  ev_RunnerID :: "string"
  ev_Metadata :: "(string \<times> string) list"
  ev_Reason :: "string"
  ev_DrainReport :: "DrainReport option"
  ev_AID :: "string"
  ev_Generation :: "u64"
  ev_Name :: "string"
  ev_Key :: "string"
  ev_CreateTS :: "i64"
  ev_Input :: "bytes option"
  ev_PersistedState :: "bytes option"
  ev_SQLiteSocketPath :: "string"
  ev_Connections :: "Connection list"
  ev_KVID :: "u64"
  ev_Value :: "bytes option"
  ev_Entries :: "KVEntry list"
  ev_StateVersion :: "u64"
  ev_Error :: "WireError option"
  ev_CallID :: "u64"
  ev_Action :: "string"
  ev_ActionTimeoutMS :: "u32"
  ev_Args :: "bytes option"
  ev_ConnID :: "string option"
  ev_Connection :: "Connection option"
  ev_RequestID :: "u64"
  ev_Method :: "string"
  ev_Path :: "string"
  ev_Headers :: "(string \<times> string) list"
  ev_Body :: "bytes option"
  ev_Stream :: "bool"
  ev_Finish :: "bool"
  ev_WSID :: "string"
  ev_CanHibernate :: "bool"
  ev_Resumed :: "bool"
  ev_Data :: "bytes option"
  ev_Binary :: "bool"
  ev_MessageIndex :: "u16"
  ev_CloseCode :: "u16 option"
  ev_AlarmTS :: "i64"
  ev_OperationID :: "u64"
  ev_ScheduleOperation :: "string"
  ev_ScheduleID :: "string"
  ev_Cancelled :: "bool option"
  ev_Schedules :: "ScheduledEvent list"
  ev_QueueOperation :: "string"
  ev_QueueMessage :: "QueueMessage option"
  ev_QueueResponse :: "bytes option"
  ev_SQLiteValues :: "SQLiteValue list"
  ev_Columns :: "string list"
  ev_RowsAffected :: "i64"
  ev_LastInsertID :: "i64 option"
  ev_ChunkIndex :: "u32"
  ev_Done :: "bool"
  ev_SQLiteRequestID :: "u64"

definition zeroEvent :: Event where
  "zeroEvent =
     \<lparr>ev_Kind = EventUnknown [],
      ev_RunnerID = [],
      ev_Metadata = [],
      ev_Reason = [],
      ev_DrainReport = None,
      ev_AID = [],
      ev_Generation = 0,
      ev_Name = [],
      ev_Key = [],
      ev_CreateTS = 0,
      ev_Input = None,
      ev_PersistedState = None,
      ev_SQLiteSocketPath = [],
      ev_Connections = [],
      ev_KVID = 0,
      ev_Value = None,
      ev_Entries = [],
      ev_StateVersion = 0,
      ev_Error = None,
      ev_CallID = 0,
      ev_Action = [],
      ev_ActionTimeoutMS = 0,
      ev_Args = None,
      ev_ConnID = None,
      ev_Connection = None,
      ev_RequestID = 0,
      ev_Method = [],
      ev_Path = [],
      ev_Headers = [],
      ev_Body = None,
      ev_Stream = False,
      ev_Finish = False,
      ev_WSID = [],
      ev_CanHibernate = False,
      ev_Resumed = False,
      ev_Data = None,
      ev_Binary = False,
      ev_MessageIndex = 0,
      ev_CloseCode = None,
      ev_AlarmTS = 0,
      ev_OperationID = 0,
      ev_ScheduleOperation = [],
      ev_ScheduleID = [],
      ev_Cancelled = None,
      ev_Schedules = [],
      ev_QueueOperation = [],
      ev_QueueMessage = None,
      ev_QueueResponse = None,
      ev_SQLiteValues = [],
      ev_Columns = [],
      ev_RowsAffected = 0,
      ev_LastInsertID = None,
      ev_ChunkIndex = 0,
      ev_Done = False,
      ev_SQLiteRequestID = 0\<rparr>"

record EventBatch =
  eb_Seq :: "u64"
  eb_Events :: "Event list"

record Command =
  cmd_Kind :: "CommandKind"
  cmd_AID :: "string"
  cmd_Generation :: "u64"
  cmd_OK :: "bool"
  cmd_Run :: "bool"
  cmd_Error :: "WireError option"
  cmd_State :: "bytes option"
  cmd_KVID :: "u64"
  cmd_Key :: "bytes option"
  cmd_Prefix :: "bytes option"
  cmd_Reverse :: "bool"
  cmd_Limit :: "u32 option"
  cmd_Value :: "bytes option"
  cmd_CallID :: "u64"
  cmd_Output :: "bytes option"
  cmd_ConnectionState :: "bytes option"
  cmd_RequestID :: "u64"
  cmd_Status :: "u16"
  cmd_Headers :: "(string \<times> string) list"
  cmd_Body :: "bytes option"
  cmd_Stream :: "bool"
  cmd_Finish :: "bool"
  cmd_WSID :: "string"
  cmd_Accept :: "bool"
  cmd_Data :: "bytes option"
  cmd_Binary :: "bool"
  cmd_MessageIndex :: "u16"
  cmd_CloseCode :: "u16 option"
  cmd_CloseReason :: "string option"
  cmd_Hibernate :: "bool"
  cmd_Event :: "string"
  cmd_Payload :: "bytes option"
  cmd_ExcludeConn :: "string option"
  cmd_AlarmTS :: "i64 option"
  cmd_OperationID :: "u64"
  cmd_Action :: "string"
  cmd_Name :: "string"
  cmd_ScheduleArgs :: "bytes option"
  cmd_ScheduleID :: "string"
  cmd_DelayMS :: "u64"
  cmd_RunAt :: "i64"
  cmd_SQLiteRequestID :: "u64"
  cmd_SQL :: "string"
  cmd_SQLArgs :: "SQLiteValue list"
  cmd_LeaseKey :: "string option"
  cmd_DeadlineMS :: "u32"
  cmd_TimeoutMS :: "u64"
  cmd_QueueTimeoutMS :: "u64 option"
  cmd_Names :: "string list"
  cmd_Completable :: "bool"
  cmd_MessageID :: "u64"
  cmd_Response :: "bytes option"
  cmd_TargetOperation :: "u64"
  cmd_WorkID :: "u64"
  cmd_WorkKind :: "string"

definition zeroCommand :: Command where
  "zeroCommand =
     \<lparr>cmd_Kind = CommandActorStartResult,
      cmd_AID = [],
      cmd_Generation = 0,
      cmd_OK = False,
      cmd_Run = False,
      cmd_Error = None,
      cmd_State = None,
      cmd_KVID = 0,
      cmd_Key = None,
      cmd_Prefix = None,
      cmd_Reverse = False,
      cmd_Limit = None,
      cmd_Value = None,
      cmd_CallID = 0,
      cmd_Output = None,
      cmd_ConnectionState = None,
      cmd_RequestID = 0,
      cmd_Status = 0,
      cmd_Headers = [],
      cmd_Body = None,
      cmd_Stream = False,
      cmd_Finish = False,
      cmd_WSID = [],
      cmd_Accept = False,
      cmd_Data = None,
      cmd_Binary = False,
      cmd_MessageIndex = 0,
      cmd_CloseCode = None,
      cmd_CloseReason = None,
      cmd_Hibernate = False,
      cmd_Event = [],
      cmd_Payload = None,
      cmd_ExcludeConn = None,
      cmd_AlarmTS = None,
      cmd_OperationID = 0,
      cmd_Action = [],
      cmd_Name = [],
      cmd_ScheduleArgs = None,
      cmd_ScheduleID = [],
      cmd_DelayMS = 0,
      cmd_RunAt = 0,
      cmd_SQLiteRequestID = 0,
      cmd_SQL = [],
      cmd_SQLArgs = [],
      cmd_LeaseKey = None,
      cmd_DeadlineMS = 0,
      cmd_TimeoutMS = 0,
      cmd_QueueTimeoutMS = None,
      cmd_Names = [],
      cmd_Completable = False,
      cmd_MessageID = 0,
      cmd_Response = None,
      cmd_TargetOperation = 0,
      cmd_WorkID = 0,
      cmd_WorkKind = []\<rparr>"

record CommandBatch =
  cb_Commands :: "Command list"

record RunnerConfig =
  rc_EngineEndpoint :: "string"
  rc_Namespace :: "string"
  rc_RunnerName :: "string"
  rc_Version :: "u32"
  rc_TotalSlots :: "u32"
  rc_ActorNames :: "string list"
  rc_ActorActions :: "(string \<times> string list) list"
  rc_ActorHibernateWebSockets :: "(string \<times> bool) list"
  rc_ActorDatabases :: "(string \<times> bool) list"
  rc_SQLiteTransport :: "string"
  rc_LogLevel :: "string"

end
