(* ===== verification/Wire.thy ===== *)
theory Wire
  imports Wire_Types Wire_Scan
begin

text \<open>
  \<^verbatim>\<open>internal/wire/wire.go\<close>: \<open>validateEvent\<close> and its helpers, the semantic checks that
  \<open>DecodeEventBatch\<close> makes after the shape scan of \<open>Wire_Scan\<close>. The MessagePack library itself
  (\<^verbatim>\<open>vmihailenco/msgpack\<close>) is a parameter of \<open>DecodeEventBatch\<close>. The second half states what a
  decoded event promises to the pump, per kind.
\<close>

section \<open>Validation of events\<close>

definition oneMiB :: nat where "oneMiB = 2 ^ 20"

datatype conn_problem =
    BadConnectionID
  | ParametersTooLong
  | StateTooLong
  | PathTooLong
  | TooManyHeaders
  | HeaderTooLong

datatype result_problem =
    InvalidOpID
  | SuccessPayloadOnError
  | CreateRequiresScheduleID
  | CancelRequiresCancelled
  | GetAtMostOne
  | ListInvalidPayload
  | ScheduleRequiresIDAndAction nat
  | ScheduleArgsTooLong nat
  | SendRequiresMessage
  | EnqueueWaitHasMessage
  | NextHasResponse
  | ResultHasPayload string
  | QueueMessageRequiresIDAndName
  | QueueMessageTooLong
  | QueueResponseTooLong
  | UnknownOperation string

datatype value_problem =
    TextTooLong
  | BlobTooLong
  | NullHasPayload
  | IntegerPayload
  | RealPayload
  | TextPayload
  | BlobPayload
  | UnknownValueKind string

datatype event_problem =
    MissingField "string list"
  | SocketPathNotAbsolute
  | TooManyRestored
  | RestoredConnection nat conn_problem
  | RestoredNotResumed nat
  | UnsupportedReason string
  | ScheduleProblem result_problem
  | QueueProblem result_problem
  | ConnectionProblem conn_problem
  | NotActorConnect
  | EventTooManyHeaders
  | ResumedNotHibernatable
  | MessageTooLong
  | TextNotUTF8
  | BadCloseCode u16
  | BadCloseReason
  | ErrorNotTerminal
  | ValueProblem nat value_problem
  | UnknownEventKind
  | IncompleteError

definition validateConnection :: "Connection \<Rightarrow> conn_problem + unit" where
  "validateConnection c =
     bindR (checkR (cn_ID c = [] \<or> length (cn_ID c) > oneMiB) BadConnectionID) (\<lambda>_.
     bindR (checkR (blen (cn_Parameters c) > oneMiB) ParametersTooLong) (\<lambda>_.
     bindR (checkR (blen (cn_State c) > oneMiB) StateTooLong) (\<lambda>_.
     bindR (checkR (length (cn_Path c) > oneMiB) PathTooLong) (\<lambda>_.
     bindR (checkR (length (cn_Headers c) > 256) TooManyHeaders) (\<lambda>_.
     eachR (\<lambda>_ (name, val). checkR (length name > oneMiB \<or> length val > oneMiB) HeaderTooLong)
       0 (cn_Headers c))))))"

definition validateSchedule :: "nat \<Rightarrow> ScheduledEvent \<Rightarrow> result_problem + unit" where
  "validateSchedule index schedule =
     bindR (checkR (se_ID schedule = [] \<or> se_Action schedule = []) (ScheduleRequiresIDAndAction index)) (\<lambda>_.
     checkR (blen (se_Args schedule) > oneMiB) (ScheduleArgsTooLong index))"

definition validateScheduleResult :: "Event \<Rightarrow> result_problem + unit" where
  "validateScheduleResult event =
     bindR (checkR (ev_OperationID event = 0) InvalidOpID) (\<lambda>_.
     if ev_Error event \<noteq> None then
       checkR (ev_ScheduleID event \<noteq> [] \<or> ev_Cancelled event \<noteq> None \<or> ev_Schedules event \<noteq> [])
         SuccessPayloadOnError
     else
       bindR
        (if ev_ScheduleOperation event = ''create'' then
           checkR (ev_ScheduleID event = [] \<or> ev_Cancelled event \<noteq> None \<or> ev_Schedules event \<noteq> [])
             CreateRequiresScheduleID
         else if ev_ScheduleOperation event = ''cancel'' then
           checkR (ev_ScheduleID event \<noteq> [] \<or> ev_Cancelled event = None \<or> ev_Schedules event \<noteq> [])
             CancelRequiresCancelled
         else if ev_ScheduleOperation event = ''get'' then
           checkR (ev_ScheduleID event \<noteq> [] \<or> ev_Cancelled event \<noteq> None \<or> length (ev_Schedules event) > 1)
             GetAtMostOne
         else if ev_ScheduleOperation event = ''list'' then
           checkR (ev_ScheduleID event \<noteq> [] \<or> ev_Cancelled event \<noteq> None) ListInvalidPayload
         else Inl (UnknownOperation (ev_ScheduleOperation event)))
        (\<lambda>_. eachR validateSchedule 0 (ev_Schedules event)))"

definition validateQueueResult :: "Event \<Rightarrow> result_problem + unit" where
  "validateQueueResult event =
     bindR (checkR (ev_OperationID event = 0) InvalidOpID) (\<lambda>_.
     if ev_Error event \<noteq> None then
       checkR (ev_QueueMessage event \<noteq> None \<or> ev_QueueResponse event \<noteq> None) SuccessPayloadOnError
     else
       bindR
        (if ev_QueueOperation event = ''send'' then
           checkR (ev_QueueMessage event = None \<or> ev_QueueResponse event \<noteq> None) SendRequiresMessage
         else if ev_QueueOperation event = ''enqueue_wait'' then
           checkR (ev_QueueMessage event \<noteq> None) EnqueueWaitHasMessage
         else if ev_QueueOperation event = ''next'' then
           checkR (ev_QueueResponse event \<noteq> None) NextHasResponse
         else if ev_QueueOperation event = ''complete'' \<or> ev_QueueOperation event = ''retry'' then
           checkR (ev_QueueMessage event \<noteq> None \<or> ev_QueueResponse event \<noteq> None)
             (ResultHasPayload (ev_QueueOperation event))
         else Inl (UnknownOperation (ev_QueueOperation event)))
        (\<lambda>_. bindR (case ev_QueueMessage event of
                      None \<Rightarrow> Inr ()
                    | Some message \<Rightarrow>
                        bindR (checkR (qm_ID message = 0 \<or> qm_Name message = []) QueueMessageRequiresIDAndName) (\<lambda>_.
                        checkR (length (qm_Name message) > oneMiB \<or> blen (qm_Body message) > oneMiB)
                          QueueMessageTooLong))
               (\<lambda>_. checkR (blen (ev_QueueResponse event) > oneMiB) QueueResponseTooLong)))"

definition validateSQLiteValue :: "SQLiteValue \<Rightarrow> value_problem + unit" where
  "validateSQLiteValue v =
     (let n = (if sv_Integer v \<noteq> None then 1 else 0) + (if sv_Bits v \<noteq> None then 1 else 0)
            + (if sv_Text v \<noteq> None then 1 else 0) + (if sv_Blob v \<noteq> None then 1 else (0 :: nat)) in
      bindR (checkR (case sv_Text v of None \<Rightarrow> False | Some t \<Rightarrow> length t > oneMiB) TextTooLong) (\<lambda>_.
      bindR (checkR (blen (sv_Blob v) > oneMiB) BlobTooLong) (\<lambda>_.
      if sv_Kind v = ''null'' then checkR (n \<noteq> 0) NullHasPayload
      else if sv_Kind v = ''integer'' then checkR (sv_Integer v = None \<or> n \<noteq> 1) IntegerPayload
      else if sv_Kind v = ''real'' then checkR (sv_Bits v = None \<or> n \<noteq> 1) RealPayload
      else if sv_Kind v = ''text'' then checkR (sv_Text v = None \<or> n \<noteq> 1) TextPayload
      else if sv_Kind v = ''blob'' then checkR (sv_Blob v = None \<or> n \<noteq> 1) BlobPayload
      else Inl (UnknownValueKind (sv_Kind v)))))"

definition validWebSocketCloseCode :: "u16 \<Rightarrow> bool" where
  "validWebSocketCloseCode code \<longleftrightarrow>
     code \<ge> 1000 \<and> code \<le> 1003 \<or> code \<ge> 1007 \<and> code \<le> 1014 \<or> code \<ge> 3000 \<and> code \<le> 4999"

definition validateRestored :: "nat \<Rightarrow> Connection \<Rightarrow> event_problem + unit" where
  "validateRestored index c =
     bindR (mapErr (RestoredConnection index) (validateConnection c)) (\<lambda>_.
     checkR (\<not> cn_ActorConnect c \<or> \<not> cn_Resumed c \<or> \<not> cn_CanHibernate c) (RestoredNotResumed index))"

definition validateKind :: "Event \<Rightarrow> event_problem + unit" where
  "validateKind event =
     (case ev_Kind event of
        EventRunnerConnected \<Rightarrow> checkR (ev_RunnerID event = []) (MissingField [''runner_id''])
      | EventRunnerDisconnected \<Rightarrow> checkR (ev_Reason event = []) (MissingField [''reason''])
      | EventRunnerStopped \<Rightarrow> checkR (ev_DrainReport event = None) (MissingField [''drain_report''])
      | EventActorStart \<Rightarrow>
          bindR (checkR (ev_AID event = [] \<or> ev_Name event = []) (MissingField [''aid'', ''name''])) (\<lambda>_.
          bindR (checkR (ev_SQLiteSocketPath event \<noteq> [] \<and> hd (ev_SQLiteSocketPath event) \<noteq> CHR ''/'')
                   SocketPathNotAbsolute) (\<lambda>_.
          bindR (checkR (length (ev_Connections event) > 1024) TooManyRestored) (\<lambda>_.
          eachR validateRestored 0 (ev_Connections event))))
      | EventActorStop \<Rightarrow>
          bindR (checkR (ev_AID event = [] \<or> ev_Reason event = []) (MissingField [''aid'', ''reason''])) (\<lambda>_.
          checkR (ev_Reason event \<noteq> ''sleep'' \<and> ev_Reason event \<noteq> ''stop'' \<and> ev_Reason event \<noteq> ''destroy'')
            (UnsupportedReason (ev_Reason event)))
      | EventActorAlarm \<Rightarrow> checkR (ev_AID event = []) (MissingField [''aid''])
      | EventActorIntentResult \<Rightarrow> checkR (ev_OperationID event = 0) (MissingField [''op_id''])
      | EventActorScheduleResult \<Rightarrow> mapErr ScheduleProblem (validateScheduleResult event)
      | EventActorQueueResult \<Rightarrow> mapErr QueueProblem (validateQueueResult event)
      | EventActionCall \<Rightarrow>
          checkR (ev_AID event = [] \<or> ev_CallID event = 0 \<or> ev_Action event = [] \<or> ev_ActionTimeoutMS event = 0)
            (MissingField [''aid'', ''call_id'', ''action'', ''timeout_ms''])
      | EventHTTPRequest \<Rightarrow>
          bindR (checkR (ev_AID event = [] \<or> ev_RequestID event = 0 \<or> ev_Method event = [] \<or> ev_Path event = [])
                   (MissingField [''aid'', ''req_id'', ''method'', ''path''])) (\<lambda>_.
          checkR (length (ev_Headers event) > 256) EventTooManyHeaders)
      | EventHTTPRequestChunk \<Rightarrow>
          checkR (ev_RequestID event = 0 \<or> blen (ev_Body event) = 0 \<and> \<not> ev_Finish event)
            (MissingField [''req_id'', ''body'', ''finish''])
      | EventHTTPRequestAbort \<Rightarrow> checkR (ev_RequestID event = 0) (MissingField [''req_id''])
      | EventWSOpen \<Rightarrow>
          bindR (checkR (ev_AID event = [] \<or> ev_WSID event = [] \<or> ev_Path event = [])
                   (MissingField [''aid'', ''ws_id'', ''path''])) (\<lambda>_.
          bindR (checkR (length (ev_Headers event) > 256) EventTooManyHeaders) (\<lambda>_.
          checkR (ev_Resumed event \<and> \<not> ev_CanHibernate event) ResumedNotHibernatable))
      | EventWSMessage \<Rightarrow>
          bindR (checkR (ev_WSID event = []) (MissingField [''ws_id''])) (\<lambda>_.
          bindR (checkR (blen (ev_Data event) > oneMiB) MessageTooLong) (\<lambda>_.
          checkR (\<not> ev_Binary event \<and> \<not> utf8_valid (the_bytes (ev_Data event))) TextNotUTF8))
      | EventWSClose \<Rightarrow>
          bindR (checkR (ev_WSID event = []) (MissingField [''ws_id''])) (\<lambda>_.
          bindR (case ev_CloseCode event of None \<Rightarrow> Inr ()
                 | Some code \<Rightarrow> checkR (\<not> validWebSocketCloseCode code) (BadCloseCode code)) (\<lambda>_.
          checkR (length (ev_Reason event) > 123 \<or> \<not> utf8_valid (string_bytes (ev_Reason event))) BadCloseReason))
      | EventKVResult \<Rightarrow> checkR (ev_KVID event = 0) (MissingField [''kv_id''])
      | EventStatePersisted \<Rightarrow> checkR (ev_AID event = []) (MissingField [''aid''])
      | EventSQLiteResult \<Rightarrow>
          bindR (checkR (ev_SQLiteRequestID event = 0) (MissingField [''request_id''])) (\<lambda>_.
          bindR (checkR (ev_Error event \<noteq> None \<and>
                         (\<not> ev_Done event \<or> ev_Columns event \<noteq> [] \<or> ev_SQLiteValues event \<noteq> []))
                   ErrorNotTerminal) (\<lambda>_.
          eachR (\<lambda>index v. mapErr (ValueProblem index) (validateSQLiteValue v)) 0 (ev_SQLiteValues event)))
      | EventUnknown _ \<Rightarrow> Inl UnknownEventKind
      | _ \<Rightarrow> \<comment> \<open>connection preflight, open and close share one case\<close>
          (case ev_Connection event of
             None \<Rightarrow> Inl (MissingField [''aid'', ''op_id'', ''connection''])
           | Some c \<Rightarrow>
               bindR (checkR (ev_AID event = [] \<or> ev_OperationID event = 0)
                        (MissingField [''aid'', ''op_id'', ''connection''])) (\<lambda>_.
               bindR (mapErr ConnectionProblem (validateConnection c)) (\<lambda>_.
               checkR (\<not> cn_ActorConnect c) NotActorConnect))))"

definition validateEvent :: "Event \<Rightarrow> event_problem + unit" where
  "validateEvent event =
     bindR (validateKind event) (\<lambda>_.
       case ev_Error event of
         None \<Rightarrow> Inr ()
       | Some e \<Rightarrow> checkR (we_Code e = [] \<or> we_Message e = []) IncompleteError)"

datatype 'u batch_error =
    BatchShape scan_error
  | BatchUnmarshal 'u
  | BatchEvent nat event_problem

text \<open>\<open>unmarshal\<close> stands for \<open>msgpack.Unmarshal\<close> into an \<open>EventBatch\<close>.\<close>

definition DecodeEventBatch :: "(bytes \<Rightarrow> 'u + EventBatch) \<Rightarrow> bytes \<Rightarrow> 'u batch_error + EventBatch" where
  "DecodeEventBatch unmarshal data =
     bindR (mapErr BatchShape (validateShape data)) (\<lambda>_.
     bindR (mapErr BatchUnmarshal (unmarshal data)) (\<lambda>batch.
     bindR (eachR (\<lambda>i event. mapErr (BatchEvent i) (validateEvent event)) 0 (eb_Events batch)) (\<lambda>_.
     Inr batch)))"


section \<open>What a decoded event promises\<close>

text \<open>
  The contract is stated by concern, not by kind: which kinds are addressed to an actor, a request, a
  websocket or a pending operation; which values are bounded; and that an error excludes a payload.
\<close>

definition connection_ok :: "Connection \<Rightarrow> bool" where
  "connection_ok c \<longleftrightarrow>
     cn_ID c \<noteq> [] \<and> length (cn_ID c) \<le> oneMiB \<and> blen (cn_Parameters c) \<le> oneMiB \<and> blen (cn_State c) \<le> oneMiB \<and>
     length (cn_Path c) \<le> oneMiB \<and> length (cn_Headers c) \<le> 256 \<and>
     (\<forall>h \<in> set (cn_Headers c). length (fst h) \<le> oneMiB \<and> length (snd h) \<le> oneMiB)"

definition actor_kinds :: "EventKind set" where
  "actor_kinds = {EventActorStart, EventActorStop, EventActorAlarm, EventConnectionPreflight, EventConnectionOpen,
     EventConnectionClose, EventActionCall, EventHTTPRequest, EventWSOpen, EventStatePersisted}"

definition operation_kinds :: "EventKind set" where
  "operation_kinds = {EventActorIntentResult, EventActorScheduleResult, EventActorQueueResult,
     EventConnectionPreflight, EventConnectionOpen, EventConnectionClose}"

definition connection_kinds :: "EventKind set" where
  "connection_kinds = {EventConnectionPreflight, EventConnectionOpen, EventConnectionClose}"

definition request_kinds :: "EventKind set" where
  "request_kinds = {EventHTTPRequest, EventHTTPRequestChunk, EventHTTPRequestAbort}"

definition websocket_kinds :: "EventKind set" where
  "websocket_kinds = {EventWSOpen, EventWSMessage, EventWSClose}"

definition addressed :: "Event \<Rightarrow> bool" where
  "addressed e \<longleftrightarrow>
     (ev_Kind e \<in> actor_kinds \<longrightarrow> ev_AID e \<noteq> []) \<and>
     (ev_Kind e \<in> operation_kinds \<longrightarrow> ev_OperationID e \<noteq> 0) \<and>
     (ev_Kind e \<in> request_kinds \<longrightarrow> ev_RequestID e \<noteq> 0) \<and>
     (ev_Kind e \<in> websocket_kinds \<longrightarrow> ev_WSID e \<noteq> []) \<and>
     (ev_Kind e = EventActionCall \<longrightarrow> ev_CallID e \<noteq> 0) \<and>
     (ev_Kind e = EventKVResult \<longrightarrow> ev_KVID e \<noteq> 0) \<and>
     (ev_Kind e = EventSQLiteResult \<longrightarrow> ev_SQLiteRequestID e \<noteq> 0)"

definition sqlite_value_ok :: "SQLiteValue \<Rightarrow> bool" where
  "sqlite_value_ok v \<longleftrightarrow>
     v = \<lparr>sv_Kind = ''null'', sv_Integer = None, sv_Bits = None, sv_Text = None, sv_Blob = None\<rparr> \<or>
     (\<exists>i. v = \<lparr>sv_Kind = ''integer'', sv_Integer = Some i, sv_Bits = None, sv_Text = None, sv_Blob = None\<rparr>) \<or>
     (\<exists>b. v = \<lparr>sv_Kind = ''real'', sv_Integer = None, sv_Bits = Some b, sv_Text = None, sv_Blob = None\<rparr>) \<or>
     (\<exists>t. length t \<le> oneMiB \<and>
        v = \<lparr>sv_Kind = ''text'', sv_Integer = None, sv_Bits = None, sv_Text = Some t, sv_Blob = None\<rparr>) \<or>
     (\<exists>d. length d \<le> oneMiB \<and>
        v = \<lparr>sv_Kind = ''blob'', sv_Integer = None, sv_Bits = None, sv_Text = None, sv_Blob = Some d\<rparr>)"

definition schedule_reply_ok :: "Event \<Rightarrow> bool" where
  "schedule_reply_ok e \<longleftrightarrow>
     (if ev_Error e \<noteq> None then ev_ScheduleID e = [] \<and> ev_Cancelled e = None \<and> ev_Schedules e = []
      else ev_ScheduleOperation e \<in> {''create'', ''cancel'', ''get'', ''list''} \<and>
           (ev_ScheduleID e \<noteq> [] \<longleftrightarrow> ev_ScheduleOperation e = ''create'') \<and>
           (ev_Cancelled e \<noteq> None \<longleftrightarrow> ev_ScheduleOperation e = ''cancel'') \<and>
           (ev_ScheduleOperation e \<in> {''create'', ''cancel''} \<longrightarrow> ev_Schedules e = []) \<and>
           (ev_ScheduleOperation e = ''get'' \<longrightarrow> length (ev_Schedules e) \<le> 1) \<and>
           (\<forall>s \<in> set (ev_Schedules e). se_ID s \<noteq> [] \<and> se_Action s \<noteq> [] \<and> blen (se_Args s) \<le> oneMiB))"

definition queue_message_ok :: "QueueMessage \<Rightarrow> bool" where
  "queue_message_ok m \<longleftrightarrow> qm_ID m \<noteq> 0 \<and> qm_Name m \<noteq> [] \<and> length (qm_Name m) \<le> oneMiB \<and> blen (qm_Body m) \<le> oneMiB"

definition queue_reply_ok :: "Event \<Rightarrow> bool" where
  "queue_reply_ok e \<longleftrightarrow>
     (if ev_Error e \<noteq> None then ev_QueueMessage e = None \<and> ev_QueueResponse e = None
      else ev_QueueOperation e \<in> {''send'', ''enqueue_wait'', ''next'', ''complete'', ''retry''} \<and>
           (ev_QueueOperation e = ''send'' \<longrightarrow> ev_QueueMessage e \<noteq> None) \<and>
           (ev_QueueMessage e \<noteq> None \<longrightarrow> ev_QueueOperation e \<in> {''send'', ''next''}) \<and>
           (ev_QueueResponse e \<noteq> None \<longrightarrow> ev_QueueOperation e = ''enqueue_wait'') \<and>
           (\<forall>m. ev_QueueMessage e = Some m \<longrightarrow> queue_message_ok m) \<and>
           blen (ev_QueueResponse e) \<le> oneMiB)"

definition payload_ok :: "Event \<Rightarrow> bool" where
  "payload_ok e \<longleftrightarrow>
     (case ev_Kind e of
        EventRunnerConnected \<Rightarrow> ev_RunnerID e \<noteq> []
      | EventRunnerDisconnected \<Rightarrow> ev_Reason e \<noteq> []
      | EventRunnerStopped \<Rightarrow> ev_DrainReport e \<noteq> None
      | EventActorStart \<Rightarrow>
          ev_Name e \<noteq> [] \<and> (\<forall>c r. ev_SQLiteSocketPath e = c # r \<longrightarrow> c = CHR ''/'') \<and> length (ev_Connections e) \<le> 1024 \<and>
          (\<forall>c \<in> set (ev_Connections e). connection_ok c \<and> cn_ActorConnect c \<and> cn_Resumed c \<and> cn_CanHibernate c)
      | EventActorStop \<Rightarrow> ev_Reason e \<in> {''sleep'', ''stop'', ''destroy''}
      | EventActorScheduleResult \<Rightarrow> schedule_reply_ok e
      | EventActorQueueResult \<Rightarrow> queue_reply_ok e
      | EventActionCall \<Rightarrow> ev_Action e \<noteq> [] \<and> ev_ActionTimeoutMS e \<noteq> 0
      | EventHTTPRequest \<Rightarrow> ev_Method e \<noteq> [] \<and> ev_Path e \<noteq> [] \<and> length (ev_Headers e) \<le> 256
      | EventHTTPRequestChunk \<Rightarrow> blen (ev_Body e) = 0 \<longrightarrow> ev_Finish e
      | EventWSOpen \<Rightarrow> ev_Path e \<noteq> [] \<and> length (ev_Headers e) \<le> 256 \<and> (ev_Resumed e \<longrightarrow> ev_CanHibernate e)
      | EventWSMessage \<Rightarrow> blen (ev_Data e) \<le> oneMiB \<and> (ev_Binary e \<or> utf8_valid (the_bytes (ev_Data e)))
      | EventWSClose \<Rightarrow>
          (\<forall>code. ev_CloseCode e = Some code \<longrightarrow>
             unat code \<in> {1000..1003} \<union> {1007..1014} \<union> {3000..4999}) \<and>
          length (ev_Reason e) \<le> 123 \<and> utf8_valid (string_bytes (ev_Reason e))
      | EventSQLiteResult \<Rightarrow>
          (ev_Error e \<noteq> None \<longrightarrow> ev_Done e \<and> ev_Columns e = [] \<and> ev_SQLiteValues e = []) \<and>
          (\<forall>v \<in> set (ev_SQLiteValues e). sqlite_value_ok v)
      | EventUnknown _ \<Rightarrow> False
      | _ \<Rightarrow> ev_Kind e \<in> connection_kinds \<longrightarrow>
               (\<exists>c. ev_Connection e = Some c \<and> connection_ok c \<and> cn_ActorConnect c))"

definition event_contract :: "Event \<Rightarrow> bool" where
  "event_contract e \<longleftrightarrow>
     addressed e \<and> payload_ok e \<and> (\<forall>w. ev_Error e = Some w \<longrightarrow> we_Code w \<noteq> [] \<and> we_Message w \<noteq> [])"

lemma validateConnection_iff: "validateConnection c = Inr () \<longleftrightarrow> connection_ok c"
  by (auto simp: validateConnection_def connection_ok_def result_simps split_beta not_less
      simp flip: all_nth_set)

lemma schedules_each:
  "eachR validateSchedule 0 ss = Inr () \<longleftrightarrow>
   (\<forall>s \<in> set ss. se_ID s \<noteq> [] \<and> se_Action s \<noteq> [] \<and> blen (se_Args s) \<le> oneMiB)"
  unfolding eachR_eq_Inr all_nth_set [symmetric] validateSchedule_def bindR_eq_Inr checkR_eq_Inr by auto

lemma validateScheduleResult_iff:
  "validateScheduleResult e = Inr () \<longleftrightarrow> ev_OperationID e \<noteq> 0 \<and> schedule_reply_ok e"
proof (cases "ev_Error e")
  case None
  consider "ev_ScheduleOperation e = ''create''" | "ev_ScheduleOperation e = ''cancel''"
    | "ev_ScheduleOperation e = ''get''" | "ev_ScheduleOperation e = ''list''"
    | "ev_ScheduleOperation e \<notin> {''create'', ''cancel'', ''get'', ''list''}"
    by blast
  then show ?thesis
    by cases (simp_all add: validateScheduleResult_def schedule_reply_ok_def None schedules_each bindR_eq_Inr
      checkR_eq_Inr not_less, auto)
qed (simp add: validateScheduleResult_def schedule_reply_ok_def checkR_eq_Inr)

lemma validateQueueResult_iff:
  "validateQueueResult e = Inr () \<longleftrightarrow> ev_OperationID e \<noteq> 0 \<and> queue_reply_ok e"
proof (cases "ev_Error e")
  case None
  consider "ev_QueueOperation e = ''send''" | "ev_QueueOperation e = ''enqueue_wait''"
    | "ev_QueueOperation e = ''next''" | "ev_QueueOperation e = ''complete''" | "ev_QueueOperation e = ''retry''"
    | "ev_QueueOperation e \<notin> {''send'', ''enqueue_wait'', ''next'', ''complete'', ''retry''}"
    by blast
  then show ?thesis
    by cases (cases "ev_QueueMessage e"; auto simp: validateQueueResult_def queue_reply_ok_def queue_message_ok_def
      None bindR_eq_Inr checkR_eq_Inr not_less)+
qed (simp add: validateQueueResult_def queue_reply_ok_def checkR_eq_Inr)

lemma validateSQLiteValue_iff: "validateSQLiteValue v = Inr () \<longleftrightarrow> sqlite_value_ok v"
proof (cases v)
  case (fields k i b t d)
  consider "k = ''null''" | "k = ''integer''" | "k = ''real''" | "k = ''text''" | "k = ''blob''"
    | "k \<notin> {''null'', ''integer'', ''real'', ''text'', ''blob''}"
    by blast
  then show ?thesis
    by cases (cases i; cases b; cases t; cases d;
      simp add: fields validateSQLiteValue_def sqlite_value_ok_def checkR_def not_less)+
qed

lemma validWebSocketCloseCode_iff:
  "validWebSocketCloseCode code \<longleftrightarrow> unat code \<in> {1000..1003} \<union> {1007..1014} \<union> {3000..4999}"
  by (simp add: validWebSocketCloseCode_def word_le_nat_alt)

lemma path_absolute: "(p \<noteq> [] \<and> hd p \<noteq> c) \<longleftrightarrow> \<not> (\<forall>x r. p = x # r \<longrightarrow> x = c)"
  by (cases p) auto

lemma restored_each:
  "eachR validateRestored 0 cs = Inr () \<longleftrightarrow>
   (\<forall>c \<in> set cs. connection_ok c \<and> cn_ActorConnect c \<and> cn_Resumed c \<and> cn_CanHibernate c)"
  unfolding eachR_eq_Inr all_nth_set [symmetric] validateRestored_def bindR_eq_Inr checkR_eq_Inr mapErr_simps
  by (auto simp: validateConnection_iff)

lemma values_each:
  "eachR (\<lambda>index v. mapErr (ValueProblem index) (validateSQLiteValue v)) 0 vs = Inr () \<longleftrightarrow>
   (\<forall>v \<in> set vs. sqlite_value_ok v)"
  unfolding eachR_eq_Inr all_nth_set [symmetric] mapErr_simps by (simp add: validateSQLiteValue_iff)

lemmas kind_sets = actor_kinds_def operation_kinds_def connection_kinds_def request_kinds_def websocket_kinds_def

lemma validateKind_iff: "validateKind e = Inr () \<longleftrightarrow> addressed e \<and> payload_ok e"
proof (cases "ev_Kind e")
  case EventActorStart
  then show ?thesis
    unfolding validateKind_def addressed_def payload_ok_def kind_sets path_absolute
    by (auto simp: restored_each not_less)
next
  case EventWSClose
  then show ?thesis
    by (cases "ev_CloseCode e") (auto simp: validateKind_def addressed_def payload_ok_def kind_sets
      validWebSocketCloseCode_iff checkR_eq_Inr bindR_eq_Inr not_less)
next
  case EventSQLiteResult
  then show ?thesis
    unfolding validateKind_def addressed_def payload_ok_def kind_sets
    by (auto simp: values_each)
qed (auto simp: validateKind_def addressed_def payload_ok_def kind_sets checkR_eq_Inr bindR_eq_Inr not_less
  validateScheduleResult_iff validateQueueResult_iff validateConnection_iff split: option.splits)

lemma validateEvent_iff: "validateEvent e = Inr () \<longleftrightarrow> event_contract e"
  by (cases "ev_Error e") (auto simp: validateEvent_def event_contract_def bindR_eq_Inr checkR_eq_Inr
    validateKind_iff)

text \<open>C13: for every behaviour of the MessagePack library, a batch is handed to the pump exactly when
  the bytes are one MessagePack value within the limits, the library decodes them to that batch, and
  every event of it meets the contract of its kind: it names the actor, request, websocket or operation
  it is for, its values are inside their bounds, and an error comes complete and without a payload.\<close>

theorem DecodeEventBatch_contract:
  "DecodeEventBatch unmarshal data = Inr batch \<longleftrightarrow>
     mp_value 0 data \<and> unmarshal data = Inr batch \<and> list_all event_contract (eb_Events batch)"
proof -
  have "DecodeEventBatch unmarshal data = Inr batch \<longleftrightarrow>
      validateShape data = Inr () \<and> unmarshal data = Inr batch \<and>
      (\<forall>i < length (eb_Events batch). validateEvent (eb_Events batch ! i) = Inr ())"
    by (auto simp: DecodeEventBatch_def bindR_eq_Inr eachR_eq_Inr)
  then show ?thesis
    by (simp add: validateShape_iff validateEvent_iff list_all_length)
qed

end
