(* ===== verification/Bare_Codec.thy ===== *)
theory Bare_Codec
  imports Wire
begin

text \<open>
  \<^verbatim>\<open>internal/sqlitesocket/codec.go\<close>: the BARE encoding of the Actor Runtime Socket SQL
  protocol. An encoder is the byte list it has appended to, a decoder the record of its data and position;
  a method is a function that takes the state first and returns the new one. The abstract
  specification is the vendored schema (\<^verbatim>\<open>schema/v1.bare\<close>): a datatype per message with its
  canonical encoding, built from the primitive encodings below.

  The interface between the layers is the locale \<open>bare_reader\<close>: a decoder method that, on the
  encoding of a value followed by anything, returns the value and stops right behind it. Each
  primitive and each composite method is an instance, and what all of them share (repetition, unique
  decoding) is proved once in it.
\<close>

unbundle bit_operations_syntax

section \<open>Encoder\<close>

definition protocolVersion :: u16 where "protocolVersion = 1"
definition maxValueBytes :: nat where "maxValueBytes = 2 ^ 20"
definition maxSupportedFrame :: u32 where "maxSupportedFrame = 32 * 1024 * 1024"
definition defaultMaxFrame :: u32 where "defaultMaxFrame = 32 * 1024 * 1024"
definition maxParameters :: nat where "maxParameters = 1024"
definition maxColumns :: nat where "maxColumns = 1024"

datatype requestKind =
    requestExec
  | requestQuery
  | requestBegin
  | requestCommit
  | requestRollback
  | requestOther byte

fun requestKindNumber :: "requestKind \<Rightarrow> u64" where
  "requestKindNumber requestExec = 0"
| "requestKindNumber requestQuery = 1"
| "requestKindNumber requestBegin = 2"
| "requestKindNumber requestCommit = 3"
| "requestKindNumber requestRollback = 4"
| "requestKindNumber (requestOther k) = ucast k"

record request =
  rq_id :: u32
  rq_kind :: requestKind
  rq_sql :: string
  rq_args :: "SQLiteValue list"
  rq_leaseKey :: "string option"
  rq_timeoutMS :: "u64 option"

record response =
  rs_id :: u32
  rs_columns :: "string list"
  rs_values :: "SQLiteValue list"
  rs_changes :: i64
  rs_lastInsertID :: "i64 option"
  rs_err :: "WireError option"

datatype bare_error =
    NoPayload string
  | MissingOrTooLarge string
  | UnknownArgumentKind string
  | ZeroRequestID
  | TooManyArguments
  | NoLeaseKey requestKind
  | UnknownRequestKind
  | NeedsBytes nat nat
  | UintOverflow
  | UintTooLong
  | InvalidBool byte
  | LengthExceeds u64 nat
  | StringNotUTF8
  | UnknownValueTag u64
  | RejectedVersion
  | UnknownHelloTag u64
  | HelloRemaining
  | FrameTooSmall u32
  | GoAway u64
  | UnknownFrameTag u64
  | UnknownPayloadTag u64
  | FrameRemaining
  | RowArity nat nat
  | NoVersion
  | UnsupportedVersion u16

function e_uint :: "bytes \<Rightarrow> u64 \<Rightarrow> bytes" where
  "e_uint data v =
     (if v \<ge> 0x80 then e_uint (data @ [ucast v OR 0x80]) (drop_bit 7 v) else data @ [ucast v])"
  by pat_completeness auto
termination
  by (relation "measure (\<lambda>(_, v). unat v)")
    (simp_all add: word_le_nat_alt drop_bit_eq_div unat_div del: drop_bit_numeral_bit1)

declare e_uint.simps [simp del]

definition e_u32 :: "bytes \<Rightarrow> u32 \<Rightarrow> bytes" where
  "e_u32 data v = data @ le_bytes 4 (unat v)"

definition e_u64 :: "bytes \<Rightarrow> u64 \<Rightarrow> bytes" where
  "e_u64 data v = data @ le_bytes 8 (unat v)"

definition e_string :: "bytes \<Rightarrow> string \<Rightarrow> bytes" where
  "e_string data v = e_uint data (word_of_nat (length v)) @ string_bytes v"

definition e_optionalString :: "bytes \<Rightarrow> string option \<Rightarrow> bytes" where
  "e_optionalString data v = (case v of None \<Rightarrow> data @ [0] | Some s \<Rightarrow> e_string (data @ [1]) s)"

definition e_sqlValue :: "bytes \<Rightarrow> SQLiteValue \<Rightarrow> bare_error + bytes" where
  "e_sqlValue data v =
     (if sv_Kind v = ''null'' then Inr (e_uint data 0)
      else if sv_Kind v = ''integer'' then
        (case sv_Integer v of None \<Rightarrow> Inl (NoPayload ''integer'') | Some i \<Rightarrow> Inr (e_u64 (e_uint data 1) i))
      else if sv_Kind v = ''real'' then
        (case sv_Bits v of None \<Rightarrow> Inl (NoPayload ''real'') | Some b \<Rightarrow> Inr (e_u64 (e_uint data 2) b))
      else if sv_Kind v = ''text'' then
        (case sv_Text v of None \<Rightarrow> Inl (MissingOrTooLarge ''text'')
         | Some t \<Rightarrow> if length t > maxValueBytes then Inl (MissingOrTooLarge ''text'')
                     else Inr (e_string (e_uint data 3) t))
      else if sv_Kind v = ''blob'' then
        (case sv_Blob v of None \<Rightarrow> Inl (MissingOrTooLarge ''blob'')
         | Some d \<Rightarrow> if length d > maxValueBytes then Inl (MissingOrTooLarge ''blob'')
                     else Inr (e_uint (e_uint data 4) (word_of_nat (length d)) @ d))
      else Inl (UnknownArgumentKind (sv_Kind v)))"

fun e_sqlValues :: "bytes \<Rightarrow> SQLiteValue list \<Rightarrow> bare_error + bytes" where
  "e_sqlValues data [] = Inr data"
| "e_sqlValues data (a # as) = bindR (e_sqlValue data a) (\<lambda>data. e_sqlValues data as)"

definition encodeHello :: bytes where
  "encodeHello = [ucast protocolVersion, ucast (drop_bit 8 protocolVersion)]"

definition encodeRequest :: "request \<Rightarrow> bare_error + bytes" where
  "encodeRequest r =
     bindR (checkR (rq_id r = 0) ZeroRequestID) (\<lambda>_.
     bindR (checkR (length (rq_args r) > maxParameters) TooManyArguments) (\<lambda>_.
     let data = [ucast protocolVersion, ucast (drop_bit 8 protocolVersion)];
         data = e_uint data 0;
         data = e_u32 data (rq_id r);
         data = (if rq_kind r = requestBegin \<or> rq_kind r = requestCommit \<or> rq_kind r = requestRollback
                 then e_optionalString data None else e_optionalString data (rq_leaseKey r));
         data = e_uint data (requestKindNumber (rq_kind r))
     in case rq_kind r of
          requestExec \<Rightarrow> Inr (e_string data (rq_sql r))
        | requestQuery \<Rightarrow>
            e_sqlValues (e_uint (e_string data (rq_sql r)) (word_of_nat (length (rq_args r)))) (rq_args r)
        | requestBegin \<Rightarrow>
            (case rq_leaseKey r of None \<Rightarrow> Inl (NoLeaseKey requestBegin)
             | Some k \<Rightarrow> (case rq_timeoutMS r of
                 None \<Rightarrow> Inr (e_string data k @ [0])
               | Some t \<Rightarrow> Inr (e_u64 (e_string data k @ [1]) t)))
        | requestOther _ \<Rightarrow> Inl UnknownRequestKind
        | k \<Rightarrow>
            (case rq_leaseKey r of None \<Rightarrow> Inl (NoLeaseKey k) | Some s \<Rightarrow> Inr (e_string data s))))"


section \<open>Decoder\<close>

record decoder =
  dec_data :: bytes
  dec_pos :: nat

definition d_remaining :: "decoder \<Rightarrow> nat" where
  "d_remaining d = length (dec_data d) - dec_pos d"

definition d_take :: "decoder \<Rightarrow> nat \<Rightarrow> bare_error + (bytes \<times> decoder)" where
  "d_take d count =
     (if count > d_remaining d then Inl (NeedsBytes count (d_remaining d))
      else Inr (take count (drop (dec_pos d) (dec_data d)), d\<lparr>dec_pos := dec_pos d + count\<rparr>))"

function d_uint_loop :: "decoder \<Rightarrow> nat \<Rightarrow> u64 \<Rightarrow> bare_error + (u64 \<times> decoder)" where
  "d_uint_loop d shift v =
     (if shift < 70 then
        bindR (d_take d 1) (\<lambda>(data, d).
        let part = data ! 0 in
        if shift = 63 \<and> part > 1 then Inl UintOverflow
        else let v = v OR push_bit shift (ucast (part AND 0x7f)) in
          if part < 0x80 then Inr (v, d) else d_uint_loop d (shift + 7) v)
      else Inl UintTooLong)"
  by pat_completeness auto
termination
  by (relation "measure (\<lambda>(_, shift, _). 70 - shift)") auto

declare d_uint_loop.simps [simp del]

definition d_uint :: "decoder \<Rightarrow> bare_error + (u64 \<times> decoder)" where
  "d_uint d = d_uint_loop d 0 0"

definition d_u32 :: "decoder \<Rightarrow> bare_error + (u32 \<times> decoder)" where
  "d_u32 d = bindR (d_take d 4) (\<lambda>(data, d). Inr (word_of_nat (nat_le data), d))"

definition d_u64 :: "decoder \<Rightarrow> bare_error + (u64 \<times> decoder)" where
  "d_u64 d = bindR (d_take d 8) (\<lambda>(data, d). Inr (word_of_nat (nat_le data), d))"

definition d_i32 :: "decoder \<Rightarrow> bare_error + (i32 \<times> decoder)" where
  "d_i32 d = bindR (d_take d 4) (\<lambda>(data, d). Inr (word_of_nat (nat_le data), d))"

definition d_i64 :: "decoder \<Rightarrow> bare_error + (i64 \<times> decoder)" where
  "d_i64 d = d_u64 d"

definition d_boolean :: "decoder \<Rightarrow> bare_error + (bool \<times> decoder)" where
  "d_boolean d = bindR (d_take d 1) (\<lambda>(data, d).
     if data ! 0 > 1 then Inl (InvalidBool (data ! 0)) else Inr (data ! 0 = 1, d))"

definition d_length :: "decoder \<Rightarrow> nat \<Rightarrow> bare_error + (nat \<times> decoder)" where
  "d_length d maximum = bindR (d_uint d) (\<lambda>(n, d).
     if unat n > maximum \<or> unat n > d_remaining d then Inl (LengthExceeds n (d_remaining d))
     else Inr (unat n, d))"

definition d_string :: "decoder \<Rightarrow> bare_error + (string \<times> decoder)" where
  "d_string d =
     bindR (d_length d maxValueBytes) (\<lambda>(n, d).
     bindR (d_take d n) (\<lambda>(data, d).
     if \<not> utf8_valid data then Inl StringNotUTF8 else Inr (bytes_string data, d)))"

definition sqlNull :: SQLiteValue where
  "sqlNull = \<lparr>sv_Kind = ''null'', sv_Integer = None, sv_Bits = None, sv_Text = None, sv_Blob = None\<rparr>"

definition d_sqlValue :: "decoder \<Rightarrow> bare_error + (SQLiteValue \<times> decoder)" where
  "d_sqlValue d =
     bindR (d_uint d) (\<lambda>(tag, d).
     if tag = 0 then Inr (sqlNull, d)
     else if tag = 1 then bindR (d_i64 d) (\<lambda>(i, d). Inr (sqlNull\<lparr>sv_Kind := ''integer'', sv_Integer := Some i\<rparr>, d))
     else if tag = 2 then bindR (d_u64 d) (\<lambda>(b, d). Inr (sqlNull\<lparr>sv_Kind := ''real'', sv_Bits := Some b\<rparr>, d))
     else if tag = 3 then bindR (d_string d) (\<lambda>(t, d). Inr (sqlNull\<lparr>sv_Kind := ''text'', sv_Text := Some t\<rparr>, d))
     else if tag = 4 then
       bindR (d_length d maxValueBytes) (\<lambda>(n, d).
       bindR (d_take d n) (\<lambda>(data, d). Inr (sqlNull\<lparr>sv_Kind := ''blob'', sv_Blob := Some data\<rparr>, d)))
     else Inl (UnknownValueTag tag))"

definition versionedDecoder :: "bytes \<Rightarrow> bare_error + decoder" where
  "versionedDecoder payload =
     (if length payload < 2 then Inl NoVersion
      else let version = word_of_nat (nat_le (take 2 payload)) in
        if version \<noteq> protocolVersion then Inl (UnsupportedVersion version)
        else Inr \<lparr>dec_data = drop 2 payload, dec_pos = 0\<rparr>)"

definition decodeHello :: "bytes \<Rightarrow> bare_error + u32" where
  "decodeHello payload =
     bindR (versionedDecoder payload) (\<lambda>d.
     bindR (d_uint d) (\<lambda>(tag, d).
     if tag = 1 then Inl RejectedVersion
     else if tag \<noteq> 0 then Inl (UnknownHelloTag tag)
     else bindR (d_u32 d) (\<lambda>(maxFrame, d).
       if d_remaining d \<noteq> 0 then Inl HelloRemaining
       else if maxFrame < 1024 then Inl (FrameTooSmall maxFrame)
       else Inr (if maxFrame > maxSupportedFrame then maxSupportedFrame else maxFrame))))"

text \<open>\<open>d_many\<close> is the loop that fills a slice with a fixed number of decoded elements.\<close>

fun d_many :: "(decoder \<Rightarrow> bare_error + ('a \<times> decoder)) \<Rightarrow> decoder \<Rightarrow> nat \<Rightarrow> bare_error + ('a list \<times> decoder)" where
  "d_many f d 0 = Inr ([], d)"
| "d_many f d (Suc n) = bindR (f d) (\<lambda>(x, d). bindR (d_many f d n) (\<lambda>(xs, d). Inr (x # xs, d)))"

definition d_row :: "nat \<Rightarrow> decoder \<Rightarrow> bare_error + (SQLiteValue list \<times> decoder)" where
  "d_row columnCount d =
     bindR (d_length d maxColumns) (\<lambda>(valueCount, d).
     if valueCount \<noteq> columnCount then Inl (RowArity valueCount columnCount)
     else d_many d_sqlValue d valueCount)"

definition decodeQueryResult :: "decoder \<Rightarrow> response \<Rightarrow> bare_error + (response \<times> decoder)" where
  "decodeQueryResult d result =
     bindR (d_length d maxColumns) (\<lambda>(columnCount, d).
     bindR (d_many d_string d columnCount) (\<lambda>(columns, d).
     bindR (d_length d (d_remaining d)) (\<lambda>(rowCount, d).
     bindR (d_many (d_row columnCount) d rowCount) (\<lambda>(rows, d).
     bindR (d_i64 d) (\<lambda>(changes, d).
     bindR (d_boolean d) (\<lambda>(present, d).
     bindR (if present then bindR (d_i64 d) (\<lambda>(v, d). Inr (Some v, d)) else Inr (None, d)) (\<lambda>(lastID, d).
     Inr (result\<lparr>rs_columns := columns, rs_values := concat rows, rs_changes := changes,
                 rs_lastInsertID := lastID\<rparr>, d))))))))"

definition sqliteErr :: "string \<Rightarrow> string \<Rightarrow> WireError" where
  "sqliteErr code message = \<lparr>we_Code = code, we_Message = message, we_SQLiteCode = None, we_StatementIndex = None\<rparr>"

definition queueFullMessage :: "string \<Rightarrow> u32 \<Rightarrow> string" where
  "queueFullMessage limit capacity = limit @ '' queue is full (capacity '' @ decimal (unat capacity) @ '')''"

definition expiredMessage :: "string \<Rightarrow> u64 \<Rightarrow> string" where
  "expiredMessage message timeout = message @ '' (timeout '' @ decimal (unat timeout) @ '' ms)''"

definition decodePayload :: "u64 \<Rightarrow> decoder \<Rightarrow> response \<Rightarrow> bare_error + (response \<times> decoder)" where
  "decodePayload payloadTag d result =
     (if payloadTag = 0 \<or> payloadTag = 2 \<or> payloadTag = 3 \<or> payloadTag = 4 then Inr (result, d)
      else if payloadTag = 1 then decodeQueryResult d result
      else if payloadTag = 5 then
        bindR (d_i32 d) (\<lambda>(code, d).
        bindR (d_u32 d) (\<lambda>(statement, d).
        bindR (d_string d) (\<lambda>(message, d).
        Inr (result\<lparr>rs_err := Some \<lparr>we_Code = ''sqlite_error'', we_Message = message,
               we_SQLiteCode = Some code, we_StatementIndex = Some statement\<rparr>\<rparr>, d))))
      else if payloadTag = 6 then
        Inr (result\<lparr>rs_err := Some (sqliteErr ''sqlite_endpoint_closed'' ''Actor Runtime Socket endpoint is closed'')\<rparr>, d)
      else if payloadTag = 7 then
        bindR (d_string d) (\<lambda>(limit, d).
        bindR (d_u32 d) (\<lambda>(capacity, d).
        Inr (result\<lparr>rs_err := Some (sqliteErr ''sqlite_queue_full'' (queueFullMessage limit capacity))\<rparr>, d)))
      else if payloadTag = 8 then
        bindR (d_string d) (\<lambda>(message, d).
        Inr (result\<lparr>rs_err := Some (sqliteErr ''invalid_lease_key'' message)\<rparr>, d))
      else if payloadTag = 9 then
        bindR (d_u64 d) (\<lambda>(timeout, d).
        bindR (d_string d) (\<lambda>(message, d).
        Inr (result\<lparr>rs_err := Some (sqliteErr ''transaction_expired'' (expiredMessage message timeout))\<rparr>, d)))
      else if payloadTag = 10 then
        Inr (result\<lparr>rs_err := Some (sqliteErr ''sqlite_result_too_large''
               ''SQLite result exceeds Actor Runtime Socket maxFrameBytes'')\<rparr>, d)
      else Inl (UnknownPayloadTag payloadTag))"

definition emptyResponse :: "u32 \<Rightarrow> response" where
  "emptyResponse i = \<lparr>rs_id = i, rs_columns = [], rs_values = [], rs_changes = 0, rs_lastInsertID = None, rs_err = None\<rparr>"

definition decodeResponse :: "bytes \<Rightarrow> bare_error + response" where
  "decodeResponse payload =
     bindR (versionedDecoder payload) (\<lambda>d.
     bindR (d_uint d) (\<lambda>(frameTag, d).
     if frameTag = 1 then bindR (d_uint d) (\<lambda>(reason, d). Inl (GoAway reason))
     else if frameTag \<noteq> 0 then Inl (UnknownFrameTag frameTag)
     else
       bindR (d_u32 d) (\<lambda>(i, d).
       bindR (d_uint d) (\<lambda>(payloadTag, d).
       bindR (decodePayload payloadTag d (emptyResponse i)) (\<lambda>(result, d).
       if d_remaining d \<noteq> 0 then Inl FrameRemaining else Inr result)))))"


section \<open>Primitive encodings\<close>

text \<open>The BARE variable-length unsigned integer: seven bits per byte, least significant first.\<close>

fun uint_bytes :: "nat \<Rightarrow> bytes" where
  "uint_bytes n = (if n < 128 then [word_of_nat n] else word_of_nat (n mod 128 + 128) # uint_bytes (n div 128))"

declare uint_bytes.simps [simp del]

definition rest :: "decoder \<Rightarrow> bytes" where
  "rest d = drop (dec_pos d) (dec_data d)"

definition skip :: "decoder \<Rightarrow> nat \<Rightarrow> decoder" where
  "skip d n = d\<lparr>dec_pos := dec_pos d + n\<rparr>"

lemma d_remaining_rest: "d_remaining d = length (rest d)"
  by (simp add: d_remaining_def rest_def)

lemma rest_skip: "rest (skip d n) = drop n (rest d)"
  by (simp add: rest_def skip_def add.commute)

lemma skip_skip: "skip (skip d m) n = skip d (m + n)"
  by (simp add: skip_def add.assoc)

lemma d_take_rest:
  "d_take d n = (if n > length (rest d) then Inl (NeedsBytes n (length (rest d))) else Inr (take n (rest d), skip d n))"
  by (simp add: d_take_def d_remaining_rest rest_def [symmetric] skip_def)

lemma nat_or_shift:
  fixes a b :: nat
  assumes "a < 2 ^ k"
  shows "a OR push_bit k b = a + 2 ^ k * b"
proof -
  have "take_bit k a = a" using assms by (simp add: take_bit_nat_eq_self)
  then have "bit a n \<Longrightarrow> n < k" for n by (metis bit_take_bit_iff)
  then have "\<not> bit a n \<or> \<not> bit (push_bit k b) n" for n
    by (meson bit_push_bit_iff linorder_not_less)
  then have "a + push_bit k b = a OR push_bit k b" by (rule disjunctive_add)
  then show ?thesis by (simp add: push_bit_eq_mult mult.commute)
qed

lemma ucast_or_0x80: "(ucast (v :: u64) :: byte) OR 0x80 = word_of_nat (unat v mod 128 + 128)"
proof -
  have b7: "bit (0x80 :: byte) n \<longleftrightarrow> n = 7" for n
    using bit_exp_iff [of 7 n, where 'a = byte] by auto
  have "unat v mod 128 + 128 = take_bit 7 (unat v) OR 128"
    using nat_or_shift [of "take_bit 7 (unat v)" 7 1] by (simp add: take_bit_eq_mod)
  then have "(word_of_nat (unat v mod 128 + 128) :: byte) = word_of_nat (take_bit 7 (unat v)) OR 0x80"
    by (simp add: of_nat_or_eq)
  also have "\<dots> = ucast v OR 0x80"
  proof (rule bit_eqI)
    fix n assume "possible_bit TYPE(byte) n"
    then show "bit (word_of_nat (take_bit 7 (unat v)) OR (0x80 :: byte)) n = bit (ucast v OR (0x80 :: byte)) n"
      using b7 [of n] by (auto simp: bit_simps)
  qed
  finally show ?thesis by simp
qed

lemma unat_drop_7: "unat (drop_bit 7 (v :: u64)) = unat v div 128"
  by (simp add: drop_bit_eq_div unat_div)

lemma unat_and_0x7f: "unat ((p :: byte) AND 0x7f) = unat p mod 128"
proof -
  have "p AND 0x7f = take_bit 7 p" by (simp add: take_bit_eq_mask mask_eq_exp_minus_1)
  then show ?thesis by (simp only: unsigned_take_bit_eq) (simp add: take_bit_eq_mod)
qed

lemma unat_or_push:
  fixes x :: u64
  assumes "unat x < 2 ^ k" "unat x + 2 ^ k * unat p < 2 ^ 64" 
  shows "unat (x OR push_bit k (ucast (p :: byte))) = unat x + 2 ^ k * unat p"
proof -
  have "take_bit 64 (unat p) = unat p"
    using unat_byte_less [of p] by (simp add: take_bit_nat_eq_self del: unat_byte_less)
  then have "unat (x OR push_bit k (ucast p)) = unat x OR take_bit 64 (push_bit k (unat p))"
    by (simp add: unsigned_or_eq unsigned_push_bit_eq unsigned_ucast_eq)
  also have "take_bit 64 (push_bit k (unat p)) = push_bit k (unat p)"
    using assms by (simp add: take_bit_nat_eq_self push_bit_eq_mult mult.commute)
  also have "unat x OR push_bit k (unat p) = unat x + 2 ^ k * unat p"
    using assms(1) by (rule nat_or_shift)
  finally show ?thesis .
qed

lemma length_uint_bytes: "1 \<le> length (uint_bytes n)"
  by (simp add: uint_bytes.simps [of n])

lemma e_uint_bytes: "e_uint data v = data @ uint_bytes (unat v)"
proof (induction data v rule: e_uint.induct)
  case (1 data v)
  show ?case
  proof (cases "v \<ge> 0x80")
    case True
    then have "\<not> unat v < 128" by (simp add: word_le_nat_alt)
    with 1 True show ?thesis
      by (simp add: e_uint.simps [of data v] uint_bytes.simps [of "unat v"] ucast_or_0x80 unat_drop_7
        del: drop_bit_numeral_bit1)
  next
    case False
    then have "unat v < 128" by (simp add: word_le_nat_alt)
    then have "ucast v = (word_of_nat (unat v) :: byte)" by simp
    with False \<open>unat v < 128\<close> show ?thesis
      by (simp add: e_uint.simps [of data v] uint_bytes.simps [of "unat v"])
  qed
qed

lemma d_uint_loop_bytes:
  assumes "rest d = uint_bytes n @ post" "shift \<le> 63" "unat v < 2 ^ shift" "unat v + 2 ^ shift * n < 2 ^ 64"
  shows "d_uint_loop d shift v = Inr (word_of_nat (unat v + 2 ^ shift * n), skip d (length (uint_bytes n)))"
  using assms
proof (induction n arbitrary: d shift v rule: uint_bytes.induct)
  case (1 n)
  show ?case
  proof (cases "n < 128")
    case True
    let ?p = "word_of_nat n :: byte"
    have p: "unat ?p = n" using True by (simp add: unat_byte_of_nat)
    have "?p < 0x80" using True p by (simp add: word_less_nat_alt)
    have "\<not> (shift = 63 \<and> ?p > 1)"
      using "1.prems"(4) p by (auto simp: word_less_nat_alt)
    have "unat (?p AND 0x7f) = n" using p True by (simp add: unat_and_0x7f)
    then have w: "unat (v OR push_bit shift (ucast (?p AND 0x7f))) = unat v + 2 ^ shift * n"
      using "1.prems" unat_or_push [of v shift "?p AND 0x7f"] by simp
    have "v OR push_bit shift (ucast (?p AND 0x7f)) = word_of_nat (unat v + 2 ^ shift * n)"
      unfolding w [symmetric] by simp
    with True show ?thesis
      using "1.prems" \<open>?p < 0x80\<close> \<open>\<not> (shift = 63 \<and> ?p > 1)\<close>
      by (simp add: d_uint_loop.simps [of d] d_take_rest uint_bytes.simps [of n] Let_def)
  next
    case False
    let ?p = "word_of_nat (n mod 128 + 128) :: byte"
    let ?w = "v OR push_bit shift (ucast (?p AND 0x7f))"
    have p: "unat ?p = n mod 128 + 128" by (rule unat_byte_of_nat) simp
    have "\<not> ?p < 0x80" using p by (simp add: word_less_nat_alt)
    have m: "unat (?p AND 0x7f) = n mod 128" using p by (simp add: unat_and_0x7f)
    have "2 ^ shift * 128 \<le> 2 ^ shift * n" using False by simp
    then have "2 ^ shift * 128 < (2 :: nat) ^ 64" using "1.prems"(4) by linarith
    then have "(2 :: nat) ^ (shift + 7) < 2 ^ 64" by (simp only: power_add) simp
    then have shift: "shift + 7 < 64" by (rule power_less_imp_less_exp [rotated]) simp
    have le: "2 ^ shift * (n mod 128) \<le> 2 ^ shift * n" by simp
    have "unat v + 2 ^ shift * unat (?p AND 0x7f) < 2 ^ 64"
      using "1.prems"(4) le unfolding m by linarith
    with "1.prems"(3) have "unat ?w = unat v + 2 ^ shift * unat (?p AND 0x7f)"
      by (rule unat_or_push)
    then have w: "unat ?w = unat v + 2 ^ shift * (n mod 128)"
      by (simp only: m)
    have sum: "unat ?w + 2 ^ (shift + 7) * (n div 128) = unat v + 2 ^ shift * n"
    proof -
      have "2 ^ shift * n = 2 ^ shift * (n mod 128 + 128 * (n div 128))" by simp
      then show ?thesis unfolding w by (simp only: power_add distrib_left) simp
    qed
    have small: "unat ?w < 2 ^ (shift + 7)"
    proof -
      have "2 ^ shift * (n mod 128 + 1) \<le> 2 ^ shift * (128 :: nat)"
        by (intro mult_left_mono) auto
      then have "unat v + 2 ^ shift * (n mod 128) < 2 ^ shift * 128"
        using "1.prems"(3) unfolding distrib_left by linarith
      then show ?thesis unfolding w by (simp add: power_add)
    qed
    have r: "rest (skip d 1) = uint_bytes (n div 128) @ post"
      using "1.prems"(1) False by (simp add: uint_bytes.simps [of n] rest_skip)
    have "d_uint_loop (skip d 1) (shift + 7) ?w
        = Inr (word_of_nat (unat v + 2 ^ shift * n), skip (skip d 1) (length (uint_bytes (n div 128))))"
      using "1.IH" [OF False r _ small] shift "1.prems"(4) unfolding sum by simp
    with False show ?thesis
      using "1.prems" shift \<open>\<not> ?p < 0x80\<close>
      by (simp add: d_uint_loop.simps [of d] d_take_rest uint_bytes.simps [of n] Let_def skip_skip)
  qed
qed

text \<open>
  \<open>yields r x post\<close>: the decoding step \<open>r\<close> has produced \<open>x\<close> and \<open>post\<close> is left to read.
\<close>

definition yields :: "bare_error + ('a \<times> decoder) \<Rightarrow> 'a \<Rightarrow> bytes \<Rightarrow> bool" where
  "yields r x post \<longleftrightarrow> (\<exists>d. r = Inr (x, d) \<and> rest d = post)"

lemma yields_return: "rest d = post \<Longrightarrow> yields (Inr (x, d)) x post"
  by (simp add: yields_def)

lemma yields_bind:
  "yields r x q \<Longrightarrow> (\<And>d. rest d = q \<Longrightarrow> yields (f (x, d)) y post) \<Longrightarrow> yields (bindR r f) y post"
  by (auto simp: yields_def)

lemma bindR_assoc: "bindR r (\<lambda>(n, d). bindR (f n d) g) = bindR (bindR r (\<lambda>(n, d). f n d)) g"
  by (cases r) auto

lemma yields_take: "rest d = xs @ post \<Longrightarrow> length xs = n \<Longrightarrow> yields (d_take d n) xs post"
  by (simp add: yields_def d_take_rest rest_skip)

lemma yields_uint: "rest d = uint_bytes n @ post \<Longrightarrow> n < 2 ^ 64 \<Longrightarrow> yields (d_uint d) (word_of_nat n) post"
  using d_uint_loop_bytes [of d n post 0 0] by (simp add: d_uint_def yields_def rest_skip)

lemma yields_length:
  "rest d = uint_bytes n @ post \<Longrightarrow> n < 2 ^ 64 \<Longrightarrow> n \<le> maximum \<Longrightarrow> n \<le> length post \<Longrightarrow>
   yields (d_length d maximum) n post"
  unfolding d_length_def
  by (rule yields_bind [OF yields_uint]) (auto simp: d_remaining_rest unat_of_nat yields_def)


section \<open>Readers\<close>

text \<open>
  \<open>prefix_code\<close>: encodings that can be followed by anything and still be told apart.
  \<open>bare_reader\<close>: a decoder method \<open>dec\<close> for the encoding \<open>enc\<close> of the values that satisfy
  \<open>ok\<close>; \<open>rep\<close> is the Go value that stands for a schema value.
\<close>

locale prefix_code =
  fixes enc :: "'a \<Rightarrow> bytes" and ok :: "'a \<Rightarrow> bool" and rep :: "'a \<Rightarrow> 'b"
  assumes unique: "ok a \<Longrightarrow> ok b \<Longrightarrow> enc a @ x = enc b @ y \<Longrightarrow> rep a = rep b \<and> x = y"
begin

lemma unique_list:
  "list_all ok as \<Longrightarrow> list_all ok bs \<Longrightarrow> length as = length bs \<Longrightarrow>
   concat (map enc as) @ x = concat (map enc bs) @ y \<Longrightarrow> map rep as = map rep bs \<and> x = y"
proof (induction as arbitrary: bs)
  case Nil
  then show ?case by simp
next
  case (Cons a as)
  then obtain b bs' where bs: "bs = b # bs'" by (cases bs) auto
  with Cons.prems have "rep a = rep b \<and> concat (map enc as) @ x = concat (map enc bs') @ y"
    by (intro unique) auto
  with Cons bs show ?case by auto
qed

end

locale bare_reader =
  fixes enc :: "'a \<Rightarrow> bytes" and ok :: "'a \<Rightarrow> bool" and rep :: "'a \<Rightarrow> 'b"
    and dec :: "decoder \<Rightarrow> bare_error + ('b \<times> decoder)"
  assumes decodes: "ok a \<Longrightarrow> rest d = enc a @ post \<Longrightarrow> yields (dec d) (rep a) post"
begin

lemma decodes_many:
  "list_all ok as \<Longrightarrow> rest d = concat (map enc as) @ post \<Longrightarrow> yields (d_many dec d (length as)) (map rep as) post"
proof (induction as arbitrary: d)
  case Nil
  then show ?case by (simp add: yields_return)
next
  case (Cons a as)
  have "yields (dec d) (rep a) (concat (map enc as) @ post)"
    using Cons.prems by (intro decodes) auto
  then show ?case
    using Cons by (auto intro!: yields_bind [where r = "dec d"] yields_bind [OF Cons.IH] yields_return)
qed

lemma decodes_last: "ok a \<Longrightarrow> rest d = enc a \<Longrightarrow> yields (dec d) (rep a) []"
  using decodes [of a d "[]"] by simp

end

sublocale bare_reader \<subseteq> prefix_code enc ok rep
proof
  fix a b x y assume ab: "ok a" "ok b" "enc a @ x = enc b @ y"
  let ?d = "\<lparr>dec_data = enc a @ x, dec_pos = 0\<rparr>"
  have "yields (dec ?d) (rep a) x" "yields (dec ?d) (rep b) y"
    using ab decodes [of a ?d x] decodes [of b ?d y] by (simp_all add: rest_def)
  then show "rep a = rep b \<and> x = y" by (auto simp: yields_def)
qed

text \<open>The primitives are readers.\<close>

lemma unat_u32_less: "unat (v :: u32) < 4294967296"
  using unsigned_less [of v] by simp

lemma unat_u64_less: "unat (v :: u64) < 18446744073709551616"
  using unsigned_less [of v] by simp

interpretation uint: bare_reader "\<lambda>v. uint_bytes (unat v)" "\<lambda>_. True" "\<lambda>v. v" d_uint
proof
  fix v :: u64 and d :: decoder and post
  assume "rest d = uint_bytes (unat v) @ post"
  then show "yields (d_uint d) v post"
    using yields_uint [of d "unat v" post] unat_u64_less by simp
qed

interpretation u32: bare_reader "\<lambda>v. le_bytes 4 (unat v)" "\<lambda>_. True" "\<lambda>v. v" d_u32
  by unfold_locales (simp add: d_u32_def yields_def d_take_rest rest_skip nat_le_le_bytes unat_u32_less)

interpretation i32: bare_reader "\<lambda>v. le_bytes 4 (unat v)" "\<lambda>_. True" "\<lambda>v. v" d_i32
  using u32.decodes by unfold_locales (simp add: d_i32_def d_u32_def)

interpretation u64: bare_reader "\<lambda>v. le_bytes 8 (unat v)" "\<lambda>_. True" "\<lambda>v. v" d_u64
  by unfold_locales (simp add: d_u64_def yields_def d_take_rest rest_skip nat_le_le_bytes unat_u64_less)

interpretation i64: bare_reader "\<lambda>v. le_bytes 8 (unat v)" "\<lambda>_. True" "\<lambda>v. v" d_i64
  using u64.decodes by unfold_locales (simp add: d_i64_def)

interpretation boolean: bare_reader "\<lambda>b. [if b then 1 else 0]" "\<lambda>_. True" "\<lambda>b. b" d_boolean
  by unfold_locales (auto simp: d_boolean_def yields_def d_take_rest rest_skip)

definition bare_str :: "string \<Rightarrow> bytes" where
  "bare_str s = uint_bytes (length s) @ string_bytes s"

definition str_ok :: "string \<Rightarrow> bool" where
  "str_ok s \<longleftrightarrow> length s \<le> maxValueBytes \<and> utf8_valid (string_bytes s)"

definition bare_data :: "bytes \<Rightarrow> bytes" where
  "bare_data b = uint_bytes (length b) @ b"

lemma maxValueBytes_fits: "n \<le> maxValueBytes \<Longrightarrow> n < 2 ^ 64"
  by (simp add: maxValueBytes_def)

interpretation str: bare_reader bare_str str_ok "\<lambda>s. s" d_string
proof
  fix s d post assume s: "str_ok s" and r: "rest d = bare_str s @ post"
  then have "yields (d_length d maxValueBytes) (length s) (string_bytes s @ post)"
    using maxValueBytes_fits by (intro yields_length) (auto simp: str_ok_def bare_str_def)
  then show "yields (d_string d) s post"
    unfolding d_string_def using s
    by (auto intro!: yields_bind [where x = "length s"] yields_bind [OF yields_take] yields_return simp: str_ok_def)
qed


section \<open>The schema\<close>

text \<open>The messages of \<^verbatim>\<open>schema/v1.bare\<close> and their canonical encodings.\<close>

datatype sql_value = SqlNull | SqlInteger i64 | SqlReal u64 | SqlText string | SqlBlob bytes

fun bare_value :: "sql_value \<Rightarrow> bytes" where
  "bare_value SqlNull = uint_bytes 0"
| "bare_value (SqlInteger i) = uint_bytes 1 @ le_bytes 8 (unat i)"
| "bare_value (SqlReal b) = uint_bytes 2 @ le_bytes 8 (unat b)"
| "bare_value (SqlText t) = uint_bytes 3 @ bare_str t"
| "bare_value (SqlBlob d) = uint_bytes 4 @ bare_data d"

text \<open>The \<open>wire.SQLiteValue\<close> of a value of the schema.\<close>

fun go_value :: "sql_value \<Rightarrow> SQLiteValue" where
  "go_value SqlNull = sqlNull"
| "go_value (SqlInteger i) = sqlNull\<lparr>sv_Kind := ''integer'', sv_Integer := Some i\<rparr>"
| "go_value (SqlReal b) = sqlNull\<lparr>sv_Kind := ''real'', sv_Bits := Some b\<rparr>"
| "go_value (SqlText t) = sqlNull\<lparr>sv_Kind := ''text'', sv_Text := Some t\<rparr>"
| "go_value (SqlBlob d) = sqlNull\<lparr>sv_Kind := ''blob'', sv_Blob := Some d\<rparr>"

fun value_ok :: "sql_value \<Rightarrow> bool" where
  "value_ok (SqlText t) \<longleftrightarrow> str_ok t"
| "value_ok (SqlBlob d) \<longleftrightarrow> length d \<le> maxValueBytes"
| "value_ok _ \<longleftrightarrow> True"

lemma go_value_inj: "go_value v = go_value w \<longleftrightarrow> v = w"
  by (cases v; cases w) (auto simp: sqlNull_def)

lemma yields_blob:
  assumes "rest d = bare_data b @ post" "length b \<le> maxValueBytes"
  shows "yields (bindR (d_length d maxValueBytes) (\<lambda>(n, d). d_take d n)) b post"
proof -
  have "yields (d_length d maxValueBytes) (length b) (b @ post)"
    using assms maxValueBytes_fits by (intro yields_length) (auto simp: bare_data_def)
  then show ?thesis
    by (rule yields_bind) (simp add: yields_take)
qed

interpretation sqlValue: bare_reader bare_value value_ok go_value d_sqlValue
proof
  fix v d post assume v: "value_ok v" and r: "rest d = bare_value v @ post"
  have tag: "yields (d_uint d) (word_of_nat n) (b @ post)" if "bare_value v = uint_bytes n @ b" "n < 2 ^ 64" for n b
    using that r by (intro yields_uint) auto
  show "yields (d_sqlValue d) (go_value v) post"
  proof (cases v)
    case SqlNull
    show ?thesis unfolding d_sqlValue_def
      by (rule yields_bind [OF tag [of 0 "[]"]]) (auto simp: SqlNull intro: yields_return)
  next
    case (SqlInteger i)
    show ?thesis unfolding d_sqlValue_def
      by (rule yields_bind [OF tag [of 1]])
        (auto simp: SqlInteger intro!: yields_bind [OF i64.decodes] yields_return)
  next
    case (SqlReal b)
    show ?thesis unfolding d_sqlValue_def
      by (rule yields_bind [OF tag [of 2]])
        (auto simp: SqlReal intro!: yields_bind [OF u64.decodes] yields_return)
  next
    case (SqlText t)
    with v show ?thesis unfolding d_sqlValue_def
      by (intro yields_bind [OF tag [of 3]])
        (auto simp: SqlText intro!: yields_bind [OF str.decodes] yields_return)
  next
    case (SqlBlob b)
    with v show ?thesis unfolding d_sqlValue_def
      by (intro yields_bind [OF tag [of 4]])
        (auto simp: SqlBlob bindR_assoc intro!: yields_bind [OF yields_blob] yields_return)
  qed
qed

type_synonym sql_row = "sql_value list"

definition bare_list :: "('a \<Rightarrow> bytes) \<Rightarrow> 'a list \<Rightarrow> bytes" where
  "bare_list enc xs = uint_bytes (length xs) @ concat (map enc xs)"

definition bare_optional :: "('a \<Rightarrow> bytes) \<Rightarrow> 'a option \<Rightarrow> bytes" where
  "bare_optional enc x = (case x of None \<Rightarrow> [0] | Some a \<Rightarrow> 1 # enc a)"

datatype response_payload =
    SqliteExecOk
  | SqliteQueryOk "string list" "sql_row list" i64 "i64 option"
  | SqliteBeginOk
  | SqliteCommitOk
  | SqliteRollbackOk
  | SqlError i32 u32 string
  | EndpointClosed
  | QueueFull string u32
  | InvalidLeaseKey string
  | LeaseExpired u64 string
  | ResponseTooLarge

fun bare_payload :: "response_payload \<Rightarrow> bytes" where
  "bare_payload SqliteExecOk = uint_bytes 0"
| "bare_payload (SqliteQueryOk columns rows changes lastID) =
     uint_bytes 1 @ bare_list bare_str columns @ bare_list (bare_list bare_value) rows @
     le_bytes 8 (unat changes) @ bare_optional (\<lambda>i. le_bytes 8 (unat i)) lastID"
| "bare_payload SqliteBeginOk = uint_bytes 2"
| "bare_payload SqliteCommitOk = uint_bytes 3"
| "bare_payload SqliteRollbackOk = uint_bytes 4"
| "bare_payload (SqlError code statement message) =
     uint_bytes 5 @ le_bytes 4 (unat code) @ le_bytes 4 (unat statement) @ bare_str message"
| "bare_payload EndpointClosed = uint_bytes 6"
| "bare_payload (QueueFull limit capacity) = uint_bytes 7 @ bare_str limit @ le_bytes 4 (unat capacity)"
| "bare_payload (InvalidLeaseKey message) = uint_bytes 8 @ bare_str message"
| "bare_payload (LeaseExpired timeout message) = uint_bytes 9 @ le_bytes 8 (unat timeout) @ bare_str message"
| "bare_payload ResponseTooLarge = uint_bytes 10"

definition bare_response :: "u32 \<Rightarrow> response_payload \<Rightarrow> bytes" where
  "bare_response i p = [1, 0] @ uint_bytes 0 @ le_bytes 4 (unat i) @ bare_payload p"

definition row_ok :: "nat \<Rightarrow> sql_row \<Rightarrow> bool" where
  "row_ok n row \<longleftrightarrow> length row = n \<and> list_all value_ok row"

text \<open>The messages within the limits of the Go client.\<close>

fun response_ok :: "response_payload \<Rightarrow> bool" where
  "response_ok (SqliteQueryOk columns rows changes lastID) \<longleftrightarrow>
     length columns \<le> maxColumns \<and> list_all str_ok columns \<and>
     length rows < 2 ^ 64 \<and> list_all (row_ok (length columns)) rows"
| "response_ok (SqlError code statement message) \<longleftrightarrow> str_ok message"
| "response_ok (QueueFull limit capacity) \<longleftrightarrow> str_ok limit"
| "response_ok (InvalidLeaseKey message) \<longleftrightarrow> str_ok message"
| "response_ok (LeaseExpired timeout message) \<longleftrightarrow> str_ok message"
| "response_ok _ \<longleftrightarrow> True"

text \<open>What the caller of \<open>decodeResponse\<close> must see.\<close>

fun reply :: "u32 \<Rightarrow> response_payload \<Rightarrow> response" where
  "reply i (SqliteQueryOk columns rows changes lastID) =
     (emptyResponse i)\<lparr>rs_columns := columns, rs_values := map go_value (concat rows), rs_changes := changes,
        rs_lastInsertID := lastID\<rparr>"
| "reply i (SqlError code statement message) =
     (emptyResponse i)\<lparr>rs_err := Some \<lparr>we_Code = ''sqlite_error'', we_Message = message,
        we_SQLiteCode = Some code, we_StatementIndex = Some statement\<rparr>\<rparr>"
| "reply i EndpointClosed =
     (emptyResponse i)\<lparr>rs_err := Some (sqliteErr ''sqlite_endpoint_closed'' ''Actor Runtime Socket endpoint is closed'')\<rparr>"
| "reply i (QueueFull limit capacity) =
     (emptyResponse i)\<lparr>rs_err := Some (sqliteErr ''sqlite_queue_full'' (queueFullMessage limit capacity))\<rparr>"
| "reply i (InvalidLeaseKey message) =
     (emptyResponse i)\<lparr>rs_err := Some (sqliteErr ''invalid_lease_key'' message)\<rparr>"
| "reply i (LeaseExpired timeout message) =
     (emptyResponse i)\<lparr>rs_err := Some (sqliteErr ''transaction_expired'' (expiredMessage message timeout))\<rparr>"
| "reply i ResponseTooLarge =
     (emptyResponse i)\<lparr>rs_err := Some (sqliteErr ''sqlite_result_too_large''
        ''SQLite result exceeds Actor Runtime Socket maxFrameBytes'')\<rparr>"
| "reply i _ = emptyResponse i"

section \<open>Decoding a response\<close>

lemma length_bare_value: "1 \<le> length (bare_value v)"
  using length_uint_bytes by (cases v) (auto simp: add_increasing2)

lemma length_concat_map_ge: "(\<And>x. 1 \<le> length (enc x)) \<Longrightarrow> length xs \<le> length (concat (map enc xs))"
proof (induction xs)
  case (Cons x xs)
  then have "1 \<le> length (enc x)" "length xs \<le> length (concat (map enc xs))" by auto
  then show ?case by simp
qed simp

lemma length_bare_list: "1 \<le> length (bare_list enc xs)"
  using length_uint_bytes [of "length xs"] by (simp add: bare_list_def)

text \<open>A length prefix followed by that many elements of at least one byte each.\<close>

lemma yields_bare_list:
  assumes "rest d = bare_list enc xs @ post" "\<And>x. 1 \<le> length (enc x)" "length xs \<le> maximum" "length xs < 2 ^ 64"
  shows "yields (d_length d maximum) (length xs) (concat (map enc xs) @ post)"
proof -
  have "length xs \<le> length (concat (map enc xs) @ post)"
    using length_concat_map_ge [of enc xs] assms(2) by (simp add: le_trans)
  with assms show ?thesis
    by (intro yields_length) (auto simp: bare_list_def)
qed

lemma length_bare_str: "1 \<le> length (bare_str s)"
  using length_uint_bytes [of "length s"] by (simp add: bare_str_def)

interpretation row: bare_reader "bare_list bare_value" "\<lambda>r. row_ok n r \<and> n \<le> maxColumns" "map go_value" "d_row n" for n
proof
  fix r d post assume r: "row_ok n r \<and> n \<le> maxColumns" and d: "rest d = bare_list bare_value r @ post"
  then have n: "length r = n" "n \<le> maxColumns" "n < 2 ^ 64" "list_all value_ok r"
    by (auto simp: row_ok_def maxColumns_def)
  have "yields (d_length d maxColumns) n (concat (map bare_value r) @ post)"
    using yields_bare_list [OF d length_bare_value, of maxColumns] n by simp
  then show "yields (d_row n d) (map go_value r) post"
    unfolding d_row_def using n sqlValue.decodes_many [of r]
    by (auto intro!: yields_bind [where x = n])
qed

lemma yields_optional_i64:
  assumes "rest d = bare_optional (\<lambda>i. le_bytes 8 (unat i)) x @ post"
  shows "yields (bindR (d_boolean d) (\<lambda>(present, d).
     if present then bindR (d_i64 d) (\<lambda>(v, d). Inr (Some v, d)) else Inr (None, d))) x post"
proof (cases x)
  case None
  have "yields (d_boolean d) False post"
    using boolean.decodes [of d False post] assms None by (simp add: bare_optional_def)
  then show ?thesis by (rule yields_bind) (simp add: None yields_return)
next
  case (Some i)
  have "yields (d_boolean d) True (le_bytes 8 (unat i) @ post)"
    using boolean.decodes [of d True "le_bytes 8 (unat i) @ post"] assms Some by (simp add: bare_optional_def)
  then show ?thesis
    by (rule yields_bind) (auto simp: Some intro!: yields_bind [OF i64.decodes] yields_return)
qed

lemma yields_queryResult:
  assumes ok: "response_ok (SqliteQueryOk columns rows changes lastID)"
    and d: "rest d = bare_list bare_str columns @ bare_list (bare_list bare_value) rows @
      le_bytes 8 (unat changes) @ bare_optional (\<lambda>i. le_bytes 8 (unat i)) lastID"
  shows "yields (decodeQueryResult d (emptyResponse i)) (reply i (SqliteQueryOk columns rows changes lastID)) []"
proof -
  from ok have c: "length columns \<le> maxColumns" "list_all str_ok columns" "length columns < 2 ^ 64"
    and r: "length rows < 2 ^ 64" "list_all (\<lambda>r. row_ok (length columns) r \<and> length columns \<le> maxColumns) rows"
    by (auto simp: maxColumns_def list_all_iff)
  let ?tail = "le_bytes 8 (unat changes) @ bare_optional (\<lambda>i. le_bytes 8 (unat i)) lastID"
  let ?rows = "bare_list (bare_list bare_value) rows"
  have cols: "yields (d_length d maxColumns) (length columns) (concat (map bare_str columns) @ ?rows @ ?tail)"
    using yields_bare_list [OF d length_bare_str c(1) c(3)] .
  have columns: "yields (d_many d_string d (length columns)) columns (?rows @ ?tail)"
    if "rest d = concat (map bare_str columns) @ ?rows @ ?tail" for d
    using str.decodes_many [OF c(2) that] by simp
  have count: "yields (d_length d (d_remaining d)) (length rows) (concat (map (bare_list bare_value) rows) @ ?tail)"
    if "rest d = ?rows @ ?tail" for d
  proof (rule yields_bare_list [OF that length_bare_list _ r(1)])
    show "length rows \<le> d_remaining d"
      using length_concat_map_ge [of "bare_list bare_value" rows, OF length_bare_list]
      by (simp add: d_remaining_rest that bare_list_def)
  qed
  have cells: "yields (d_many (d_row (length columns)) d (length rows)) (map (map go_value) rows) ?tail"
    if "rest d = concat (map (bare_list bare_value) rows) @ ?tail" for d
    using row.decodes_many [OF r(2) that] .
  have changes: "yields (d_i64 d) changes (bare_optional (\<lambda>i. le_bytes 8 (unat i)) lastID)" if "rest d = ?tail" for d
    using i64.decodes [OF _ that] by simp
  have last: "yields (bindR (d_boolean d) (\<lambda>(present, d).
      if present then bindR (d_i64 d) (\<lambda>(v, d). Inr (Some v, d)) else Inr (None, d))) lastID []"
    if "rest d = bare_optional (\<lambda>i. le_bytes 8 (unat i)) lastID" for d
    using yields_optional_i64 [of d lastID "[]"] that by simp
  show ?thesis
    unfolding decodeQueryResult_def
    by (rule yields_bind [OF cols], unfold prod.case, rule yields_bind [OF columns], assumption, unfold prod.case,
        rule yields_bind [OF count], assumption, unfold prod.case, rule yields_bind [OF cells], assumption,
        unfold prod.case, rule yields_bind [OF changes], assumption, unfold prod.case bindR_assoc,
        rule yields_bind [OF last], assumption)
      (simp add: yields_return map_concat emptyResponse_def)
qed

lemma yields_payload:
  assumes ok: "response_ok p" and d: "rest d = bare_payload p"
  shows "yields (bindR (d_uint d) (\<lambda>(tag, d). decodePayload tag d (emptyResponse i))) (reply i p) []"
proof -
  have tag: "yields (bindR (d_uint d) (\<lambda>(tag, d). decodePayload tag d (emptyResponse i))) (reply i p) []"
    if "bare_payload p = uint_bytes n @ b" "n < 2 ^ 64"
      "\<And>d. rest d = b \<Longrightarrow> yields (decodePayload (word_of_nat n) d (emptyResponse i)) (reply i p) []" for n b
    using that d yields_uint [of d n b] by (auto intro: yields_bind)
  note steps = yields_bind [OF i32.decodes] yields_bind [OF u32.decodes] yields_bind [OF u64.decodes]
    yields_bind [OF str.decodes] yields_return
  note lasts = yields_bind [OF str.decodes_last] yields_bind [OF u32.decodes_last]
  show ?thesis
  proof (cases p)
    case (SqliteQueryOk columns rows changes lastID)
    with ok show ?thesis
      using yields_queryResult by (intro tag [of 1]) (auto simp: decodePayload_def)
  next
    case (SqlError code statement message)
    with ok show ?thesis
      by (intro tag [of 5]) (auto simp: decodePayload_def intro!: lasts steps)
  next
    case (QueueFull limit capacity)
    with ok show ?thesis
      by (intro tag [of 7]) (auto simp: decodePayload_def intro!: lasts steps)
  next
    case (InvalidLeaseKey message)
    with ok show ?thesis
      by (intro tag [of 8]) (auto simp: decodePayload_def intro!: lasts steps)
  next
    case (LeaseExpired timeout message)
    with ok show ?thesis
      by (intro tag [of 9]) (auto simp: decodePayload_def intro!: lasts steps)
  next
    case SqliteExecOk
    then show ?thesis by (intro tag [of 0 "[]"]) (auto simp: decodePayload_def intro: yields_return)
  next
    case SqliteBeginOk
    then show ?thesis by (intro tag [of 2 "[]"]) (auto simp: decodePayload_def intro: yields_return)
  next
    case SqliteCommitOk
    then show ?thesis by (intro tag [of 3 "[]"]) (auto simp: decodePayload_def intro: yields_return)
  next
    case SqliteRollbackOk
    then show ?thesis by (intro tag [of 4 "[]"]) (auto simp: decodePayload_def intro: yields_return)
  next
    case EndpointClosed
    then show ?thesis by (intro tag [of 6 "[]"]) (auto simp: decodePayload_def intro: yields_return)
  next
    case ResponseTooLarge
    then show ?thesis by (intro tag [of 10 "[]"]) (auto simp: decodePayload_def intro: yields_return)
  qed
qed

lemma versionedDecoder_bytes: "versionedDecoder ([1, 0] @ b) = Inr \<lparr>dec_data = b, dec_pos = 0\<rparr>"
  by (simp add: versionedDecoder_def protocolVersion_def numeral_2_eq_2)

text \<open>C3: every response of the protocol schema within the client's limits, encoded canonically, is decoded
  to the Go value that stands for it: the request id, all columns and values in order, the change count
  and the last row id, or the structured error of its kind.\<close>

theorem decodeResponse_schema:
  assumes "response_ok p"
  shows "decodeResponse (bare_response i p) = Inr (reply i p)"
proof -
  let ?b = "uint_bytes 0 @ le_bytes 4 (unat i) @ bare_payload p"
  let ?d = "\<lparr>dec_data = ?b, dec_pos = 0\<rparr>"
  have "rest ?d = ?b" by (simp add: rest_def)
  then have "yields (d_uint ?d) 0 (le_bytes 4 (unat i) @ bare_payload p)"
    using yields_uint [of ?d 0] by simp
  then obtain d1 where d1: "d_uint ?d = Inr (0, d1)" "rest d1 = le_bytes 4 (unat i) @ bare_payload p"
    by (auto simp: yields_def)
  then have "yields (d_u32 d1) i (bare_payload p)" by (intro u32.decodes) simp_all
  then obtain d2 where d2: "d_u32 d1 = Inr (i, d2)" "rest d2 = bare_payload p"
    by (auto simp: yields_def)
  obtain tag d3 d4 where "d_uint d2 = Inr (tag, d3)" "decodePayload tag d3 (emptyResponse i) = Inr (reply i p, d4)"
    "rest d4 = []"
    using yields_payload [OF assms d2(2), of i] by (auto simp: yields_def bindR_eq_Inr)
  with d1 d2 show ?thesis
    using versionedDecoder_bytes [of ?b] by (simp add: bare_response_def decodeResponse_def d_remaining_rest)
qed

theorem decodeResponse_schema_witness:
  "decodeResponse (bare_response 7 (SqliteQueryOk [''id''] [[SqlInteger 5], [SqlNull]] 0 (Some 9))) =
   Inr (reply 7 (SqliteQueryOk [''id''] [[SqlInteger 5], [SqlNull]] 0 (Some 9)))"
  by (rule decodeResponse_schema)
    (simp add: str_ok_def row_ok_def maxColumns_def maxValueBytes_def string_bytes_def utf8_valid_ascii)


section \<open>Responses of any peer\<close>

text \<open>Whatever bytes arrive, a step that succeeds has read at least \<open>k\<close> of them.\<close>

definition consumes :: "nat \<Rightarrow> decoder \<Rightarrow> bare_error + ('a \<times> decoder) \<Rightarrow> bool" where
  "consumes k d r \<longleftrightarrow> (\<forall>x d'. r = Inr (x, d') \<longrightarrow> length (rest d') + k \<le> length (rest d))"

lemma consumes_D: "consumes k d r \<Longrightarrow> r = Inr (x, d') \<Longrightarrow> length (rest d') + k \<le> length (rest d)"
  by (simp add: consumes_def)

lemma consumes_bind:
  "consumes j d r \<Longrightarrow> (\<And>x d'. consumes k d' (f (x, d'))) \<Longrightarrow> i \<le> j + k \<Longrightarrow> consumes i d (bindR r f)"
  unfolding consumes_def bindR_eq_Inr by fastforce

lemma consumes_simps [simp]: "consumes k d (Inl e)" "consumes 0 d (Inr (x, d))"
  by (simp_all add: consumes_def)

lemma consumes_take: "consumes n d (d_take d n)"
  by (auto simp: consumes_def d_take_rest rest_skip split: if_splits)

lemma consumes_uint_loop: "consumes 0 d (d_uint_loop d shift v)"
proof (induction "70 - shift" arbitrary: d shift v rule: less_induct)
  case less
  then have "shift < 70 \<Longrightarrow> consumes 0 d (d_uint_loop d (shift + 7) v)" for d v
    by simp
  then show ?case
    unfolding d_uint_loop.simps [of d]
    by (auto intro!: consumes_bind [OF consumes_take, of 0] simp: Let_def)
qed

lemma consumes_uint: "consumes 1 d (d_uint d)"
  unfolding d_uint_def d_uint_loop.simps [of d]
  by (auto intro!: consumes_bind [OF consumes_take, of 0] consumes_uint_loop simp: Let_def)

lemma consumes_length: "consumes 1 d (d_length d maximum)"
  unfolding d_length_def by (auto intro!: consumes_bind [OF consumes_uint, of 0])

lemma consumes_u64: "consumes 0 d (d_u64 d)"
  unfolding d_u64_def by (rule consumes_bind [OF consumes_take, of 0]) auto

lemma consumes_u32: "consumes 0 d (d_u32 d)"
  unfolding d_u32_def by (rule consumes_bind [OF consumes_take, of 0]) auto

lemma consumes_string: "consumes 0 d (d_string d)"
  unfolding d_string_def
  by (rule consumes_bind [OF consumes_length, of 0])
    (auto intro!: consumes_bind [OF consumes_take, of 0])

lemma consumes_sqlValue: "consumes 1 d (d_sqlValue d)"
  unfolding d_sqlValue_def d_i64_def
  by (rule consumes_bind [OF consumes_uint, of 0])
    (auto intro!: consumes_bind [OF consumes_u64, of 0] consumes_bind [OF consumes_string, of 0]
      consumes_bind [OF consumes_length, of 0] consumes_bind [OF consumes_take, of 0])

lemma consumes_many: "(\<And>d. consumes k d (f d)) \<Longrightarrow> consumes (n * k) d (d_many f d n)"
proof (induction n arbitrary: d)
  case (Suc n)
  have "consumes (n * k) d (bindR (d_many f d n) (\<lambda>(xs, d). Inr (x # xs, d)))" for x d
    using Suc by (intro consumes_bind [where j = "n * k" and k = 0]) auto
  with Suc.prems show ?case
    unfolding d_many.simps by (intro consumes_bind [where j = k and k = "n * k"]) auto
qed simp

lemma consumes_row: "consumes n d (d_row n d)"
proof -
  have "consumes (m * 1) d (d_many d_sqlValue d m)" for d m
    by (rule consumes_many [OF consumes_sqlValue])
  then show ?thesis
    unfolding d_row_def by (auto intro!: consumes_bind [OF consumes_length, of n])
qed

lemma d_many_length: "d_many f d n = Inr (xs, d') \<Longrightarrow> length xs = n"
  by (induction n arbitrary: d xs) (auto simp: bindR_eq_Inr)

lemma d_many_all:
  "d_many f d n = Inr (xs, d') \<Longrightarrow> (\<And>d x d'. f d = Inr (x, d') \<Longrightarrow> P x) \<Longrightarrow> list_all P xs"
  by (induction n arbitrary: d xs) (auto simp: bindR_eq_Inr)

lemma d_length_le: "d_length d maximum = Inr (n, d') \<Longrightarrow> n \<le> maximum"
  by (auto simp: d_length_def bindR_eq_Inr split: if_splits)

lemma d_take_length: "d_take d n = Inr (b, d') \<Longrightarrow> length b = n"
  by (auto simp: d_take_rest split: if_splits)

lemma d_string_le: "d_string d = Inr (t, d') \<Longrightarrow> length t \<le> oneMiB"
  by (auto simp: d_string_def bindR_eq_Inr oneMiB_def maxValueBytes_def split: if_splits
    dest!: d_length_le d_take_length)

lemma d_sqlValue_ok: "d_sqlValue d = Inr (v, d') \<Longrightarrow> sqlite_value_ok v"
  by (auto simp: d_sqlValue_def bindR_eq_Inr sqlite_value_ok_def sqlNull_def maxValueBytes_def oneMiB_def
    split: if_splits dest!: d_string_le d_length_le d_take_length)

lemma d_row_ok: "d_row n d = Inr (r, d') \<Longrightarrow> length r = n \<and> list_all sqlite_value_ok r"
  by (auto simp: d_row_def bindR_eq_Inr split: if_splits dest: d_many_length d_many_all [OF _ d_sqlValue_ok])

lemma list_all_concat: "list_all (\<lambda>r. length r = n \<and> list_all P r) rows \<Longrightarrow>
    list_all P (concat rows) \<and> length (concat rows) = length rows * n"
  by (induction rows) auto

definition response_shape :: "nat \<Rightarrow> response \<Rightarrow> bool" where
  "response_shape n r \<longleftrightarrow>
     length (rs_columns r) \<le> maxColumns \<and> list_all sqlite_value_ok (rs_values r) \<and>
     (\<exists>rows. length (rs_values r) = rows * length (rs_columns r)) \<and> length (rs_values r) \<le> n \<and>
     (rs_err r \<noteq> None \<longrightarrow> rs_columns r = [] \<and> rs_values r = [])"

lemma decodeQueryResult_shape:
  assumes "decodeQueryResult d (emptyResponse i) = Inr (r, d')"
  shows "response_shape (length (rest d)) r"
proof -
  from assms obtain m d1 cols d2 k d3 rows d4 where
    c: "d_length d maxColumns = Inr (m, d1)" "d_many d_string d1 m = Inr (cols, d2)" and
    k: "d_length d2 (d_remaining d2) = Inr (k, d3)" and
    v: "d_many (d_row m) d3 k = Inr (rows, d4)" and
    r: "rs_columns r = cols" "rs_values r = concat rows" "rs_err r = None"
    by (auto simp: decodeQueryResult_def bindR_eq_Inr emptyResponse_def)
  have m: "length cols = m" "m \<le> maxColumns"
    using c d_many_length d_length_le by auto
  have rows: "list_all sqlite_value_ok (concat rows) \<and> length (concat rows) = length rows * m"
    using d_many_all [OF v d_row_ok] by (intro list_all_concat) auto
  have "length (rest d4) + k * m \<le> length (rest d3)"
    using consumes_D [OF consumes_many [where f = "d_row m", OF consumes_row] v] .
  moreover have "length (rest d3) \<le> length (rest d2)"
    using consumes_D [OF consumes_length k] by simp
  moreover have "length (rest d2) \<le> length (rest d1)"
    using consumes_D [OF consumes_many [where f = d_string, OF consumes_string] c(2)] by simp
  moreover have "length (rest d1) \<le> length (rest d)"
    using consumes_D [OF consumes_length c(1)] by simp
  ultimately show ?thesis
    using m rows r d_many_length [OF v] by (auto simp: response_shape_def)
qed

lemma decodePayload_shape:
  assumes "decodePayload tag d (emptyResponse i) = Inr (r, d')"
  shows "response_shape (length (rest d)) r"
proof (cases "tag = 1")
  case True
  with assms show ?thesis by (auto simp: decodePayload_def intro: decodeQueryResult_shape)
next
  case False
  with assms have "rs_columns r = [] \<and> rs_values r = []"
    by (auto simp: decodePayload_def bindR_eq_Inr emptyResponse_def split: if_splits)
  then show ?thesis by (simp add: response_shape_def)
qed

text \<open>C23: whatever bytes the peer sends, a response the client accepts is rectangular (its values are a whole number of
  rows of its column count), every value has exactly the payload of its kind and at most one MiB of it, an
  error comes without rows, and the values are at most as many as the bytes received.\<close>

theorem decodeResponse_shape:
  assumes "decodeResponse payload = Inr r"
  shows "response_shape (length payload) r"
proof -
  from assms obtain d0 d1 i d2 tag d3 d4 where
    d: "versionedDecoder payload = Inr d0" "d_uint d0 = Inr (0, d1)" "d_u32 d1 = Inr (i, d2)"
      "d_uint d2 = Inr (tag, d3)" and r: "decodePayload tag d3 (emptyResponse i) = Inr (r, d4)"
    by (auto simp: decodeResponse_def bindR_eq_Inr split: if_splits)
  have "length (rest d0) \<le> length payload"
    using d(1) by (auto simp: versionedDecoder_def rest_def Let_def split: if_splits)
  moreover have "length (rest d3) \<le> length (rest d0)"
    using consumes_D [OF consumes_uint d(2)] consumes_D [OF consumes_u32 d(3)] consumes_D [OF consumes_uint d(4)]
    by simp
  ultimately show ?thesis
    using decodePayload_shape [OF r] by (auto simp: response_shape_def)
qed

theorem decodeResponse_shape_witness:
  "\<exists>r. decodeResponse [1, 0, 0, 7, 0, 0, 0, 0] = Inr r \<and> response_shape 8 r"
proof -
  have "decodeResponse [1, 0, 0, 7, 0, 0, 0, 0] = Inr (emptyResponse 7)"
    by (simp add: decodeResponse_def versionedDecoder_def protocolVersion_def d_uint_def d_uint_loop.simps d_take_def
      d_remaining_def d_u32_def decodePayload_def Let_def)
  with decodeResponse_shape [OF this] show ?thesis by (simp add: numeral_eq_Suc)
qed


section \<open>Encoding a request\<close>

datatype request_msg =
    SqliteExec string
  | SqliteQuery string "sql_value list"
  | SqliteBegin string "u64 option"
  | SqliteCommit string
  | SqliteRollback string

fun bare_msg :: "request_msg \<Rightarrow> bytes" where
  "bare_msg (SqliteExec script) = uint_bytes 0 @ bare_str script"
| "bare_msg (SqliteQuery sql params) = uint_bytes 1 @ bare_str sql @ bare_list bare_value params"
| "bare_msg (SqliteBegin k timeout) = uint_bytes 2 @ bare_str k @ bare_optional (\<lambda>t. le_bytes 8 (unat t)) timeout"
| "bare_msg (SqliteCommit k) = uint_bytes 3 @ bare_str k"
| "bare_msg (SqliteRollback k) = uint_bytes 4 @ bare_str k"

definition bare_request :: "u32 \<times> string option \<times> request_msg \<Rightarrow> bytes" where
  "bare_request q = (case q of (i, lease, m) \<Rightarrow>
     [1, 0] @ uint_bytes 0 @ le_bytes 4 (unat i) @ bare_optional bare_str lease @ bare_msg m)"

text \<open>The schema value a \<open>wire.SQLiteValue\<close> stands for, and the message a request of the client stands for.\<close>

definition schema_value :: "SQLiteValue \<Rightarrow> sql_value option" where
  "schema_value v =
     (if sv_Kind v = ''null'' then Some SqlNull
      else if sv_Kind v = ''integer'' then map_option SqlInteger (sv_Integer v)
      else if sv_Kind v = ''real'' then map_option SqlReal (sv_Bits v)
      else if sv_Kind v = ''text'' then
        (case sv_Text v of Some t \<Rightarrow> if length t \<le> maxValueBytes then Some (SqlText t) else None | None \<Rightarrow> None)
      else if sv_Kind v = ''blob'' then
        (case sv_Blob v of Some b \<Rightarrow> if length b \<le> maxValueBytes then Some (SqlBlob b) else None | None \<Rightarrow> None)
      else None)"

definition request_msg :: "request \<Rightarrow> (u32 \<times> string option \<times> request_msg) option" where
  "request_msg r =
     (if rq_id r = 0 \<or> length (rq_args r) > maxParameters then None
      else case rq_kind r of
        requestExec \<Rightarrow> Some (rq_id r, rq_leaseKey r, SqliteExec (rq_sql r))
      | requestQuery \<Rightarrow>
          map_option (\<lambda>ps. (rq_id r, rq_leaseKey r, SqliteQuery (rq_sql r) ps)) (those (map schema_value (rq_args r)))
      | requestBegin \<Rightarrow> map_option (\<lambda>k. (rq_id r, None, SqliteBegin k (rq_timeoutMS r))) (rq_leaseKey r)
      | requestCommit \<Rightarrow> map_option (\<lambda>k. (rq_id r, None, SqliteCommit k)) (rq_leaseKey r)
      | requestRollback \<Rightarrow> map_option (\<lambda>k. (rq_id r, None, SqliteRollback k)) (rq_leaseKey r)
      | requestOther _ \<Rightarrow> None)"

text \<open>A Go string has fewer than \<open>2^63\<close> bytes.\<close>

definition go_request :: "request \<Rightarrow> bool" where
  "go_request r \<longleftrightarrow> length (rq_sql r) < 2 ^ 63 \<and> (\<forall>k. rq_leaseKey r = Some k \<longrightarrow> length k < 2 ^ 63)"

lemma e_string_bytes: "length s < 2 ^ 64 \<Longrightarrow> e_string data s = data @ bare_str s"
  by (simp add: e_string_def e_uint_bytes bare_str_def unat_of_nat)

lemma e_sqlValue_schema:
  "(case schema_value v of None \<Rightarrow> isl (e_sqlValue data v) | Some w \<Rightarrow> e_sqlValue data v = Inr (data @ bare_value w))"
  by (auto simp: schema_value_def e_sqlValue_def e_uint_bytes e_u64_def e_string_bytes bare_data_def unat_of_nat
    maxValueBytes_def split: option.splits)

lemma e_sqlValues_schema:
  "(case those (map schema_value vs) of
      None \<Rightarrow> isl (e_sqlValues data vs)
    | Some ws \<Rightarrow> e_sqlValues data vs = Inr (data @ concat (map bare_value ws)))"
proof (induction vs arbitrary: data)
  case (Cons v vs)
  show ?case
  proof (cases "schema_value v")
    case None
    then show ?thesis using e_sqlValue_schema [where v = v and data = data] by (cases "e_sqlValue data v") auto
  next
    case (Some w)
    then have "e_sqlValue data v = Inr (data @ bare_value w)" using e_sqlValue_schema [where v = v and data = data] by simp
    with Some show ?thesis using Cons [of "data @ bare_value w"] by (auto split: option.splits)
  qed
qed simp

lemma those_length: "those xs = Some ys \<Longrightarrow> length ys = length xs"
  by (induction xs arbitrary: ys) (auto split: option.splits)

lemma version_bytes: "[ucast protocolVersion, ucast (drop_bit 8 protocolVersion)] = ([1, 0] :: bytes)"
  by (simp add: protocolVersion_def)

lemma encodeRequest_schema':
  assumes "go_request r"
  shows "case request_msg r of None \<Rightarrow> isl (encodeRequest r) | Some q \<Rightarrow> encodeRequest r = Inr (bare_request q)"
proof -
  have lease: "e_optionalString data k = data @ bare_optional bare_str k" if "\<forall>s. k = Some s \<longrightarrow> length s < 2 ^ 63" for data k
    using that by (cases k) (auto simp: e_optionalString_def bare_optional_def e_string_bytes)
  note enc = encodeRequest_def request_msg_def bare_request_def e_uint_bytes e_u32_def e_u64_def lease
    version_bytes e_string_bytes
  show ?thesis
  proof (cases "rq_kind r")
    case requestQuery
    then show ?thesis
      using assms e_sqlValues_schema [where vs = "rq_args r"] those_length [of "map schema_value (rq_args r)"]
      by (auto simp: enc go_request_def bare_list_def maxParameters_def unat_of_nat split: option.splits)
  qed (use assms in \<open>auto simp: enc go_request_def bare_optional_def split: option.splits\<close>)
qed




section \<open>Requests can be told apart\<close>

context prefix_code
begin

lemma unique_bare_list:
  assumes "list_all ok as" "list_all ok bs" "length as < 2 ^ 64" "length bs < 2 ^ 64"
    and "bare_list enc as @ x = bare_list enc bs @ y"
  shows "map rep as = map rep bs \<and> x = y"
proof -
  let ?n = "word_of_nat (length as) :: u64" and ?m = "word_of_nat (length bs) :: u64"
  have nm: "unat ?n = length as" "unat ?m = length bs"
    using assms(3,4) by (simp_all add: unat_of_nat)
  have eq: "?n = ?m \<and> concat (map enc as) @ x = concat (map enc bs) @ y"
    using assms(5) uint.unique [where a = ?n and b = ?m] unfolding nm by (simp add: bare_list_def)
  then have "unat ?n = unat ?m" by simp
  then have "length as = length bs" unfolding nm .
  with eq show ?thesis
    by (intro unique_list assms) simp_all
qed

lemma unique_optional:
  assumes "pred_option ok a" "pred_option ok b" "bare_optional enc a @ x = bare_optional enc b @ y"
  shows "map_option rep a = map_option rep b \<and> x = y"
  using assms unique [of "the a" "the b" x y] by (cases a; cases b) (simp_all add: bare_optional_def)

end

interpretation octets: prefix_code bare_data "\<lambda>b. length b < 2 ^ 64" "\<lambda>b. b"
proof
  fix a b x y :: bytes assume ab: "length a < 2 ^ 64" "length b < 2 ^ 64" "bare_data a @ x = bare_data b @ y"
  let ?n = "word_of_nat (length a) :: u64" and ?m = "word_of_nat (length b) :: u64"
  have nm: "unat ?n = length a" "unat ?m = length b"
    using ab by (simp_all add: unat_of_nat)
  have eq: "?n = ?m \<and> a @ x = b @ y"
    using ab(3) uint.unique [where a = ?n and b = ?m] unfolding nm by (simp add: bare_data_def)
  then have "unat ?n = unat ?m" by simp
  then have "length a = length b" unfolding nm .
  with eq show "a = b \<and> x = y" by simp
qed

lemma bare_str_data: "bare_str s = bare_data (string_bytes s)"
  by (simp add: bare_str_def bare_data_def)

interpretation text_code: prefix_code bare_str "\<lambda>s. length s < 2 ^ 64" "\<lambda>s. s"
proof
  fix a b x y assume "length a < 2 ^ 64" "length b < 2 ^ 64" "bare_str a @ x = bare_str b @ y"
  then show "a = b \<and> x = y"
    using octets.unique [of "string_bytes a" "string_bytes b" x y] by (simp add: bare_str_data)
qed

fun arg_ok :: "sql_value \<Rightarrow> bool" where
  "arg_ok (SqlText t) \<longleftrightarrow> length t < 2 ^ 64"
| "arg_ok (SqlBlob d) \<longleftrightarrow> length d < 2 ^ 64"
| "arg_ok _ \<longleftrightarrow> True"

lemma unique_tag:
  assumes "n < 2 ^ 64" "m < 2 ^ 64"
  shows "uint_bytes n @ x = uint_bytes m @ y \<longleftrightarrow> n = m \<and> x = y"
proof
  let ?n = "word_of_nat n :: u64" and ?m = "word_of_nat m :: u64"
  have nm: "unat ?n = n" "unat ?m = m"
    using assms by (simp_all add: unat_of_nat)
  assume "uint_bytes n @ x = uint_bytes m @ y"
  then have "?n = ?m \<and> x = y"
    using uint.unique [where a = ?n and b = ?m and x = x and y = y] unfolding nm by simp
  then show "n = m \<and> x = y" using nm by metis
qed simp

lemma unique_data:
  "length a < 2 ^ 64 \<Longrightarrow> length b < 2 ^ 64 \<Longrightarrow> bare_data a @ x = bare_data b @ y \<longleftrightarrow> a = b \<and> x = y"
  using octets.unique [of a b x y] by auto

lemma unique_str:
  "length a < 2 ^ 64 \<Longrightarrow> length b < 2 ^ 64 \<Longrightarrow> bare_str a @ x = bare_str b @ y \<longleftrightarrow> a = b \<and> x = y"
  using text_code.unique [of a b x y] by auto

lemma unique_u64: "le_bytes 8 (unat (v :: u64)) = le_bytes 8 (unat w) \<longleftrightarrow> v = w"
  using u64.unique [where a = v and b = w and x = "[]" and y = "[]"] by auto

interpretation arg_code: prefix_code bare_value arg_ok "\<lambda>v. v"
proof
  fix v w x y assume vw: "arg_ok v" "arg_ok w" "bare_value v @ x = bare_value w @ y"
  then show "v = w \<and> x = y"
    by (cases v; cases w) (simp_all add: unique_tag unique_data unique_str unique_u64)
qed

definition msg_ok :: "request_msg \<Rightarrow> bool" where
  "msg_ok m \<longleftrightarrow> (case m of
       SqliteQuery sql ps \<Rightarrow> length sql < 2 ^ 64 \<and> length ps < 2 ^ 64 \<and> list_all arg_ok ps
     | SqliteExec s \<Rightarrow> length s < 2 ^ 64 | SqliteBegin k t \<Rightarrow> length k < 2 ^ 64
     | SqliteCommit k \<Rightarrow> length k < 2 ^ 64 | SqliteRollback k \<Rightarrow> length k < 2 ^ 64)"

lemma bare_msg_unique:
  assumes "msg_ok m" "msg_ok n" "bare_msg m = bare_msg n"
  shows "m = n"
proof -
  have params: "ps = qs" if "list_all arg_ok ps" "list_all arg_ok qs" "length ps < 2 ^ 64" "length qs < 2 ^ 64"
      "bare_list bare_value ps = bare_list bare_value qs" for ps qs
    using arg_code.unique_bare_list [OF that(1-4), of "[]" "[]"] that(5) by simp
  have str: "a = b" if "length a < 2 ^ 64" "length b < 2 ^ 64" "bare_str a = bare_str b" for a b
    using unique_str [of a b "[]" "[]"] that by simp
  have timeout: "t = u" if "bare_optional (\<lambda>t. le_bytes 8 (unat t)) t = bare_optional (\<lambda>t. le_bytes 8 (unat t)) u"
    for t u :: "u64 option"
    using that by (cases t; cases u) (simp_all add: bare_optional_def unique_u64)
  show ?thesis
    using assms by (cases m; cases n) (auto simp: msg_ok_def unique_tag unique_str intro: params str timeout)
qed

lemma bare_request_unique:
  assumes "pred_option (\<lambda>s. length s < 2 ^ 64) k" "pred_option (\<lambda>s. length s < 2 ^ 64) l" "msg_ok m" "msg_ok n"
    and "bare_request (i, k, m) = bare_request (j, l, n)"
  shows "(i, k, m) = (j, l, n)"
proof -
  have "le_bytes 4 (unat i) @ bare_optional bare_str k @ bare_msg m = le_bytes 4 (unat j) @ bare_optional bare_str l @ bare_msg n"
    using assms(5) by (simp add: bare_request_def)
  from u32.unique [OF _ _ this] have ij: "i = j" "bare_optional bare_str k @ bare_msg m = bare_optional bare_str l @ bare_msg n"
    by simp_all
  from text_code.unique_optional [OF assms(1,2) ij(2)] have "k = l" "bare_msg m = bare_msg n"
    by (simp_all add: option.map_ident)
  with ij show ?thesis
    using bare_msg_unique [OF assms(3,4)] by simp
qed

lemma schema_value_arg_ok: "schema_value v = Some w \<Longrightarrow> arg_ok w"
  by (auto simp: schema_value_def maxValueBytes_def split: if_splits option.splits)

lemma those_all: "those (map f xs) = Some ys \<Longrightarrow> (\<And>x y. f x = Some y \<Longrightarrow> P y) \<Longrightarrow> list_all P ys"
  by (induction xs arbitrary: ys) (auto split: option.splits)

lemma request_msg_ok:
  assumes "go_request r" "request_msg r = Some (i, k, m)"
  shows "pred_option (\<lambda>s. length s < 2 ^ 64) k \<and> msg_ok m"
proof -
  have args: "list_all arg_ok ys \<and> length ys \<le> length (rq_args r)" if "those (map schema_value (rq_args r)) = Some ys" for ys
    using those_all [OF that schema_value_arg_ok] those_length [OF that] by auto
  have lease: "pred_option (\<lambda>s. length s < 2 ^ 64) (rq_leaseKey r)" "length (rq_sql r) < 2 ^ 64"
    using assms(1) by (cases "rq_leaseKey r"; simp add: go_request_def)+
  show ?thesis
  proof (cases "rq_kind r")
    case requestQuery
    with assms(2) show ?thesis
      using lease args by (auto simp: request_msg_def msg_ok_def maxParameters_def split: if_splits)
  qed (use assms(2) lease in \<open>auto simp: request_msg_def msg_ok_def split: if_splits\<close>)
qed

text \<open>C15: two requests with the same encoding stand for the same message, so the server can
  recover the request id, the lease key, the statement and every argument from the bytes alone.\<close>

theorem encodeRequest_unambiguous:
  assumes "go_request r" "go_request q" "encodeRequest r = Inr bs" "encodeRequest q = Inr bs"
  shows "request_msg r = request_msg q"
proof -
  obtain i k m where r: "request_msg r = Some (i, k, m)" "bs = bare_request (i, k, m)"
    using encodeRequest_schema' [OF assms(1)] assms(3) by (cases "request_msg r") auto
  obtain j l n where q: "request_msg q = Some (j, l, n)" "bs = bare_request (j, l, n)"
    using encodeRequest_schema' [OF assms(2)] assms(4) by (cases "request_msg q") auto
  from r q bare_request_unique [of k l m n i j] request_msg_ok [OF assms(1) r(1)] request_msg_ok [OF assms(2) q(1)]
  show ?thesis by simp
qed

theorem encodeRequest_unambiguous_witness:
  "request_msg \<lparr>rq_id = 3, rq_kind = requestCommit, rq_sql = ''x'', rq_args = [], rq_leaseKey = Some ''k'', rq_timeoutMS = None\<rparr>
   = request_msg \<lparr>rq_id = 3, rq_kind = requestCommit, rq_sql = [], rq_args = [], rq_leaseKey = Some ''k'', rq_timeoutMS = Some 1\<rparr>"
  by (rule encodeRequest_unambiguous [where bs = "bare_request (3, None, SqliteCommit ''k'')"])
    (simp_all add: go_request_def encodeRequest_def bare_request_def bare_optional_def e_optionalString_def
      e_uint_bytes e_u32_def e_string_bytes version_bytes)

text \<open>The frame limit a handshake agrees on is between 1024 bytes and the client's own maximum,
  and it is the one the server announced unless that is above the maximum.\<close>

theorem decodeHello_bounds:
  "decodeHello ([1, 0] @ uint_bytes 0 @ le_bytes 4 (unat m)) =
     (if m < 1024 then Inl (FrameTooSmall m) else Inr (min m maxSupportedFrame))"
proof -
  let ?d = "\<lparr>dec_data = uint_bytes 0 @ le_bytes 4 (unat m), dec_pos = 0\<rparr>"
  have "yields (d_uint ?d) 0 (le_bytes 4 (unat m))"
    using yields_uint [of ?d 0] by (simp add: rest_def)
  then obtain d1 where d1: "d_uint ?d = Inr (0, d1)" "rest d1 = le_bytes 4 (unat m)"
    by (auto simp: yields_def)
  then obtain d2 where "d_u32 d1 = Inr (m, d2)" "rest d2 = []"
    using u32.decodes_last [where a = m and d = d1] by (auto simp: yields_def)
  moreover have "(if maxSupportedFrame < m then maxSupportedFrame else m) = min m maxSupportedFrame"
    by (simp add: min_def leD) (simp add: not_less)
  ultimately show ?thesis
    using d1 versionedDecoder_bytes [of "uint_bytes 0 @ le_bytes 4 (unat m)"]
    by (simp add: decodeHello_def d_remaining_rest)
qed

end
