(* ===== verification/Waiters.thy ===== *)
theory Waiters
  imports Go_Prelude
begin

text \<open>
  Correlation of completions with the calls that wait for them. The pump keeps three tables of waiters
  (\<^verbatim>\<open>internal/pump/pump.go\<close>: KV, actor operations, SQLite), the socket client one
  (\<^verbatim>\<open>internal/sqlitesocket/client.go\<close>): a counter that wraps around and a map from ids to the
  channel of the caller, \<open>nil\<close> marking a caller that has given up. The four differ in the width of the id
  only, so they are instances of one model; each critical section is one operation.

  The locale \<open>waiter_table\<close> is what the callers rely on. Its lemmas are about whole histories of
  operations: who owns an id is read off the history alone.
\<close>

section \<open>The table\<close>

record ('i, 'w) waiters =
  wt_next :: 'i
  wt_pending :: "'i \<rightharpoonup> 'w option"

definition noWaiters :: "('a :: len word, 'w) waiters" where
  "noWaiters = \<lparr>wt_next = 0, wt_pending = Map.empty\<rparr>"

text \<open>The loop of the \<open>add\<close> functions: it never returns when every id is taken.\<close>

partial_function (option) nextFreeID :: "'a :: len word \<Rightarrow> ('a word \<rightharpoonup> 'w option) \<Rightarrow> 'a word option" where
  "nextFreeID counter pending =
     (let i = counter + 1 in
      if i = 0 then nextFreeID i pending
      else if pending i \<noteq> None then nextFreeID i pending
      else Some i)"

definition addWaiter :: "('a :: len word, 'w) waiters \<Rightarrow> 'w \<Rightarrow> ('a word \<times> ('a word, 'w) waiters) option" where
  "addWaiter t w =
     map_option (\<lambda>i. (i, \<lparr>wt_next = i, wt_pending = (wt_pending t)(i \<mapsto> Some w)\<rparr>))
       (nextFreeID (wt_next t) (wt_pending t))"

definition removeWaiter :: "('a :: len word, 'w) waiters \<Rightarrow> 'a word \<Rightarrow> ('a word, 'w) waiters" where
  "removeWaiter t i = t\<lparr>wt_pending := (wt_pending t)(i := None)\<rparr>"

definition abandonWaiter :: "('a :: len word, 'w) waiters \<Rightarrow> 'a word \<Rightarrow> ('a word, 'w) waiters" where
  "abandonWaiter t i = (if wt_pending t i \<noteq> None then t\<lparr>wt_pending := (wt_pending t)(i \<mapsto> None)\<rparr> else t)"

text \<open>
  A completion looks the caller up and drops the entry, unless more chunks are to come. \<open>None\<close> stands for
  both an absent entry and an abandoned one: neither has a channel to send on.
\<close>

definition takeWaiter :: "('a :: len word, 'w) waiters \<Rightarrow> 'a word \<Rightarrow> bool \<Rightarrow> 'w option \<times> ('a word, 'w) waiters" where
  "takeWaiter t i final =
     ((case wt_pending t i of None \<Rightarrow> None | Some w \<Rightarrow> w), if final then removeWaiter t i else t)"

definition failWaiters :: "('a :: len word, 'w) waiters \<Rightarrow> ('a word, 'w) waiters" where
  "failWaiters t = t\<lparr>wt_pending := Map.empty\<rparr>"

definition addKVWaiter :: "(u64, 'w) waiters \<Rightarrow> 'w \<Rightarrow> (u64 \<times> (u64, 'w) waiters) option" where
  "addKVWaiter = addWaiter"

definition removeKVWaiter :: "(u64, 'w) waiters \<Rightarrow> u64 \<Rightarrow> (u64, 'w) waiters" where
  "removeKVWaiter = removeWaiter"

definition failKVWaiters :: "(u64, 'w) waiters \<Rightarrow> (u64, 'w) waiters" where
  "failKVWaiters = failWaiters"

definition addActorIntentWaiter :: "(u64, 'w) waiters \<Rightarrow> 'w \<Rightarrow> (u64 \<times> (u64, 'w) waiters) option" where
  "addActorIntentWaiter = addWaiter"

definition removeActorIntentWaiter :: "(u64, 'w) waiters \<Rightarrow> u64 \<Rightarrow> (u64, 'w) waiters" where
  "removeActorIntentWaiter = removeWaiter"

definition abandonActorIntentWaiter :: "(u64, 'w) waiters \<Rightarrow> u64 \<Rightarrow> (u64, 'w) waiters" where
  "abandonActorIntentWaiter = abandonWaiter"

definition failActorIntentWaiters :: "(u64, 'w) waiters \<Rightarrow> (u64, 'w) waiters" where
  "failActorIntentWaiters = failWaiters"

definition addSQLiteWaiter :: "(u64, 'w) waiters \<Rightarrow> 'w \<Rightarrow> (u64 \<times> (u64, 'w) waiters) option" where
  "addSQLiteWaiter = addWaiter"

definition removeSQLiteWaiter :: "(u64, 'w) waiters \<Rightarrow> u64 \<Rightarrow> (u64, 'w) waiters" where
  "removeSQLiteWaiter = removeWaiter"

definition abandonSQLiteWaiter :: "(u64, 'w) waiters \<Rightarrow> u64 \<Rightarrow> (u64, 'w) waiters" where
  "abandonSQLiteWaiter = abandonWaiter"

definition failSQLiteWaiters :: "(u64, 'w) waiters \<Rightarrow> (u64, 'w) waiters" where
  "failSQLiteWaiters = failWaiters"

definition addPending :: "(u32, 'w) waiters \<Rightarrow> 'w \<Rightarrow> (u32 \<times> (u32, 'w) waiters) option" where
  "addPending = addWaiter"

definition removePending :: "(u32, 'w) waiters \<Rightarrow> u32 \<Rightarrow> (u32, 'w) waiters" where
  "removePending = removeWaiter"

definition abandonPending :: "(u32, 'w) waiters \<Rightarrow> u32 \<Rightarrow> (u32, 'w) waiters" where
  "abandonPending = abandonWaiter"

lemmas waiter_defs = addKVWaiter_def removeKVWaiter_def failKVWaiters_def addActorIntentWaiter_def
  removeActorIntentWaiter_def abandonActorIntentWaiter_def failActorIntentWaiters_def addSQLiteWaiter_def
  removeSQLiteWaiter_def abandonSQLiteWaiter_def failSQLiteWaiters_def addPending_def removePending_def
  abandonPending_def


section \<open>The search for an id\<close>

lemma nextFreeID_sound:
  assumes "nextFreeID counter pending = Some i"
  shows "i \<noteq> 0 \<and> pending i = None"
  by (rule nextFreeID.raw_induct [OF _ assms]) (auto simp: Let_def split: if_splits)

text \<open>The distance from the counter to a free id shrinks with every round, so the loop reaches a free id.\<close>

lemma nextFreeID_returns:
  fixes f counter :: "'a :: len word"
  assumes "f \<noteq> 0" "pending f = None"
  shows "\<exists>i. nextFreeID counter pending = Some i"
proof (induction "unat (f - counter - 1)" arbitrary: counter rule: less_induct)
  case less
  show ?case
  proof (cases "counter + 1 = f")
    case True
    with assms show ?thesis by (simp add: nextFreeID.simps [of counter] Let_def)
  next
    case False
    then have nz: "f - counter - 1 \<noteq> 0" by (simp add: algebra_simps)
    have "unat (f - counter - 1 - 1) = unat (f - counter - 1) - 1" by (rule unat_minus_one [OF nz])
    moreover have "unat (f - counter - 1) \<noteq> 0" using nz unsigned_eq_0_iff by blast
    ultimately have "unat (f - counter - 1 - 1) < unat (f - counter - 1)" by linarith
    then have "\<exists>i. nextFreeID (counter + 1) pending = Some i"
      by (intro less) (simp add: algebra_simps)
    then show ?thesis by (cases "counter + 1 = 0") (simp_all add: nextFreeID.simps [of counter] Let_def)
  qed
qed

lemma nextFreeID_total:
  fixes counter :: "'a :: len word"
  assumes "card (dom pending) < 2 ^ LENGTH('a) - 1"
  shows "\<exists>i. nextFreeID counter pending = Some i"
proof -
  have "card (insert 0 (dom pending)) \<le> card (dom pending) + 1"
    by (simp add: card_insert_if)
  then have "insert 0 (dom pending) \<noteq> UNIV"
    using assms by (auto simp: card_word)
  then obtain f where "f \<noteq> 0" "pending f = None" by auto
  then show ?thesis by (rule nextFreeID_returns)
qed


section \<open>The contract of a table\<close>

datatype ('i, 'w) waiter_op =
    OpAdd 'i 'w
  | OpAbandon 'i
  | OpRemove 'i
  | OpTake 'i bool "'w option"

text \<open>
  Read off a history, latest operation first: the caller that owns an id, and whether the id is in use
  (an abandoned id still is, until its completion has arrived).
\<close>

primrec owner :: "('i, 'w) waiter_op list \<Rightarrow> 'i \<Rightarrow> 'w option" where
  "owner [] i = None"
| "owner (e # h) i =
     (case e of
        OpAdd j w \<Rightarrow> if j = i then Some w else owner h i
      | OpAbandon j \<Rightarrow> if j = i then None else owner h i
      | OpRemove j \<Rightarrow> if j = i then None else owner h i
      | OpTake j final _ \<Rightarrow> if j = i \<and> final then None else owner h i)"

primrec in_use :: "('i, 'w) waiter_op list \<Rightarrow> 'i \<Rightarrow> bool" where
  "in_use [] i = False"
| "in_use (e # h) i =
     (case e of
        OpAdd j w \<Rightarrow> j = i \<or> in_use h i
      | OpAbandon j \<Rightarrow> in_use h i
      | OpRemove j \<Rightarrow> j \<noteq> i \<and> in_use h i
      | OpTake j final _ \<Rightarrow> \<not> (j = i \<and> final) \<and> in_use h i)"

text \<open>
  A history is correct when every id handed out was not in use, and every completion was given to
  the owner of its id.
\<close>

primrec correct_history :: "'i \<Rightarrow> ('i, 'w) waiter_op list \<Rightarrow> bool" where
  "correct_history reserved [] \<longleftrightarrow> True"
| "correct_history reserved (e # h) \<longleftrightarrow>
     correct_history reserved h \<and>
     (case e of
        OpAdd i w \<Rightarrow> i \<noteq> reserved \<and> \<not> in_use h i
      | OpTake i final r \<Rightarrow> r = owner h i
      | _ \<Rightarrow> True)"

text \<open>
  Calls on a table, and the run of a list of calls: the table it leads to with its history. It has no
  result when an \<open>add\<close> does not return.
\<close>

datatype ('i, 'w) waiter_call = CallAdd 'w | CallAbandon 'i | CallRemove 'i | CallComplete 'i bool

fun waiter_run ::
  "('t \<Rightarrow> 'w \<Rightarrow> ('i \<times> 't) option) \<Rightarrow> ('t \<Rightarrow> 'i \<Rightarrow> 't) \<Rightarrow> ('t \<Rightarrow> 'i \<Rightarrow> 't) \<Rightarrow> ('t \<Rightarrow> 'i \<Rightarrow> bool \<Rightarrow> 'w option \<times> 't) \<Rightarrow>
   't \<Rightarrow> ('i, 'w) waiter_op list \<Rightarrow> ('i, 'w) waiter_call list \<Rightarrow> ('t \<times> ('i, 'w) waiter_op list) option"
where
  "waiter_run add abandon remove complete t h [] = Some (t, h)"
| "waiter_run add abandon remove complete t h (c # cs) =
     (case c of
        CallAdd w \<Rightarrow>
          (case add t w of
             None \<Rightarrow> None
           | Some (i, t') \<Rightarrow> waiter_run add abandon remove complete t' (OpAdd i w # h) cs)
      | CallAbandon i \<Rightarrow> waiter_run add abandon remove complete (abandon t i) (OpAbandon i # h) cs
      | CallRemove i \<Rightarrow> waiter_run add abandon remove complete (remove t i) (OpRemove i # h) cs
      | CallComplete i final \<Rightarrow>
          (case complete t i final of
             (r, t') \<Rightarrow> waiter_run add abandon remove complete t' (OpTake i final r # h) cs))"

locale waiter_table =
  fixes look :: "'t \<Rightarrow> 'i \<rightharpoonup> 'w option" and reserved :: 'i and initial :: 't
    and add :: "'t \<Rightarrow> 'w \<Rightarrow> ('i \<times> 't) option"
    and abandon :: "'t \<Rightarrow> 'i \<Rightarrow> 't" and remove :: "'t \<Rightarrow> 'i \<Rightarrow> 't"
    and complete :: "'t \<Rightarrow> 'i \<Rightarrow> bool \<Rightarrow> 'w option \<times> 't"
  assumes initial_look: "look initial = Map.empty"
    and add_look: "add t w = Some (i, t') \<Longrightarrow> look t i = None \<and> i \<noteq> reserved \<and> look t' = (look t)(i \<mapsto> Some w)"
    and abandon_look: "look (abandon t i) = (if look t i = None then look t else (look t)(i \<mapsto> None))"
    and remove_look: "look (remove t i) = (look t)(i := None)"
    and complete_look: "complete t i final = (r, t') \<Longrightarrow>
      r = Option.bind (look t i) id \<and> look t' = (if final then (look t)(i := None) else look t)"
begin

text \<open>The table holds what the history says.\<close>

definition agrees :: "'t \<Rightarrow> ('i, 'w) waiter_op list \<Rightarrow> bool" where
  "agrees t h \<longleftrightarrow> (\<forall>i. (look t i \<noteq> None \<longleftrightarrow> in_use h i) \<and> Option.bind (look t i) id = owner h i)"

lemma agrees_initial: "agrees initial []"
  by (simp add: agrees_def initial_look)

lemma agreesD: "agrees t h \<Longrightarrow> (look t i \<noteq> None \<longleftrightarrow> in_use h i) \<and> Option.bind (look t i) id = owner h i"
  by (simp add: agrees_def)

lemma agrees_add: "agrees t h \<Longrightarrow> add t w = Some (i, t') \<Longrightarrow> agrees t' (OpAdd i w # h)"
  using add_look [of t w i t'] by (auto simp: agrees_def)

lemma agrees_abandon: "agrees t h \<Longrightarrow> agrees (abandon t i) (OpAbandon i # h)"
  using agreesD [of t h i] by (cases "look t i") (auto simp: agrees_def abandon_look)

lemma agrees_remove: "agrees t h \<Longrightarrow> agrees (remove t i) (OpRemove i # h)"
  by (auto simp: agrees_def remove_look)

lemma agrees_complete: "agrees t h \<Longrightarrow> complete t i final = (r, t') \<Longrightarrow> agrees t' (OpTake i final r # h)"
  using complete_look [of t i final r t'] by (auto simp: agrees_def)

lemma run_correct:
  "agrees t h \<Longrightarrow> correct_history reserved h \<Longrightarrow> waiter_run add abandon remove complete t h cs = Some (t', h') \<Longrightarrow>
   agrees t' h' \<and> correct_history reserved h'"
proof (induction cs arbitrary: t h)
  case (Cons c cs)
  show ?case
  proof (cases c)
    case (CallAdd w)
    with Cons.prems obtain i u where u: "add t w = Some (i, u)"
      by (auto split: option.splits)
    with CallAdd Cons.prems show ?thesis
      using add_look [OF u] agreesD [of t h i]
      by (intro Cons.IH [OF agrees_add [OF Cons.prems(1) u]]) auto
  next
    case (CallComplete i final)
    obtain r u where u: "complete t i final = (r, u)" by force
    with CallComplete Cons.prems show ?thesis
      using complete_look [OF u] agreesD [of t h i]
      by (intro Cons.IH [OF agrees_complete [OF Cons.prems(1) u]]) auto
  next
    case (CallAbandon i)
    with Cons.prems show ?thesis
      by (intro Cons.IH [OF agrees_abandon [OF Cons.prems(1), of i]]) auto
  next
    case (CallRemove i)
    with Cons.prems show ?thesis
      by (intro Cons.IH [OF agrees_remove [OF Cons.prems(1), of i]]) auto
  qed
qed simp

lemma run_from_initial:
  "waiter_run add abandon remove complete initial [] cs = Some (t, h) \<Longrightarrow> correct_history reserved h"
  using run_correct [OF agrees_initial] by simp

end


section \<open>The tables of the program\<close>

lemma waiters_laws: "waiter_table wt_pending (0 :: 'a :: len word) noWaiters addWaiter abandonWaiter removeWaiter takeWaiter"
proof
  fix t t' :: "('a word, 'w) waiters" and w i assume "addWaiter t w = Some (i, t')"
  then show "wt_pending t i = None \<and> i \<noteq> 0 \<and> wt_pending t' = (wt_pending t)(i \<mapsto> Some w)"
    using nextFreeID_sound [of "wt_next t" "wt_pending t" i] by (auto simp: addWaiter_def)
next
  fix t t' :: "('a word, 'w) waiters" and i final r assume "takeWaiter t i final = (r, t')"
  then show "r = Option.bind (wt_pending t i) id \<and>
      wt_pending t' = (if final then (wt_pending t)(i := None) else wt_pending t)"
    by (auto simp: takeWaiter_def removeWaiter_def split: option.splits)
qed (auto simp: noWaiters_def abandonWaiter_def removeWaiter_def)

interpretation sq_waiters: waiter_table wt_pending "0 :: u64" noWaiters addSQLiteWaiter abandonSQLiteWaiter
    removeSQLiteWaiter takeWaiter
  unfolding waiter_defs by (rule waiters_laws)

interpretation in_waiters: waiter_table wt_pending "0 :: u64" noWaiters addActorIntentWaiter abandonActorIntentWaiter
    removeActorIntentWaiter takeWaiter
  unfolding waiter_defs by (rule waiters_laws)

text \<open>A KV caller that gives up removes its entry: that table has no abandoned entries.\<close>

interpretation kv_waiters: waiter_table wt_pending "0 :: u64" noWaiters addKVWaiter abandonWaiter removeKVWaiter takeWaiter
  unfolding waiter_defs by (rule waiters_laws)

interpretation socket_waiters: waiter_table wt_pending "0 :: u32" noWaiters addPending abandonPending removePending takeWaiter
  unfolding waiter_defs by (rule waiters_laws)

text \<open>C5: whatever calls are made on the SQLite table of the pump, in whatever order, an id is only handed out
  when no earlier request holds it any more, abandoned requests included, and every chunk of a result goes to the caller that
  obtained the id, or to nobody once that caller has given up or the final chunk has come.\<close>

theorem sqlite_waiters_no_crosstalk:
  assumes "waiter_run addSQLiteWaiter abandonSQLiteWaiter removeSQLiteWaiter takeWaiter noWaiters [] calls = Some (t, h)"
  shows "correct_history 0 h"
  using assms by (rule sq_waiters.run_from_initial)

theorem sqlite_waiters_no_crosstalk_witness:
  "\<exists>t. waiter_run addSQLiteWaiter abandonSQLiteWaiter removeSQLiteWaiter takeWaiter noWaiters []
      [CallAdd (10 :: nat), CallComplete 1 False, CallAbandon 1, CallAdd 11, CallComplete 1 True, CallComplete 2 True] =
    Some (t, [OpTake 2 True (Some 11), OpTake 1 True None, OpAdd 2 11, OpAbandon 1, OpTake 1 False (Some 10), OpAdd 1 10]) \<and>
    correct_history (0 :: u64)
      [OpTake 2 True (Some 11), OpTake 1 True None, OpAdd 2 11, OpAbandon 1, OpTake 1 False (Some 10), OpAdd 1 (10 :: nat)]"
proof -
  have "\<exists>t. waiter_run addSQLiteWaiter abandonSQLiteWaiter removeSQLiteWaiter takeWaiter noWaiters []
      [CallAdd (10 :: nat), CallComplete 1 False, CallAbandon 1, CallAdd 11, CallComplete 1 True, CallComplete 2 True] =
    Some (t, [OpTake 2 True (Some 11), OpTake 1 True None, OpAdd 2 11, OpAbandon 1, OpTake 1 False (Some 10), OpAdd 1 10])"
    by (simp add: waiter_defs addWaiter_def noWaiters_def nextFreeID.simps takeWaiter_def abandonWaiter_def removeWaiter_def)
  then show ?thesis using sqlite_waiters_no_crosstalk by blast
qed

text \<open>The same for the requests of the socket client, whose ids are only 32 bits wide and wrap around.\<close>

theorem socket_no_crosstalk:
  assumes "waiter_run addPending abandonPending removePending takeWaiter noWaiters [] calls = Some (t, h)"
  shows "correct_history 0 h"
  using assms by (rule socket_waiters.run_from_initial)

theorem socket_no_crosstalk_witness:
  "\<exists>t. waiter_run addPending abandonPending removePending takeWaiter noWaiters []
      [CallAdd (10 :: nat), CallAdd 11, CallComplete 1 True, CallRemove 2] =
    Some (t, [OpRemove 2, OpTake 1 True (Some 10), OpAdd 2 11, OpAdd 1 10]) \<and>
    correct_history (0 :: u32) [OpRemove 2, OpTake 1 True (Some 10), OpAdd 2 11, OpAdd 1 (10 :: nat)]"
proof -
  have "\<exists>t. waiter_run addPending abandonPending removePending takeWaiter noWaiters []
      [CallAdd (10 :: nat), CallAdd 11, CallComplete 1 True, CallRemove 2] =
    Some (t, [OpRemove 2, OpTake 1 True (Some 10), OpAdd 2 11, OpAdd 1 10])"
    by (simp add: waiter_defs addWaiter_def noWaiters_def nextFreeID.simps takeWaiter_def removeWaiter_def)
  then show ?thesis using socket_no_crosstalk by blast
qed

text \<open>C27: handing out an id always ends while fewer than \<open>2^32 - 1\<close> requests are in flight on the socket.\<close>

theorem addPending_returns:
  assumes "card (dom (wt_pending t)) < 2 ^ 32 - 1"
  shows "\<exists>i t'. addPending t w = Some (i, t') \<and> i \<noteq> 0 \<and> wt_pending t i = None"
proof -
  obtain i where "nextFreeID (wt_next t) (wt_pending t) = Some i"
    using nextFreeID_total [of "wt_pending t" "wt_next t"] assms by auto
  then show ?thesis
    using nextFreeID_sound [of "wt_next t" "wt_pending t" i] by (simp add: waiter_defs addWaiter_def)
qed

theorem addPending_returns_witness:
  "\<exists>i t'. addPending \<lparr>wt_next = 0xFFFFFFFF, wt_pending = [1 \<mapsto> None]\<rparr> (5 :: nat) = Some (i, t') \<and> i \<noteq> 0 \<and> i \<noteq> 1"
  using addPending_returns [of "\<lparr>wt_next = 0xFFFFFFFF, wt_pending = [1 \<mapsto> None]\<rparr>" "5 :: nat"]
  by (auto split: if_splits)

end
