(* ===== verification/Event_Queues.thy ===== *)
theory Event_Queues
  imports Wire_Types
begin

text \<open>
  The queues of \<^verbatim>\<open>internal/pump/pump.go\<close>: the mailbox between the poller and an actor worker
  (\<open>actorMailbox\<close>), the queue of metric observations (\<open>hookDispatcher\<close>) and the body of an HTTP request
  (\<open>httpRequestBody\<close>). A critical section is one function on the record that the mutex guards. Blocking
  is explicit: a section that finds nothing says so, and the goroutine around it then waits. The mailbox protocol is given
  as a step relation in which the append and the signal of \<open>put\<close>, and the check and the wait of \<open>take\<close>, interleave
  with any number of other puts.
\<close>

section \<open>First in, first out\<close>

text \<open>What a client of a queue relies on.\<close>

locale fifo_queue =
  fixes contents :: "'q \<Rightarrow> 'a list" and enqueue :: "'q \<Rightarrow> 'a \<Rightarrow> 'q" and dequeue :: "'q \<Rightarrow> ('a \<times> 'q) option"
    and accepts :: "'q \<Rightarrow> bool"
  assumes enqueue_contents: "contents (enqueue q x) = (if accepts q then contents q @ [x] else contents q)"
    and dequeue_None: "dequeue q = None \<longleftrightarrow> contents q = []"
    and dequeue_rest: "dequeue q = Some (x, q') \<Longrightarrow> contents q = x # contents q'"
    and accepts_stable: "accepts (enqueue q x) = accepts q" "dequeue q = Some (x, q') \<Longrightarrow> accepts q' = accepts q"
begin

text \<open>Any interleaving of enqueues (\<open>Some x\<close>) and dequeues (\<open>None\<close>), with what the dequeues returned.\<close>

primrec run :: "'q \<Rightarrow> 'a option list \<Rightarrow> 'a list \<times> 'q" where
  "run q [] = ([], q)"
| "run q (c # cs) =
     (case c of
        Some x \<Rightarrow> run (enqueue q x) cs
      | None \<Rightarrow> (case dequeue q of
                 None \<Rightarrow> run q cs
               | Some (x, q') \<Rightarrow> let (xs, q'') = run q' cs in (x # xs, q'')))"

lemma run_order:
  "accepts q \<Longrightarrow> run q cs = (xs, q') \<Longrightarrow> xs @ contents q' = contents q @ [x. Some x \<leftarrow> cs]"
proof (induction cs arbitrary: q xs)
  case (Cons c cs)
  show ?case
  proof (cases c)
    case None
    show ?thesis
    proof (cases "dequeue q")
      case None
      with Cons \<open>c = None\<close> show ?thesis by simp
    next
      case (Some p)
      then obtain x r where r: "dequeue q = Some (x, r)" by (cases p) auto
      obtain ys where ys: "run r cs = (ys, q')" "xs = x # ys"
        using Cons.prems(2) \<open>c = None\<close> r by (auto split: prod.splits)
      have "accepts r" using accepts_stable(2) [OF r] Cons.prems(1) by simp
      from Cons.IH [OF this ys(1)] ys(2) dequeue_rest [OF r] \<open>c = None\<close> show ?thesis by simp
    qed
  next
    case (Some x)
    with Cons.prems Cons.IH [of "enqueue q x"] show ?thesis
      by (simp add: enqueue_contents accepts_stable)
  qed
qed simp

end


section \<open>The mailbox of an actor\<close>

record 'e actorMailbox =
  mb_queue :: "'e list"
  mb_signal :: bool

definition newActorMailbox :: "'e actorMailbox" where
  "newActorMailbox = \<lparr>mb_queue = [], mb_signal = False\<rparr>"

text \<open>\<open>put\<close>: the locked append, then the non-blocking send on the one-place signal channel.\<close>

definition put_append :: "'e actorMailbox \<Rightarrow> 'e \<Rightarrow> 'e actorMailbox" where
  "put_append m e = m\<lparr>mb_queue := mb_queue m @ [e]\<rparr>"

definition put_signal :: "'e actorMailbox \<Rightarrow> 'e actorMailbox" where
  "put_signal m = m\<lparr>mb_signal := True\<rparr>"

definition mailbox_put :: "'e actorMailbox \<Rightarrow> 'e \<Rightarrow> 'e actorMailbox" where
  "mailbox_put m e = put_signal (put_append m e)"

text \<open>The locked section of \<open>take\<close>; without an event the caller goes on to wait for the signal.\<close>

definition mailbox_take :: "'e actorMailbox \<Rightarrow> ('e \<times> 'e actorMailbox) option" where
  "mailbox_take m = (case mb_queue m of [] \<Rightarrow> None | e # q \<Rightarrow> Some (e, m\<lparr>mb_queue := q\<rparr>))"

lemma mailbox_put_queue [simp]: "mb_queue (mailbox_put m e) = mb_queue m @ [e]"
  by (simp add: mailbox_put_def put_signal_def put_append_def)

interpretation mailbox: fifo_queue mb_queue mailbox_put mailbox_take "\<lambda>_. True"
  by unfold_locales (auto simp: mailbox_take_def split: list.splits)

text \<open>
  The protocol around it: \<open>ms_signals\<close> counts the puts that have appended and not signalled yet;
  the log fields record what has been put and what has been taken.
\<close>

datatype taker = TakerIdle | TakerChecking | TakerWaiting

record 'e mailbox_state =
  ms_box :: "'e actorMailbox"
  ms_signals :: nat
  ms_taker :: taker
  ms_put :: "'e list"
  ms_taken :: "'e list"

inductive mailbox_step :: "'e mailbox_state \<Rightarrow> 'e mailbox_state \<Rightarrow> bool" where
  append: "mailbox_step s (s\<lparr>ms_box := put_append (ms_box s) e, ms_signals := Suc (ms_signals s), ms_put := ms_put s @ [e]\<rparr>)"
| signal: "ms_signals s = Suc n \<Longrightarrow> mailbox_step s (s\<lparr>ms_box := put_signal (ms_box s), ms_signals := n\<rparr>)"
| call: "ms_taker s = TakerIdle \<Longrightarrow> mailbox_step s (s\<lparr>ms_taker := TakerChecking\<rparr>)"
| found: "ms_taker s = TakerChecking \<Longrightarrow> mailbox_take (ms_box s) = Some (e, m) \<Longrightarrow>
    mailbox_step s (s\<lparr>ms_box := m, ms_taker := TakerIdle, ms_taken := ms_taken s @ [e]\<rparr>)"
| empty: "ms_taker s = TakerChecking \<Longrightarrow> mailbox_take (ms_box s) = None \<Longrightarrow> mailbox_step s (s\<lparr>ms_taker := TakerWaiting\<rparr>)"
| wake: "ms_taker s = TakerWaiting \<Longrightarrow> mb_signal (ms_box s) \<Longrightarrow>
    mailbox_step s (s\<lparr>ms_box := (ms_box s)\<lparr>mb_signal := False\<rparr>, ms_taker := TakerChecking\<rparr>)"
| cancelled: "ms_taker s = TakerWaiting \<Longrightarrow> mailbox_step s (s\<lparr>ms_taker := TakerIdle\<rparr>)"

definition mailbox_init :: "'e mailbox_state" where
  "mailbox_init = \<lparr>ms_box = newActorMailbox, ms_signals = 0, ms_taker = TakerIdle, ms_put = [], ms_taken = []\<rparr>"

inductive_cases mailbox_stepE: "mailbox_step s s'"

definition mailbox_inv :: "'e mailbox_state \<Rightarrow> bool" where
  "mailbox_inv s \<longleftrightarrow>
     ms_taken s @ mb_queue (ms_box s) = ms_put s \<and>
     (ms_taker s = TakerWaiting \<and> mb_queue (ms_box s) \<noteq> [] \<longrightarrow> mb_signal (ms_box s) \<or> ms_signals s > 0)"

lemma mailbox_inv_step: "mailbox_step s s' \<Longrightarrow> mailbox_inv s \<Longrightarrow> mailbox_inv s'"
  by (erule mailbox_stepE)
    (auto simp: mailbox_inv_def put_append_def put_signal_def mailbox_take_def split: list.splits)

lemma mailbox_inv_init: "mailbox_inv mailbox_init"
  by (simp add: mailbox_inv_def mailbox_init_def newActorMailbox_def)

interpretation mailbox_states: kept_by_steps mailbox_step mailbox_inv
  by unfold_locales (rule mailbox_inv_step)

lemma mailbox_inv_reachable: "mailbox_step\<^sup>*\<^sup>* mailbox_init s \<Longrightarrow> mailbox_inv s"
  using mailbox_states.run_good mailbox_inv_init by blast

text \<open>C8: in every interleaving of puts with the taker, events are taken in the order they were put and
  none is lost or repeated, and the taker never sleeps on a non-empty mailbox: once the puts have
  signalled, a waiting taker with events to take has its wake-up pending.\<close>

theorem mailbox_delivers:
  assumes "mailbox_step\<^sup>*\<^sup>* mailbox_init s"
  shows "ms_taken s @ mb_queue (ms_box s) = ms_put s \<and>
    (ms_taker s = TakerWaiting \<and> mb_queue (ms_box s) \<noteq> [] \<and> ms_signals s = 0 \<longrightarrow>
       mailbox_step s (s\<lparr>ms_box := (ms_box s)\<lparr>mb_signal := False\<rparr>, ms_taker := TakerChecking\<rparr>))"
  using mailbox_inv_reachable [OF assms] by (auto simp: mailbox_inv_def intro: mailbox_step.wake)

theorem mailbox_delivers_witness:
  "\<exists>s. mailbox_step\<^sup>*\<^sup>* mailbox_init s \<and> ms_put s = [1 :: nat, 2] \<and> ms_taken s = [1] \<and> mb_queue (ms_box s) = [2]"
proof -
  let ?s1 = "mailbox_init\<lparr>ms_taker := TakerChecking\<rparr> :: nat mailbox_state"
  let ?s2 = "?s1\<lparr>ms_box := put_append newActorMailbox 1, ms_signals := 1, ms_put := [1]\<rparr>"
  let ?s3 = "?s2\<lparr>ms_box := put_append (put_append newActorMailbox 1) 2, ms_signals := 2, ms_put := [1, 2]\<rparr>"
  let ?s4 = "?s3\<lparr>ms_box := newActorMailbox\<lparr>mb_queue := [2]\<rparr>, ms_taker := TakerIdle, ms_taken := [1]\<rparr>"
  have "mailbox_step mailbox_init ?s1"
    using mailbox_step.call [of mailbox_init] by (simp add: mailbox_init_def)
  moreover have "mailbox_step ?s1 ?s2"
    using mailbox_step.append [of ?s1 1] by (simp add: mailbox_init_def)
  moreover have "mailbox_step ?s2 ?s3"
    using mailbox_step.append [of ?s2 2] by (simp add: mailbox_init_def numeral_2_eq_2)
  moreover have "mailbox_step ?s3 ?s4"
    using mailbox_step.found [of ?s3 1 "newActorMailbox\<lparr>mb_queue := [2]\<rparr>"]
    by (simp add: mailbox_init_def mailbox_take_def put_append_def newActorMailbox_def)
  ultimately have r: "mailbox_step\<^sup>*\<^sup>* mailbox_init ?s4" by (meson converse_rtranclp_into_rtranclp rtranclp.rtrancl_refl)
  from mailbox_delivers [OF r] r show ?thesis
    by (intro exI [of _ ?s4]) (simp add: newActorMailbox_def)
qed


section \<open>The queue of observations\<close>

datatype hookKind = hookCounter | hookGauge | hookDuration

record hookObservation =
  ho_kind :: hookKind
  ho_name :: string
  ho_value :: i64
  ho_duration :: i64

record hookDispatcher =
  hd_queue :: "hookObservation list"
  hd_stopNow :: bool
  hd_started :: bool
  hd_done :: bool

definition newHookDispatcher :: "bool \<Rightarrow> hookDispatcher option" where
  "newHookDispatcher sink =
     (if sink then Some \<lparr>hd_queue = [], hd_stopNow = False, hd_started = False, hd_done = False\<rparr> else None)"

definition hook_start :: "hookDispatcher \<Rightarrow> hookDispatcher" where
  "hook_start d = d\<lparr>hd_started := True\<rparr>"

definition hook_enqueue :: "hookDispatcher \<Rightarrow> hookObservation \<Rightarrow> hookDispatcher" where
  "hook_enqueue d observation = (if \<not> hd_stopNow d then d\<lparr>hd_queue := hd_queue d @ [observation]\<rparr> else d)"

definition hook_stop :: "hookDispatcher \<Rightarrow> hookDispatcher" where
  "hook_stop d = d\<lparr>hd_stopNow := True\<rparr>"

text \<open>One round of \<open>run\<close>: wait, exit, or an observation for the sink.\<close>

datatype hook_round = HookWait | HookExit | HookCall hookObservation

definition hook_run_round :: "hookDispatcher \<Rightarrow> hook_round \<times> hookDispatcher" where
  "hook_run_round d =
     (case hd_queue d of
        [] \<Rightarrow> if hd_stopNow d then (HookExit, d\<lparr>hd_done := True\<rparr>) else (HookWait, d)
      | observation # queue \<Rightarrow> (HookCall observation, d\<lparr>hd_queue := queue\<rparr>))"

definition hook_next :: "hookDispatcher \<Rightarrow> (hookObservation \<times> hookDispatcher) option" where
  "hook_next d = (case hook_run_round d of (HookCall observation, d') \<Rightarrow> Some (observation, d') | _ \<Rightarrow> None)"

interpretation hook: fifo_queue hd_queue hook_enqueue hook_next "\<lambda>d. \<not> hd_stopNow d"
  by unfold_locales (auto simp: hook_enqueue_def hook_next_def hook_run_round_def split: list.splits if_splits)

text \<open>The loop after \<open>stop\<close>: every queued observation reaches the sink, in order, before the dispatcher is done.\<close>

function hook_drain :: "hookDispatcher \<Rightarrow> hookObservation list \<times> hookDispatcher" where
  "hook_drain d =
     (case hook_run_round d of
        (HookCall observation, d') \<Rightarrow> let (os, d'') = hook_drain d' in (observation # os, d'')
      | (_, d') \<Rightarrow> ([], d'))"
  by pat_completeness auto
termination
  by (relation "measure (\<lambda>d. length (hd_queue d))") (auto simp: hook_run_round_def split: list.splits if_splits)

declare hook_drain.simps [simp del]

text \<open>C39: stopping the dispatcher loses nothing: what was enqueued before the stop is handed to the sink in
  order, what comes after it is ignored, and only then does the dispatcher report that it is done.\<close>

theorem hook_stop_drains:
  "hook_drain (hook_stop d) = (hd_queue d, (hook_stop d)\<lparr>hd_queue := [], hd_done := True\<rparr>) \<and>
   hook_enqueue (hook_stop d) observation = hook_stop d"
proof -
  have "hd_stopNow d \<Longrightarrow> hook_drain d = (hd_queue d, d\<lparr>hd_queue := [], hd_done := True\<rparr>)" for d
  proof (induction "hd_queue d" arbitrary: d)
    case Nil
    then show ?case by (simp add: hook_drain.simps [of d] hook_run_round_def)
  next
    case (Cons observation queue)
    from Cons(2) [symmetric] Cons(1) [of "d\<lparr>hd_queue := queue\<rparr>"] Cons(3) show ?case
      by (simp add: hook_drain.simps [of d] hook_run_round_def)
  qed
  then show ?thesis by (simp add: hook_stop_def hook_enqueue_def)
qed

end
