(* ===== verification/Http_Body.thy ===== *)
theory Http_Body
  imports Wire_Types
begin

text \<open>
  \<open>httpRequestBody\<close> of \<^verbatim>\<open>internal/pump/pump.go\<close>: the body of an actor HTTP request, filled by
  the poller chunk by chunk and read by the handler with buffers of any size. The wake channel, closed and replaced by
  \<open>signalLocked\<close>, is the number of the current channel. The specification is a byte stream: what has been read,
  followed by what is left, is what was appended before the body was finished, aborted or closed.
\<close>

datatype 'c read_error = ErrClosedPipe | ReadEOF | ReadCause 'c

record 'c httpRequestBody =
  hb_chunks :: "bytes list"
  hb_offset :: nat
  hb_finished :: bool
  hb_err :: "'c option"
  hb_closed :: bool
  hb_wake :: nat

definition newHTTPRequestBody :: "'c httpRequestBody" where
  "newHTTPRequestBody =
     \<lparr>hb_chunks = [], hb_offset = 0, hb_finished = False, hb_err = None, hb_closed = False, hb_wake = 0\<rparr>"

definition signalLocked :: "'c httpRequestBody \<Rightarrow> 'c httpRequestBody" where
  "signalLocked b = b\<lparr>hb_wake := Suc (hb_wake b)\<rparr>"

text \<open>The locked part of one round of \<open>Read\<close> into a buffer of \<open>n\<close> bytes.\<close>

datatype 'c read_result = ReadCount bytes | ReadError "'c read_error" | ReadWait nat

definition body_Read :: "'c httpRequestBody \<Rightarrow> nat \<Rightarrow> 'c read_result \<times> 'c httpRequestBody" where
  "body_Read b n =
     (case hb_chunks b of
        chunk # chunks \<Rightarrow>
          let copied = take n (drop (hb_offset b) chunk);
              offset = hb_offset b + length copied
          in (ReadCount copied,
              if offset = length chunk then b\<lparr>hb_chunks := chunks, hb_offset := 0\<rparr> else b\<lparr>hb_offset := offset\<rparr>)
      | [] \<Rightarrow>
          if hb_closed b then (ReadError ErrClosedPipe, b)
          else if hb_finished b then (ReadError (case hb_err b of Some e \<Rightarrow> ReadCause e | None \<Rightarrow> ReadEOF), b)
          else (ReadWait (hb_wake b), b))"

definition body_Close :: "'c httpRequestBody \<Rightarrow> 'c httpRequestBody" where
  "body_Close b = (if \<not> hb_closed b then signalLocked (b\<lparr>hb_closed := True\<rparr>) else b)"

definition body_append :: "'c httpRequestBody \<Rightarrow> bytes \<Rightarrow> bool \<Rightarrow> 'c httpRequestBody" where
  "body_append b chunk finish =
     (let b = (if \<not> hb_closed b \<and> \<not> hb_finished b \<and> chunk \<noteq> [] then b\<lparr>hb_chunks := hb_chunks b @ [chunk]\<rparr> else b);
          b = (if finish then b\<lparr>hb_finished := True\<rparr> else b)
      in signalLocked b)"

definition body_abort :: "'c httpRequestBody \<Rightarrow> 'c \<Rightarrow> 'c httpRequestBody" where
  "body_abort b e = signalLocked (if \<not> hb_finished b then b\<lparr>hb_finished := True, hb_err := Some e\<rparr> else b)"


section \<open>The stream\<close>

datatype 'c body_call = BodyAppend bytes bool | BodyRead nat | BodyClose | BodyAbort 'c

text \<open>A sequence of calls and the bytes its reads returned.\<close>

fun body_run :: "'c httpRequestBody \<Rightarrow> 'c body_call list \<Rightarrow> bytes \<times> 'c httpRequestBody" where
  "body_run b [] = ([], b)"
| "body_run b (BodyAppend chunk finish # cs) = body_run (body_append b chunk finish) cs"
| "body_run b (BodyClose # cs) = body_run (body_Close b) cs"
| "body_run b (BodyAbort e # cs) = body_run (body_abort b e) cs"
| "body_run b (BodyRead n # cs) =
     (case body_Read b n of
        (ReadCount bs, b') \<Rightarrow> let (out, b'') = body_run b' cs in (bs @ out, b'')
      | (_, b') \<Rightarrow> body_run b' cs)"

text \<open>The bytes the calls put into the body, and how it ended.\<close>

fun accepted :: "'c body_call list \<Rightarrow> bytes" where
  "accepted [] = []"
| "accepted (BodyAppend chunk finish # cs) = chunk @ (if finish then [] else accepted cs)"
| "accepted (BodyRead n # cs) = accepted cs"
| "accepted (BodyClose # cs) = []"
| "accepted (BodyAbort e # cs) = []"

definition unread :: "'c httpRequestBody \<Rightarrow> bytes" where
  "unread b = drop (hb_offset b) (concat (hb_chunks b))"

definition body_inv :: "'c httpRequestBody \<Rightarrow> bool" where
  "body_inv b \<longleftrightarrow> (\<forall>c \<in> set (hb_chunks b). c \<noteq> []) \<and>
     (case hb_chunks b of [] \<Rightarrow> hb_offset b = 0 | c # cs \<Rightarrow> hb_offset b < length c)"

named_theorems body_simps \<open>the operations of a request body, unfolded\<close>

lemmas body_ops [body_simps] = body_append_def body_Close_def body_abort_def signalLocked_def Let_def

lemma body_inv_new: "body_inv newHTTPRequestBody"
  by (simp add: body_inv_def newHTTPRequestBody_def)

lemma body_inv_append: "body_inv b \<Longrightarrow> body_inv (body_append b chunk finish)"
  by (cases "hb_chunks b") (auto simp: body_simps body_inv_def)

lemma body_inv_close: "body_inv b \<Longrightarrow> body_inv (body_Close b)"
  by (cases "hb_chunks b") (simp_all add: body_simps body_inv_def)

lemma body_inv_abort: "body_inv b \<Longrightarrow> body_inv (body_abort b e)"
  by (cases "hb_chunks b") (simp_all add: body_simps body_inv_def)

lemma body_inv_Read: "body_inv b \<Longrightarrow> body_inv (snd (body_Read b n))"
proof (cases "hb_chunks b")
  case (Cons c cs)
  assume "body_inv b"
  then show ?thesis
    using Cons by (cases cs) (auto simp: body_Read_def body_inv_def Let_def min_def)
qed (simp add: body_Read_def body_inv_def)

lemmas body_inv_steps = body_inv_append body_inv_close body_inv_abort body_inv_Read

lemma unread_append:
  "body_inv b \<Longrightarrow> unread (body_append b chunk finish) = unread b @ (if hb_closed b \<or> hb_finished b then [] else chunk)"
  by (cases "hb_chunks b") (auto simp: body_simps body_inv_def unread_def)

lemma unread_close: "unread (body_Close b) = unread b"
  by (simp add: body_simps unread_def)

lemma unread_abort: "unread (body_abort b e) = unread b"
  by (simp add: body_simps unread_def)

lemma unread_Read:
  assumes "body_inv b" "body_Read b n = (r, b')"
  shows "unread b = (case r of ReadCount bs \<Rightarrow> bs | _ \<Rightarrow> []) @ unread b'"
proof (cases "hb_chunks b")
  case (Cons c cs)
  let ?bs = "take n (drop (hb_offset b) c)"
  have r: "r = ReadCount ?bs"
    and b': "b' = (if hb_offset b + length ?bs = length c then b\<lparr>hb_chunks := cs, hb_offset := 0\<rparr>
                   else b\<lparr>hb_offset := hb_offset b + length ?bs\<rparr>)"
    using assms(2) Cons by (auto simp: body_Read_def Let_def)
  have "hb_offset b < length c" using assms(1) Cons by (simp add: body_inv_def)
  then have "drop (hb_offset b) c = ?bs @ drop (hb_offset b + length ?bs) c"
    by (metis append_take_drop_id drop_drop add.commute take_all_iff length_take min_def nat_le_linear drop_all)
  with r b' Cons \<open>hb_offset b < length c\<close> show ?thesis
    by (auto simp: unread_def)
qed (use assms in \<open>auto simp: body_Read_def unread_def split: if_splits\<close>)

fun completed :: "'c body_call list \<Rightarrow> bool" where
  "completed [] \<longleftrightarrow> False"
| "completed (BodyAppend chunk finish # cs) \<longleftrightarrow> finish \<or> completed cs"
| "completed (BodyRead n # cs) \<longleftrightarrow> completed cs"
| "completed (BodyClose # cs) \<longleftrightarrow> False"
| "completed (BodyAbort e # cs) \<longleftrightarrow> False"

definition ended_well :: "'c httpRequestBody \<Rightarrow> bool" where
  "ended_well b \<longleftrightarrow> hb_finished b \<and> hb_err b = None \<and> \<not> hb_closed b"

lemma append_flags [simp]:
  "hb_closed (body_append b chunk finish) = hb_closed b"
  "hb_finished (body_append b chunk finish) = (hb_finished b \<or> finish)"
  "hb_err (body_append b chunk finish) = hb_err b"
  by (simp_all add: body_simps)

lemma Close_flags [simp]:
  "hb_closed (body_Close b)" "hb_finished (body_Close b) = hb_finished b" "hb_err (body_Close b) = hb_err b"
  by (simp_all add: body_simps)

lemma abort_flags [simp]:
  "hb_closed (body_abort b e) = hb_closed b" "hb_finished (body_abort b e)"
  "hb_err (body_abort b e) = (if hb_finished b then hb_err b else Some e)"
  by (simp_all add: body_simps)

lemma Read_flags:
  "body_Read b n = (r, b') \<Longrightarrow> hb_finished b' = hb_finished b \<and> hb_closed b' = hb_closed b \<and> hb_err b' = hb_err b"
  by (auto simp: body_Read_def Let_def split: list.splits if_splits)

lemma body_run_Read:
  assumes "body_run b (BodyRead n # cs) = (out, b')"
  obtains r b1 out1 where "body_Read b n = (r, b1)" "body_run b1 cs = (out1, b')"
    "out = (case r of ReadCount bs \<Rightarrow> bs | _ \<Rightarrow> []) @ out1"
  using assms by (cases "body_Read b n") (auto split: read_result.splits prod.splits)

lemma body_run_stream:
  "body_inv b \<Longrightarrow> body_run b cs = (out, b') \<Longrightarrow>
   out @ unread b' = unread b @ (if hb_closed b \<or> hb_finished b then [] else accepted cs)"
proof (induction cs arbitrary: b out)
  case (Cons c cs)
  show ?case
  proof (cases c)
    case (BodyAppend chunk finish)
    with Cons.prems Cons.IH [OF body_inv_append [OF Cons.prems(1)], of chunk finish out] show ?thesis
      by (auto simp: unread_append)
  next
    case (BodyRead n)
    from body_run_Read [OF Cons.prems(2) [unfolded BodyRead]] obtain r b1 out1 where r: "body_Read b n = (r, b1)"
        "body_run b1 cs = (out1, b')" "out = (case r of ReadCount bs \<Rightarrow> bs | _ \<Rightarrow> []) @ out1" .
    have "body_inv b1" using body_inv_Read [OF Cons.prems(1), of n] r(1) by simp
    from Cons.IH [OF this r(2)] r(3) unread_Read [OF Cons.prems(1) r(1)] Read_flags [OF r(1)] BodyRead show ?thesis
      by simp
  next
    case BodyClose
    with Cons.prems Cons.IH [OF body_inv_close [OF Cons.prems(1)], of out] show ?thesis
      by (auto simp: unread_close)
  next
    case (BodyAbort e)
    with Cons.prems Cons.IH [OF body_inv_abort [OF Cons.prems(1)], of e out] show ?thesis
      by (auto simp: unread_abort)
  qed
qed simp

lemma body_run_ended:
  "body_run b cs = (out, b') \<Longrightarrow> ended_well b' \<Longrightarrow> ended_well b \<or> \<not> hb_closed b \<and> \<not> hb_finished b \<and> completed cs"
proof (induction cs arbitrary: b out)
  case (Cons c cs)
  show ?case
  proof (cases c)
    case (BodyRead n)
    from body_run_Read [OF Cons.prems(1) [unfolded BodyRead]] obtain r b1 out1 where r: "body_Read b n = (r, b1)"
        "body_run b1 cs = (out1, b')" .
    with Cons.IH [OF r(2) Cons.prems(2)] Read_flags [OF r(1)] BodyRead show ?thesis
      by (simp add: ended_well_def)
  next
    case (BodyAppend chunk finish)
    with Cons.prems Cons.IH [of "body_append b chunk finish" out] show ?thesis
      by (auto simp: ended_well_def split: if_splits)
  next
    case BodyClose
    with Cons.prems Cons.IH [of "body_Close b" out] show ?thesis
      by (auto simp: ended_well_def split: if_splits)
  next
    case (BodyAbort e)
    with Cons.prems Cons.IH [of "body_abort b e" out] show ?thesis
      by (auto simp: ended_well_def split: if_splits)
  qed
qed simp

text \<open>C28: for every sequence of appends, reads, aborts and closes, the bytes read so far followed by the unread ones are
  exactly the bytes appended before the body ended, whatever the sizes of the chunks and of the read
  buffers; and a read reports end of file only when all of them have been read and the body was finished, not aborted or
  closed.\<close>

theorem body_stream:
  assumes "body_run newHTTPRequestBody cs = (out, b)"
  shows "out @ unread b = accepted cs \<and>
    (fst (body_Read b n) = ReadError ReadEOF \<longrightarrow> out = accepted cs \<and> completed cs)"
proof -
  have s: "out @ unread b = accepted cs"
    using body_run_stream [OF body_inv_new assms] by (simp add: newHTTPRequestBody_def unread_def)
  have "ended_well b \<Longrightarrow> completed cs"
    using body_run_ended [OF assms] by (auto simp: newHTTPRequestBody_def ended_well_def)
  with s show ?thesis
    by (auto simp: body_Read_def unread_def ended_well_def Let_def split: list.splits if_splits option.splits)
qed

theorem body_stream_witness:
  "fst (body_run newHTTPRequestBody
     [BodyAppend [1, 2, 3] False, BodyRead 2, BodyAppend [4] True, BodyRead 9, BodyRead 9 :: nat body_call]) = [1, 2, 3, 4]"
proof -
  let ?cs = "[BodyAppend [1, 2, 3] False, BodyRead 2, BodyAppend [4] True, BodyRead 9, BodyRead 9 :: nat body_call]"
  obtain out b where run: "body_run newHTTPRequestBody ?cs = (out, b)" by force
  have "fst (body_Read b 1) = ReadError ReadEOF"
    using run by (auto simp: newHTTPRequestBody_def body_simps body_Read_def)
  with body_stream [OF run, of 1] run show ?thesis by simp
qed

end
