(* ===== verification/Sqlite_Assembler.thy ===== *)
theory Sqlite_Assembler
  imports Wire
begin

text \<open>
  The assembly of a chunked SQLite result in \<^verbatim>\<open>internal/pump/pump.go\<close>
  (\<open>sqliteResponseAssembler\<close>), with the size accounting and the deadlines of a SQLite call. A duration is a Go
  \<open>time.Duration\<close>, a number of nanoseconds. The specification of the assembler is the producer's
  side: a result cut into chunks in any way.
\<close>

section \<open>The assembler\<close>

definition maxSQLiteResponseBytes :: nat where
  "maxSQLiteResponseBytes = 32 * 1024 * 1024"

record SQLiteResponse =
  sr_Columns :: "string list"
  sr_Values :: "SQLiteValue list"
  sr_RowsAffected :: i64
  sr_LastInsertID :: "i64 option"

record sqliteResponseAssembler =
  as_response :: SQLiteResponse
  as_nextChunk :: u32
  as_totalBytes :: nat

definition newAssembler :: sqliteResponseAssembler where
  "newAssembler =
     \<lparr>as_response = \<lparr>sr_Columns = [], sr_Values = [], sr_RowsAffected = 0, sr_LastInsertID = None\<rparr>,
      as_nextChunk = 0, as_totalBytes = 0\<rparr>"

datatype assembler_error =
    ChunkIndexError u32 u32
  | ChunkError WireError
  | ResultTooLarge
  | RepeatedMetadata
  | ValuesWithoutColumns
  | NotRectangular

definition sqliteValueContentBytes :: "SQLiteValue \<Rightarrow> nat" where
  "sqliteValueContentBytes v =
     (if sv_Kind v = ''null'' then 1
      else if sv_Kind v = ''integer'' \<or> sv_Kind v = ''real'' then 16
      else if sv_Kind v = ''text'' then (case sv_Text v of Some t \<Rightarrow> length t + 16 | None \<Rightarrow> 16)
      else if sv_Kind v = ''blob'' then (case sv_Blob v of Some b \<Rightarrow> length b + 16 | None \<Rightarrow> 16)
      else 16)"

fun addValueBytes :: "nat \<Rightarrow> SQLiteValue list \<Rightarrow> assembler_error + nat" where
  "addValueBytes used [] = Inr used"
| "addValueBytes used (v # vs) =
     (if used + sqliteValueContentBytes v > maxSQLiteResponseBytes then Inl ResultTooLarge
      else addValueBytes (used + sqliteValueContentBytes v) vs)"

definition addMetadata :: "sqliteResponseAssembler \<Rightarrow> Event \<Rightarrow> assembler_error + sqliteResponseAssembler" where
  "addMetadata a event =
     (if ev_ChunkIndex event = 0 then
        let a = a\<lparr>as_response := (as_response a)\<lparr>sr_Columns := ev_Columns event,
                    sr_RowsAffected := ev_RowsAffected event, sr_LastInsertID := ev_LastInsertID event\<rparr>,
                  as_totalBytes := as_totalBytes a + sum_list (map length (ev_Columns event))\<rparr>
        in if as_totalBytes a > maxSQLiteResponseBytes then Inl ResultTooLarge else Inr a
      else if ev_Columns event \<noteq> [] \<or> ev_RowsAffected event \<noteq> 0 \<or> ev_LastInsertID event \<noteq> None
        then Inl RepeatedMetadata
      else Inr a)"

definition assembler_add :: "sqliteResponseAssembler \<Rightarrow> Event \<Rightarrow> assembler_error + (bool \<times> sqliteResponseAssembler)" where
  "assembler_add a event =
     bindR (checkR (ev_ChunkIndex event \<noteq> as_nextChunk a) (ChunkIndexError (ev_ChunkIndex event) (as_nextChunk a))) (\<lambda>_.
     let a = a\<lparr>as_nextChunk := as_nextChunk a + 1\<rparr> in
     case ev_Error event of
       Some e \<Rightarrow> Inl (ChunkError e)
     | None \<Rightarrow>
         bindR (addMetadata a event) (\<lambda>a.
         bindR (addValueBytes (as_totalBytes a) (ev_SQLiteValues event)) (\<lambda>used.
         let a = a\<lparr>as_totalBytes := used,
                  as_response := (as_response a)\<lparr>sr_Values := sr_Values (as_response a) @ ev_SQLiteValues event\<rparr>\<rparr>;
             columns = length (sr_Columns (as_response a));
             vals = length (sr_Values (as_response a))
         in if \<not> ev_Done event then Inr (False, a)
            else if columns = 0 \<and> vals \<noteq> 0 then Inl ValuesWithoutColumns
            else if columns \<noteq> 0 \<and> vals mod columns \<noteq> 0 then Inl NotRectangular
            else Inr (True, a))))"

text \<open>The chunks of one request in the order they arrive; what comes after the final one is not looked at.\<close>

fun assemble :: "sqliteResponseAssembler \<Rightarrow> Event list \<Rightarrow> assembler_error + SQLiteResponse option" where
  "assemble a [] = Inr None"
| "assemble a (e # es) =
     bindR (assembler_add a e) (\<lambda>(complete, a). if complete then Inr (Some (as_response a)) else assemble a es)"


section \<open>A result cut into chunks\<close>

definition chunk_event :: "SQLiteResponse \<Rightarrow> nat \<Rightarrow> SQLiteValue list \<Rightarrow> bool \<Rightarrow> Event" where
  "chunk_event r i vs fin =
     (let e = zeroEvent\<lparr>ev_Kind := EventSQLiteResult, ev_ChunkIndex := word_of_nat i, ev_SQLiteValues := vs, ev_Done := fin\<rparr>
      in if i = 0 then e\<lparr>ev_Columns := sr_Columns r, ev_RowsAffected := sr_RowsAffected r, ev_LastInsertID := sr_LastInsertID r\<rparr>
         else e)"

fun chunk_events :: "SQLiteResponse \<Rightarrow> nat \<Rightarrow> SQLiteValue list list \<Rightarrow> Event list" where
  "chunk_events r i [] = []"
| "chunk_events r i [vs] = [chunk_event r i vs True]"
| "chunk_events r i (vs # vss) = chunk_event r i vs False # chunk_events r (Suc i) vss"

definition content_bytes :: "SQLiteResponse \<Rightarrow> nat" where
  "content_bytes r = sum_list (map length (sr_Columns r)) + sum_list (map sqliteValueContentBytes (sr_Values r))"

definition rectangular :: "SQLiteResponse \<Rightarrow> bool" where
  "rectangular r \<longleftrightarrow> (\<exists>rows. length (sr_Values r) = rows * length (sr_Columns r))"

lemma chunk_event_simps [simp]:
  "ev_ChunkIndex (chunk_event r i vs fin) = word_of_nat i" "ev_SQLiteValues (chunk_event r i vs fin) = vs"
  "ev_Done (chunk_event r i vs fin) = fin" "ev_Error (chunk_event r i vs fin) = None"
  "ev_Columns (chunk_event r i vs fin) = (if i = 0 then sr_Columns r else [])"
  "ev_RowsAffected (chunk_event r i vs fin) = (if i = 0 then sr_RowsAffected r else 0)"
  "ev_LastInsertID (chunk_event r i vs fin) = (if i = 0 then sr_LastInsertID r else None)"
  by (simp_all add: chunk_event_def zeroEvent_def Let_def)

lemma addValueBytes_eq:
  "used \<le> maxSQLiteResponseBytes \<Longrightarrow>
   addValueBytes used vs =
     (if used + sum_list (map sqliteValueContentBytes vs) \<le> maxSQLiteResponseBytes
      then Inr (used + sum_list (map sqliteValueContentBytes vs)) else Inl ResultTooLarge)"
  by (induction vs arbitrary: used) auto

lemma rectangular_iff:
  "rectangular r \<longleftrightarrow>
     \<not> (sr_Columns r = [] \<and> sr_Values r \<noteq> []) \<and> (sr_Columns r \<noteq> [] \<longrightarrow> length (sr_Values r) mod length (sr_Columns r) = 0)"
  by (cases "sr_Columns r = []") (auto simp: rectangular_def mod_eq_0_iff_dvd dvd_def mult.commute)

text \<open>The assembler after the first chunks of \<open>r\<close>, \<open>acc\<close> being the values they held.\<close>

definition partial_assembly :: "SQLiteResponse \<Rightarrow> nat \<Rightarrow> SQLiteValue list \<Rightarrow> sqliteResponseAssembler" where
  "partial_assembly r i acc =
     (if i = 0 then newAssembler
      else \<lparr>as_response = r\<lparr>sr_Values := acc\<rparr>, as_nextChunk = word_of_nat i,
            as_totalBytes = content_bytes (r\<lparr>sr_Values := acc\<rparr>)\<rparr>)"

lemma add_chunk:
  assumes "i < 2 ^ 32" "i = 0 \<longrightarrow> acc = []" "content_bytes (r\<lparr>sr_Values := acc @ vs\<rparr>) \<le> maxSQLiteResponseBytes"
  shows "assembler_add (partial_assembly r i acc) (chunk_event r i vs False) = Inr (False, partial_assembly r (Suc i) (acc @ vs))"
    and "rectangular (r\<lparr>sr_Values := acc @ vs\<rparr>) \<Longrightarrow>
      assembler_add (partial_assembly r i acc) (chunk_event r i vs True) = Inr (True, partial_assembly r (Suc i) (acc @ vs))"
proof -
  have "(word_of_nat i :: u32) = 0 \<longleftrightarrow> i = 0"
    using assms(1) by (simp add: word_of_nat_eq_0_iff) (metis dvd_imp_le not_less neq0_conv dvd_0_right)
  then show "assembler_add (partial_assembly r i acc) (chunk_event r i vs False) = Inr (False, partial_assembly r (Suc i) (acc @ vs))"
    and "rectangular (r\<lparr>sr_Values := acc @ vs\<rparr>) \<Longrightarrow>
      assembler_add (partial_assembly r i acc) (chunk_event r i vs True) = Inr (True, partial_assembly r (Suc i) (acc @ vs))"
    using assms(2,3)
    by (auto simp: partial_assembly_def assembler_add_def addMetadata_def newAssembler_def addValueBytes_eq
      content_bytes_def rectangular_iff Let_def)
qed

lemma content_bytes_mono: "content_bytes (r\<lparr>sr_Values := xs\<rparr>) \<le> content_bytes (r\<lparr>sr_Values := xs @ ys\<rparr>)"
  by (simp add: content_bytes_def)

lemma assemble_chunks:
  "vss \<noteq> [] \<Longrightarrow> i + length vss \<le> 2 ^ 32 \<Longrightarrow> i = 0 \<longrightarrow> acc = [] \<Longrightarrow> sr_Values r = acc @ concat vss \<Longrightarrow>
   content_bytes r \<le> maxSQLiteResponseBytes \<Longrightarrow> rectangular r \<Longrightarrow>
   assemble (partial_assembly r i acc) (chunk_events r i vss) = Inr (Some r)"
proof (induction r i vss arbitrary: acc rule: chunk_events.induct)
  case (2 r i vs)
  then have "r\<lparr>sr_Values := acc @ vs\<rparr> = r" by simp
  with 2 add_chunk(2) [of i acc vs r] show ?case
    by (simp add: partial_assembly_def)
next
  case (3 r i vs ws vss)
  have "content_bytes (r\<lparr>sr_Values := acc @ vs\<rparr>) \<le> content_bytes (r\<lparr>sr_Values := (acc @ vs) @ concat (ws # vss)\<rparr>)"
    by (rule content_bytes_mono)
  also have "r\<lparr>sr_Values := (acc @ vs) @ concat (ws # vss)\<rparr> = r" using "3.prems" by simp
  finally have "content_bytes (r\<lparr>sr_Values := acc @ vs\<rparr>) \<le> maxSQLiteResponseBytes" using "3.prems" by simp
  with "3.prems" "3.IH" [of "acc @ vs"] add_chunk(1) [of i acc vs r] show ?case by simp
qed simp

text \<open>C29: a result within the size limit whose values fill whole rows is assembled back exactly from any way of cutting it
  into chunks, in a number of chunks that fits the 32-bit chunk index.\<close>

theorem assemble_roundtrip:
  assumes "vss \<noteq> []" "length vss \<le> 2 ^ 32" "concat vss = sr_Values r"
    and "content_bytes r \<le> maxSQLiteResponseBytes" "rectangular r"
  shows "assemble newAssembler (chunk_events r 0 vss) = Inr (Some r)"
  using assemble_chunks [of vss 0 "[]" r] assms by (simp add: partial_assembly_def)

theorem assemble_roundtrip_witness:
  "assemble newAssembler (chunk_events
      \<lparr>sr_Columns = [''n''],
       sr_Values = [\<lparr>sv_Kind = ''integer'', sv_Integer = Some 5, sv_Bits = None, sv_Text = None, sv_Blob = None\<rparr>],
       sr_RowsAffected = 0, sr_LastInsertID = Some 4\<rparr> 0
      [[], [\<lparr>sv_Kind = ''integer'', sv_Integer = Some 5, sv_Bits = None, sv_Text = None, sv_Blob = None\<rparr>], []]) =
   Inr (Some \<lparr>sr_Columns = [''n''],
       sr_Values = [\<lparr>sv_Kind = ''integer'', sv_Integer = Some 5, sv_Bits = None, sv_Text = None, sv_Blob = None\<rparr>],
       sr_RowsAffected = 0, sr_LastInsertID = Some 4\<rparr>)"
  by (rule assemble_roundtrip)
    (simp_all add: content_bytes_def sqliteValueContentBytes_def maxSQLiteResponseBytes_def rectangular_def)

definition assembler_inv :: "sqliteResponseAssembler \<Rightarrow> bool" where
  "assembler_inv a \<longleftrightarrow> content_bytes (as_response a) \<le> as_totalBytes a \<and> as_totalBytes a \<le> maxSQLiteResponseBytes"

lemma addMetadata_inv: "assembler_inv a \<Longrightarrow> addMetadata a e = Inr a' \<Longrightarrow> assembler_inv a'"
  by (auto simp: addMetadata_def assembler_inv_def content_bytes_def Let_def split: if_splits)

lemma assembler_add_inv:
  assumes "assembler_inv a" "assembler_add a e = Inr (complete, a')"
  shows "assembler_inv a' \<and> (complete \<longrightarrow> rectangular (as_response a'))"
proof -
  let ?a = "a\<lparr>as_nextChunk := as_nextChunk a + 1\<rparr>"
  have "assembler_inv ?a" using assms(1) by (simp add: assembler_inv_def)
  moreover from assms(2) obtain b n where b: "addMetadata ?a e = Inr b"
    and n: "addValueBytes (as_totalBytes b) (ev_SQLiteValues e) = Inr n"
    and a': "a' = b\<lparr>as_totalBytes := n,
        as_response := (as_response b)\<lparr>sr_Values := sr_Values (as_response b) @ ev_SQLiteValues e\<rparr>\<rparr>"
    and r: "complete \<longrightarrow> rectangular (as_response a')"
    by (auto simp: assembler_add_def bindR_eq_Inr rectangular_iff Let_def split: if_splits option.splits)
  ultimately have "assembler_inv b" using addMetadata_inv by blast
  with n a' r show ?thesis
    by (auto simp: assembler_inv_def addValueBytes_eq content_bytes_def split: if_splits)
qed

lemma assemble_inv:
  "assembler_inv a \<Longrightarrow> assemble a es = Inr (Some r) \<Longrightarrow> rectangular r \<and> content_bytes r \<le> maxSQLiteResponseBytes"
proof (induction es arbitrary: a)
  case (Cons e es)
  from Cons.prems(2) obtain complete b where b: "assembler_add a e = Inr (complete, b)"
    "if complete then r = as_response b else assemble b es = Inr (Some r)"
    by (auto simp: bindR_eq_Inr split: if_splits)
  with assembler_add_inv [OF Cons.prems(1) b(1)] Cons.IH [of b] show ?case
    by (auto simp: assembler_inv_def split: if_splits)
qed simp

text \<open>C40: whatever chunks arrive, a response that is handed out fills whole rows and stays within the 32 MiB limit.\<close>

theorem assemble_safe:
  assumes "assemble newAssembler es = Inr (Some r)"
  shows "rectangular r \<and> content_bytes r \<le> maxSQLiteResponseBytes"
  using assms by (rule assemble_inv [rotated])
    (simp add: assembler_inv_def newAssembler_def content_bytes_def)

theorem assemble_safe_witness:
  "\<exists>r. assemble newAssembler [zeroEvent\<lparr>ev_Done := True\<rparr>] = Inr (Some r) \<and> rectangular r"
proof -
  have "\<exists>r. assemble newAssembler [zeroEvent\<lparr>ev_Done := True\<rparr>] = Inr (Some r)"
    by (simp add: assembler_add_def addMetadata_def newAssembler_def zeroEvent_def)
  then show ?thesis using assemble_safe by blast
qed


section \<open>Deadlines\<close>

text \<open>
  \<open>remaining\<close> is \<open>time.Until(deadline)\<close> in nanoseconds when the context has a deadline. Go's integer division
  truncates; it is only reached with positive durations.
\<close>

definition millisecond :: int where "millisecond = 1000000"

definition defaultSQLiteTimeout :: int where "defaultSQLiteTimeout = 65000 * millisecond"

datatype deadline_error = DeadlineExceeded

definition sqliteDeadlineMillis :: "int option \<Rightarrow> deadline_error + u32" where
  "sqliteDeadlineMillis remaining =
     (let timeout = (case remaining of Some t \<Rightarrow> t | None \<Rightarrow> defaultSQLiteTimeout) in
      if timeout \<le> 0 then Inl DeadlineExceeded
      else let ms = timeout div millisecond;
               ms = (if timeout mod millisecond \<noteq> 0 then ms + 1 else ms);
               ms = (if ms > 2 ^ 32 - 1 then 2 ^ 32 - 1 else ms)
           in Inr (word_of_int ms))"

definition durationMillis64 :: "int \<Rightarrow> u64" where
  "durationMillis64 duration =
     (if duration \<le> 0 then 0
      else let ms = duration div millisecond
           in word_of_int (if duration mod millisecond \<noteq> 0 then ms + 1 else ms))"

text \<open>Milliseconds of a positive duration, rounded up.\<close>

definition ceil_millis :: "int \<Rightarrow> int" where
  "ceil_millis t = (if t mod millisecond \<noteq> 0 then t div millisecond + 1 else t div millisecond)"

lemma ceil_millis_bounds:
  assumes "0 < t"
  shows "0 < ceil_millis t" "(ceil_millis t - 1) * millisecond < t" "t \<le> ceil_millis t * millisecond"
proof -
  have t: "t = t div millisecond * millisecond + t mod millisecond" by simp
  have m: "0 \<le> t mod millisecond" "t mod millisecond < millisecond" by (simp_all add: millisecond_def)
  have d: "0 \<le> t div millisecond" using assms by (simp add: millisecond_def pos_imp_zdiv_nonneg_iff)
  have "t mod millisecond = 0 \<Longrightarrow> t div millisecond \<noteq> 0" using assms t by auto
  with d m show "0 < ceil_millis t" by (auto simp: ceil_millis_def)
  show "(ceil_millis t - 1) * millisecond < t"
  proof (cases "t mod millisecond = 0")
    case True
    then have "(ceil_millis t - 1) * millisecond = t - millisecond"
      using t by (simp add: ceil_millis_def left_diff_distrib)
    then show ?thesis by (simp add: millisecond_def)
  next
    case False
    then have "(ceil_millis t - 1) * millisecond = t - t mod millisecond"
      by (simp add: ceil_millis_def minus_mod_eq_div_mult)
    with False m show ?thesis by linarith
  qed
  show "t \<le> ceil_millis t * millisecond"
  proof (cases "t mod millisecond = 0")
    case False
    then have "ceil_millis t * millisecond = t - t mod millisecond + millisecond"
      by (simp add: ceil_millis_def distrib_right minus_mod_eq_div_mult)
    with m show ?thesis by linarith
  qed (use t in \<open>simp add: ceil_millis_def\<close>)
qed

text \<open>A live deadline is sent to the native side in milliseconds rounded up, never as zero, and is cut to what 32
  bits hold; a deadline that has passed is refused before anything is sent.\<close>

theorem sqliteDeadlineMillis_rounds_up:
  "case sqliteDeadlineMillis (Some t) of
     Inl e \<Rightarrow> t \<le> 0
   | Inr ms \<Rightarrow> 0 < t \<and> 0 < uint ms \<and> (uint ms - 1) * millisecond < t \<and>
       (t \<le> uint ms * millisecond \<or> uint ms = 2 ^ 32 - 1)"
proof (cases "0 < t")
  case True
  let ?c = "ceil_millis t" and ?m = "min (ceil_millis t) (2 ^ 32 - 1)"
  note b = ceil_millis_bounds [OF True]
  have eq: "sqliteDeadlineMillis (Some t) = Inr (word_of_int ?m)"
    using True by (simp add: sqliteDeadlineMillis_def ceil_millis_def Let_def min_def)
  have "0 < ?m" "?m < 2 ^ 32" using b(1) by auto
  then have u: "uint (word_of_int ?m :: u32) = ?m"
    by (simp add: uint_word_of_int)
  have "(?m - 1) * millisecond \<le> (?c - 1) * millisecond"
    by (intro mult_right_mono) (auto simp: millisecond_def)
  with b have "(?m - 1) * millisecond < t" by linarith
  moreover have "t \<le> ?m * millisecond \<or> ?m = 2 ^ 32 - 1"
    using b(3) by (cases "?c \<le> 2 ^ 32 - 1") (auto simp: min_def)
  ultimately show ?thesis
    using True \<open>0 < ?m\<close> by (simp only: eq sum.case u simp_thms)
qed (simp add: sqliteDeadlineMillis_def Let_def)

end
