(* ===== verification/Actor_Session.thy ===== *)
theory Actor_Session
  imports Wire Waiters Sqlite_Assembler
begin

text \<open>
  \<open>ActorSession\<close> of \<^verbatim>\<open>internal/pump/pump.go\<close>: the operations a handler runs on its actor. A session
  is one aid and generation; \<open>None\<close> is the nil session the methods guard against, and a context is \<open>None\<close> when
  it is nil. Every operation that waits is given the outcome of its wait as an argument: which arm of the
  \<open>select\<close> fired, with the waiter table as it is at that moment, so that all schedules are covered by quantifying
  over the outcomes. The commands handed to \<open>submitInternal\<close> are part of the result.
\<close>

section \<open>Sessions, contexts and errors\<close>

record actorIdentity =
  ai_aid :: string
  ai_generation :: u64

record ActorSession =
  ss_identity :: actorIdentity
  ss_name :: string
  ss_key :: string
  ss_input :: "bytes option"
  ss_persistedState :: "bytes option"
  ss_nextWorkID :: u64
  ss_saveResult :: "nat option"
  ss_savePoisoned :: bool
  ss_accepting :: bool
  ss_activeSaves :: nat
  ss_activeSQLite :: nat
  ss_doneClosed :: bool
  ss_sqliteTransport :: string
  ss_sqliteSocketPath :: string

datatype ctx_error = CtxCanceled | CtxDeadlineExceeded

record go_context =
  gc_err :: "ctx_error option"
  gc_remaining :: "int option"

datatype submit_error =
    SubmitContext ctx_error
  | SubmitShuttingDown
  | SubmitNotStarted
  | SubmitNative string string
  | SubmitOther string

datatype go_error =
    SessionUnavailable
  | NilContext string
  | ContextError ctx_error
  | ErrShuttingDown
  | SubmitError submit_error
  | HandlerError string string
  | NativeError WireError
  | AssemblerError assembler_error
  | PlainError string

definition submitErrorCode :: "submit_error \<Rightarrow> string" where
  "submitErrorCode e = (case e of SubmitNative code _ \<Rightarrow> code | _ \<Rightarrow> [])"

text \<open>\<open>append([]byte(nil), b...)\<close> is nil for an empty slice; \<open>cloneBytesOrEmpty\<close> is never nil.\<close>

definition appendNil :: "bytes option \<Rightarrow> bytes option" where
  "appendNil b = (if the_bytes b = [] then None else b)"

definition cloneBytesOrEmpty :: "bytes option \<Rightarrow> bytes option" where
  "cloneBytesOrEmpty b = Some (the_bytes b)"

definition ctxErrorText :: "ctx_error \<Rightarrow> string" where
  "ctxErrorText e = (case e of CtxCanceled \<Rightarrow> ''context canceled'' | CtxDeadlineExceeded \<Rightarrow> ''context deadline exceeded'')"


section \<open>Lifecycle\<close>

definition isAccepting :: "ActorSession \<Rightarrow> bool" where
  "isAccepting s = ss_accepting s"

definition beginSave :: "ActorSession \<Rightarrow> go_error + ActorSession" where
  "beginSave s = (if \<not> ss_accepting s then Inl ErrShuttingDown else Inr (s\<lparr>ss_activeSaves := ss_activeSaves s + 1\<rparr>))"

definition beginSQLite :: "ActorSession \<Rightarrow> go_error + ActorSession" where
  "beginSQLite s = (if \<not> ss_accepting s then Inl ErrShuttingDown else Inr (s\<lparr>ss_activeSQLite := ss_activeSQLite s + 1\<rparr>))"

definition finishSave :: "ActorSession \<Rightarrow> ActorSession" where
  "finishSave s = s\<lparr>ss_activeSaves := ss_activeSaves s - 1\<rparr>"

definition finishSQLite :: "ActorSession \<Rightarrow> ActorSession" where
  "finishSQLite s = s\<lparr>ss_activeSQLite := ss_activeSQLite s - 1\<rparr>"

definition closeDoneLocked :: "ActorSession \<Rightarrow> ActorSession" where
  "closeDoneLocked s = (if \<not> ss_doneClosed s then s\<lparr>ss_doneClosed := True\<rparr> else s)"

text \<open>
  \<open>closeGracefully\<close> and \<open>abort\<close> first stop new work, and wait until the accepted saves and SQLite calls have
  finished; they differ in when \<open>done\<close> is closed. \<open>idle\<close> is the condition their loops wait for.
\<close>

definition idle :: "ActorSession \<Rightarrow> bool" where
  "idle s \<longleftrightarrow> \<not> (ss_activeSaves s \<noteq> 0 \<or> ss_activeSQLite s \<noteq> 0)"

definition closeGracefully_start :: "ActorSession \<Rightarrow> ActorSession" where
  "closeGracefully_start s = s\<lparr>ss_accepting := False\<rparr>"

definition closeGracefully_end :: "ActorSession \<Rightarrow> ActorSession option" where
  "closeGracefully_end s = (if idle s then Some (closeDoneLocked s) else None)"

definition abort_start :: "ActorSession \<Rightarrow> ActorSession" where
  "abort_start s = closeDoneLocked (s\<lparr>ss_accepting := False\<rparr>)"

definition abort_end :: "ActorSession \<Rightarrow> ActorSession option" where
  "abort_end s = (if idle s then Some s else None)"

text \<open>
  The lifecycle as a step relation: saves and SQLite calls begin and finish in any order while the
  worker closes the session. The phase says how far the worker is.
\<close>

datatype close_phase = Open | Closing | Aborting | Closed

inductive lifecycle_step :: "ActorSession \<times> close_phase \<Rightarrow> ActorSession \<times> close_phase \<Rightarrow> bool" where
  begin_save: "beginSave s = Inr s' \<Longrightarrow> lifecycle_step (s, ph) (s', ph)"
| begin_sqlite: "beginSQLite s = Inr s' \<Longrightarrow> lifecycle_step (s, ph) (s', ph)"
| finish_save: "ss_activeSaves s > 0 \<Longrightarrow> lifecycle_step (s, ph) (finishSave s, ph)"
| finish_sqlite: "ss_activeSQLite s > 0 \<Longrightarrow> lifecycle_step (s, ph) (finishSQLite s, ph)"
| close_start: "lifecycle_step (s, Open) (closeGracefully_start s, Closing)"
| close_end: "closeGracefully_end s = Some s' \<Longrightarrow> lifecycle_step (s, Closing) (s', Closed)"
| abort_start: "ph \<noteq> Aborting \<Longrightarrow> lifecycle_step (s, ph) (abort_start s, Aborting)"
| abort_end: "abort_end s = Some s' \<Longrightarrow> lifecycle_step (s, Aborting) (s', Closed)"

inductive_cases lifecycle_stepE: "lifecycle_step c c'"

definition fresh_session :: "ActorSession \<Rightarrow> bool" where
  "fresh_session s \<longleftrightarrow> ss_accepting s \<and> ss_activeSaves s = 0 \<and> ss_activeSQLite s = 0 \<and> \<not> ss_doneClosed s"

definition lifecycle_inv :: "ActorSession \<times> close_phase \<Rightarrow> bool" where
  "lifecycle_inv c \<longleftrightarrow> (case c of (s, ph) \<Rightarrow>
     (ss_accepting s \<longleftrightarrow> ph = Open) \<and> (ss_doneClosed s \<longleftrightarrow> ph \<in> {Aborting, Closed}) \<and> (ph = Closed \<longrightarrow> idle s))"

lemma lifecycle_inv_step: "lifecycle_step c c' \<Longrightarrow> lifecycle_inv c \<Longrightarrow> lifecycle_inv c'"
  by (erule lifecycle_stepE)
    (auto simp: lifecycle_inv_def beginSave_def beginSQLite_def finishSave_def finishSQLite_def closeGracefully_start_def
      closeGracefully_end_def abort_start_def abort_end_def closeDoneLocked_def idle_def split: if_splits)

interpretation lifecycle: kept_by_steps lifecycle_step lifecycle_inv
  by unfold_locales (rule lifecycle_inv_step)

lemma lifecycle_inv_reachable: "lifecycle_step\<^sup>*\<^sup>* (s, Open) c \<Longrightarrow> fresh_session s \<Longrightarrow> lifecycle_inv c"
  by (erule lifecycle.run_good) (simp add: lifecycle_inv_def fresh_session_def)

text \<open>C18: once a session is closed, no accepted save or SQLite call is still running and none can begin, whatever the
  interleaving; and a session that closes gracefully does not wake its waiters (it leaves \<open>done\<close> open) before the last of
  them has finished.\<close>

theorem session_closes_after_work:
  assumes "lifecycle_step\<^sup>*\<^sup>* (s0, Open) (s, ph)" "fresh_session s0"
  shows "(ph = Closed \<longrightarrow> ss_activeSaves s = 0 \<and> ss_activeSQLite s = 0 \<and> isl (beginSave s) \<and> isl (beginSQLite s)) \<and>
    (ph = Closing \<longrightarrow> \<not> ss_doneClosed s)"
  using lifecycle_inv_reachable [OF assms]
  by (auto simp: lifecycle_inv_def idle_def beginSave_def beginSQLite_def)

definition session0 :: ActorSession where
  "session0 =
     \<lparr>ss_identity = \<lparr>ai_aid = ''a'', ai_generation = 1\<rparr>, ss_name = ''n'', ss_key = [], ss_input = None,
      ss_persistedState = None, ss_nextWorkID = 0, ss_saveResult = None, ss_savePoisoned = False, ss_accepting = True,
      ss_activeSaves = 0, ss_activeSQLite = 0, ss_doneClosed = False, ss_sqliteTransport = [], ss_sqliteSocketPath = []\<rparr>"

theorem session_closes_after_work_witness:
  "isl (beginSave (closeDoneLocked (session0\<lparr>ss_accepting := False\<rparr>)))"
proof -
  let ?s = "session0\<lparr>ss_accepting := False\<rparr>"
  have "lifecycle_step (session0, Open) (?s, Closing)"
    using lifecycle_step.close_start [of session0] by (simp add: closeGracefully_start_def)
  moreover have "lifecycle_step (?s, Closing) (closeDoneLocked ?s, Closed)"
    by (rule lifecycle_step.close_end) (simp add: closeGracefully_end_def idle_def session0_def)
  ultimately have "lifecycle_step\<^sup>*\<^sup>* (session0, Open) (closeDoneLocked ?s, Closed)"
    by (rule rtranclp_two)
  moreover have "fresh_session session0" by (simp add: fresh_session_def session0_def)
  ultimately show ?thesis using session_closes_after_work by blast
qed


section \<open>Saves\<close>

text \<open>The late saves of the pump: identities whose next acknowledgement has no waiter.\<close>

type_synonym late_saves = "actorIdentity set"

definition markLateSave :: "late_saves \<Rightarrow> actorIdentity \<Rightarrow> late_saves" where
  "markLateSave late i = insert i late"

definition consumeLateSave :: "late_saves \<Rightarrow> actorIdentity \<Rightarrow> bool \<times> late_saves" where
  "consumeLateSave late i = (if i \<notin> late then (False, late) else (True, late - {i}))"

text \<open>The channel an acknowledgement is sent on, and the session without it.\<close>

definition completeSave :: "ActorSession \<Rightarrow> nat option \<times> ActorSession" where
  "completeSave s = (ss_saveResult s, s\<lparr>ss_saveResult := None\<rparr>)"

definition clearSaveResult :: "ActorSession \<Rightarrow> nat \<Rightarrow> ActorSession" where
  "clearSaveResult s result = (if ss_saveResult s = Some result then s\<lparr>ss_saveResult := None\<rparr> else s)"

definition abandonSave :: "ActorSession \<Rightarrow> late_saves \<Rightarrow> nat \<Rightarrow> ActorSession \<times> late_saves" where
  "abandonSave s late result =
     (if ss_saveResult s = Some result
      then (s\<lparr>ss_saveResult := None, ss_savePoisoned := True\<rparr>, markLateSave late (ss_identity s))
      else (s, late))"

definition completeAbandonedSave :: "ActorSession \<Rightarrow> late_saves \<Rightarrow> bool \<times> ActorSession \<times> late_saves" where
  "completeAbandonedSave s late =
     (if \<not> ss_savePoisoned s then (False, s, late)
      else case consumeLateSave late (ss_identity s) of
        (consumed, late') \<Rightarrow> (consumed, s\<lparr>ss_savePoisoned := False\<rparr>, late'))"

definition saveContextError :: "ctx_error \<Rightarrow> go_error" where
  "saveContextError e =
     HandlerError (if e = CtxDeadlineExceeded then ''state_persist_timeout'' else ''state_persist_canceled'') (ctxErrorText e)"

text \<open>\<open>Save\<close> up to the submission, under \<open>saveMu\<close>: it registers its channel and builds the command.\<close>

definition Save_begin :: "ActorSession option \<Rightarrow> go_context option \<Rightarrow> bytes option \<Rightarrow> nat \<Rightarrow> (go_error \<times> ActorSession option) + (Command \<times> ActorSession)" where
  "Save_begin session ctx state result =
     (case session of
        None \<Rightarrow> Inl (SessionUnavailable, None)
      | Some s \<Rightarrow>
          (case ctx of
             None \<Rightarrow> Inl (NilContext ''save context is nil'', session)
           | Some c \<Rightarrow>
               (case beginSave s of
                  Inl e \<Rightarrow> Inl (e, session)
                | Inr s \<Rightarrow>
                    (case gc_err c of
                       Some e \<Rightarrow> Inl (saveContextError e, Some (finishSave s))
                     | None \<Rightarrow>
                         if ss_savePoisoned s then
                           Inl (HandlerError ''state_persist_unresolved''
                                  ''a previous actor state save completed without its acknowledgement'', Some (finishSave s))
                         else if ss_saveResult s \<noteq> None then
                           Inl (PlainError ''actor save is already pending'', Some (finishSave s))
                         else
                           Inr (zeroCommand\<lparr>cmd_Kind := CommandSaveState, cmd_AID := ai_aid (ss_identity s),
                                  cmd_Generation := ai_generation (ss_identity s), cmd_State := appendNil state\<rparr>,
                                s\<lparr>ss_saveResult := Some result\<rparr>)))))"

datatype save_outcome =
    SaveSubmitFailed submit_error
  | SaveAck "WireError option"
  | SaveContext ctx_error
  | SaveTimer
  | SaveSessionDone
  | SavePumpDone

text \<open>The rest of \<open>Save\<close>: which arm of its final \<open>select\<close> fires, with the deferred \<open>finishSave\<close>.\<close>

definition Save_end :: "ActorSession \<Rightarrow> late_saves \<Rightarrow> nat \<Rightarrow> save_outcome \<Rightarrow> (go_error + unit) \<times> ActorSession \<times> late_saves" where
  "Save_end s late result outcome =
     (case outcome of
        SaveSubmitFailed e \<Rightarrow> (Inl (SubmitError e), finishSave (clearSaveResult s result), late)
      | SaveAck None \<Rightarrow> (Inr (), finishSave s, late)
      | SaveAck (Some e) \<Rightarrow> (Inl (NativeError e), finishSave s, late)
      | SaveContext e \<Rightarrow>
          (case abandonSave s late result of (s', late') \<Rightarrow> (Inl (saveContextError e), finishSave s', late'))
      | SaveTimer \<Rightarrow>
          (case abandonSave s late result of
             (s', late') \<Rightarrow> (Inl (HandlerError ''state_persist_timeout'' ''actor state save was not acknowledged within 35s''),
                            finishSave s', late'))
      | SaveSessionDone \<Rightarrow> (Inl ErrShuttingDown, finishSave s, late)
      | SavePumpDone \<Rightarrow> (Inl ErrShuttingDown, finishSave s, late))"

end
