(* ===== verification/Submit_Queue.thy ===== *)
theory Submit_Queue
  imports Actor_Session
begin

text \<open>
  The submission path of \<^verbatim>\<open>internal/pump/pump.go\<close>: \<open>Submit\<close>, \<open>submitInternal\<close> and \<open>enqueueSubmit\<close> on the
  callers' side, \<open>submitLoop\<close>, \<open>stopSubmissions\<close> and \<open>rejectQueuedSubmissions\<close> on the pump's. The queue and the
  goroutines around it are a step relation; encoding and the native \<open>Submit\<close> are one function from the commands of a
  batch to an error, arbitrary in every round.
\<close>

section \<open>The callers\<close>

datatype enqueue_arm = EnqueueSent | EnqueueContext | EnqueueStop | EnqueueDone

datatype reply_arm =
    ReplyResult "submit_error option"
  | ReplyContext
  | ReplyDone "submit_error option option"

text \<open>
  \<open>ends\<close> is the error the context ends with, \<open>None\<close> for a context that is never done. The arms say which case of the two
  selects fires; \<open>ReplyDone\<close> carries what its inner select finds in the result channel. \<open>None\<close>: the arm cannot fire and the
  call still waits.
\<close>

definition enqueueSubmit :: "ctx_error option \<Rightarrow> enqueue_arm \<Rightarrow> reply_arm \<Rightarrow> submit_error option option" where
  "enqueueSubmit ends enqueue reply =
     (case enqueue of
        EnqueueContext \<Rightarrow> map_option (\<lambda>e. Some (SubmitContext e)) ends
      | EnqueueStop \<Rightarrow> Some (Some SubmitShuttingDown)
      | EnqueueDone \<Rightarrow> Some (Some SubmitShuttingDown)
      | EnqueueSent \<Rightarrow>
          (case reply of
             ReplyResult err \<Rightarrow> Some err
           | ReplyContext \<Rightarrow> map_option (\<lambda>e. Some (SubmitContext e)) ends
           | ReplyDone (Some err) \<Rightarrow> Some err
           | ReplyDone None \<Rightarrow> Some (Some SubmitShuttingDown)))"

definition submitInternal :: "bool \<Rightarrow> ctx_error option \<Rightarrow> enqueue_arm \<Rightarrow> reply_arm \<Rightarrow> submit_error option option" where
  "submitInternal started ends enqueue reply =
     (if \<not> started then Some (Some SubmitNotStarted) else enqueueSubmit ends enqueue reply)"

definition Submit :: "bool \<Rightarrow> bool \<Rightarrow> ctx_error option \<Rightarrow> enqueue_arm \<Rightarrow> reply_arm \<Rightarrow> submit_error option option" where
  "Submit started shuttingDown ends enqueue reply =
     (if \<not> started then Some (Some SubmitNotStarted)
      else if shuttingDown then Some (Some SubmitShuttingDown)
      else enqueueSubmit ends enqueue reply)"

lemma enqueueSubmit_no_context: "enqueueSubmit None enqueue reply = Some (Some (SubmitContext e)) \<Longrightarrow>
  reply = ReplyResult (Some (SubmitContext e)) \<or> reply = ReplyDone (Some (Some (SubmitContext e)))"
  by (auto simp: enqueueSubmit_def split: enqueue_arm.splits reply_arm.splits option.splits)


section \<open>The pump\<close>

definition defaultSubmitQueue :: nat where "defaultSubmitQueue = 1024"
definition maxSubmitBatch :: nat where "maxSubmitBatch = 1024"

record submitRequest =
  sq_result :: nat
  sq_commands :: "Command list"

text \<open>The shared state, with a log of the batches handed to the runner, the rejected requests, and all requests queued.\<close>

record submit_state =
  sq_queue :: "submitRequest list"
  sq_stop :: bool
  sq_exited :: bool
  sq_done :: bool
  sq_replies :: "(nat \<times> submit_error option) list"
  sq_batches :: "(submitRequest list \<times> submit_error option) list"
  sq_rejected :: "submitRequest list"
  sq_sent :: "submitRequest list"

text \<open>The collecting loop: \<open>n\<close> commands are in the batch so far.\<close>

fun collect :: "nat \<Rightarrow> submitRequest list \<Rightarrow> submitRequest list \<times> submitRequest list" where
  "collect n [] = ([], [])"
| "collect n (request # queue) =
     (if n < maxSubmitBatch
      then (case collect (n + length (sq_commands request)) queue of (requests, rest) \<Rightarrow> (request # requests, rest))
      else ([], request # queue))"

definition replyAll :: "submitRequest list \<Rightarrow> submit_error option \<Rightarrow> (nat \<times> submit_error option) list" where
  "replyAll requests err = map (\<lambda>request. (sq_result request, err)) requests"

definition submitLoop_round :: "(Command list \<Rightarrow> submit_error option) \<Rightarrow> submit_state \<Rightarrow> submit_state option" where
  "submitLoop_round send s =
     (case sq_queue s of
        [] \<Rightarrow> None
      | first # queue \<Rightarrow>
          (case collect (length (sq_commands first)) queue of
             (others, rest) \<Rightarrow>
               let requests = first # others;
                   err = send (concat (map sq_commands requests))
               in Some (s\<lparr>sq_queue := rest, sq_replies := sq_replies s @ replyAll requests err,
                          sq_batches := sq_batches s @ [(requests, err)]\<rparr>)))"

definition rejectQueuedSubmissions :: "submit_state \<Rightarrow> submit_state" where
  "rejectQueuedSubmissions s =
     s\<lparr>sq_queue := [], sq_replies := sq_replies s @ replyAll (sq_queue s) (Some SubmitShuttingDown),
       sq_rejected := sq_rejected s @ sq_queue s\<rparr>"

definition submitLoop_stop :: "submit_state \<Rightarrow> submit_state" where
  "submitLoop_stop s = (rejectQueuedSubmissions s)\<lparr>sq_exited := True\<rparr>"

definition stopSubmissions :: "submit_state \<Rightarrow> submit_state" where
  "stopSubmissions s = s\<lparr>sq_stop := True\<rparr>"

definition submit_init :: submit_state where
  "submit_init =
     \<lparr>sq_queue = [], sq_stop = False, sq_exited = False, sq_done = False, sq_replies = [], sq_batches = [],
      sq_rejected = [], sq_sent = []\<rparr>"

text \<open>
  A request is queued while the channel has room, even when the stop signal is already up, as the select of
  \<open>enqueueSubmit\<close> is free to choose. \<open>pollLoop\<close> waits for \<open>submitLoop\<close> before it closes \<open>done\<close>.
\<close>

inductive submit_step :: "submit_state \<Rightarrow> submit_state \<Rightarrow> bool" where
  queue: "length (sq_queue s) < defaultSubmitQueue \<Longrightarrow> sq_result r \<notin> sq_result ` set (sq_sent s) \<Longrightarrow>
    submit_step s (s\<lparr>sq_queue := sq_queue s @ [r], sq_sent := sq_sent s @ [r]\<rparr>)"
| round: "\<not> sq_exited s \<Longrightarrow> submitLoop_round send s = Some s' \<Longrightarrow> submit_step s s'"
| stopped: "\<not> sq_exited s \<Longrightarrow> sq_stop s \<Longrightarrow> submit_step s (submitLoop_stop s)"
| stop: "submit_step s (stopSubmissions s)"
| finish: "sq_exited s \<Longrightarrow> submit_step s (s\<lparr>sq_done := True\<rparr>)"

inductive_cases submit_stepE: "submit_step s s'"

lemma replyAll_simps [simp]: "replyAll [] err = []" "replyAll (xs @ ys) err = replyAll xs err @ replyAll ys err"
  by (simp_all add: replyAll_def)

lemma collect_append: "collect n queue = (requests, rest) \<Longrightarrow> requests @ rest = queue"
  by (induction n queue arbitrary: requests rule: collect.induct) (auto split: if_splits prod.splits)

lemma collect_size:
  "collect n queue = (requests, rest) \<Longrightarrow> requests \<noteq> [] \<Longrightarrow> n + length (concat (map sq_commands (butlast requests))) < maxSubmitBatch"
proof (induction n queue arbitrary: requests rule: collect.induct)
  case (2 n r queue)
  obtain others where others: "collect (n + length (sq_commands r)) queue = (others, rest)" "n < maxSubmitBatch" "requests = r # others"
    using 2(2,3) by (auto split: if_splits prod.splits)
  with 2(1) show ?case by (cases "others = []") auto
qed simp

lemma collect_rest: "collect n queue = (requests, rest) \<Longrightarrow> rest \<noteq> [] \<Longrightarrow> maxSubmitBatch \<le> n + length (concat (map sq_commands requests))"
  by (induction n queue arbitrary: requests rule: collect.induct) (fastforce split: if_splits prod.splits)+

definition submitted :: "submit_state \<Rightarrow> submitRequest list" where
  "submitted s = concat (map fst (sq_batches s))"

definition batch_ok :: "submitRequest list \<Rightarrow> bool" where
  "batch_ok requests \<longleftrightarrow>
     requests \<noteq> [] \<and> (length requests > 1 \<longrightarrow> length (concat (map sq_commands (butlast requests))) < maxSubmitBatch)"

definition unique_results :: "submitRequest list \<Rightarrow> bool" where
  "unique_results requests \<longleftrightarrow> distinct (map sq_result requests)"

lemma unique_results_snoc [simp]:
  "sq_result r \<notin> sq_result ` set rs \<Longrightarrow> unique_results (rs @ [r]) \<longleftrightarrow> unique_results rs"
  by (simp add: unique_results_def)

definition submit_inv :: "submit_state \<Rightarrow> bool" where
  "submit_inv s \<longleftrightarrow>
     sq_sent s = submitted s @ sq_rejected s @ sq_queue s \<and> unique_results (sq_sent s) \<and>
     sq_replies s = concat (map (\<lambda>(requests, err). replyAll requests err) (sq_batches s)) @ replyAll (sq_rejected s) (Some SubmitShuttingDown) \<and>
     (\<forall>b \<in> set (sq_batches s). batch_ok (fst b)) \<and> (sq_rejected s \<noteq> [] \<longrightarrow> sq_exited s) \<and> (sq_done s \<longrightarrow> sq_exited s)"

lemma submit_invD:
  assumes "submit_inv s"
  shows "sq_sent s = submitted s @ sq_rejected s @ sq_queue s" and "unique_results (sq_sent s)"
    and "sq_replies s = concat (map (\<lambda>(requests, err). replyAll requests err) (sq_batches s)) @
           replyAll (sq_rejected s) (Some SubmitShuttingDown)"
    and "b \<in> set (sq_batches s) \<Longrightarrow> batch_ok (fst b)"
  using assms unfolding submit_inv_def by blast+

lemma submitLoop_roundE:
  assumes "submitLoop_round send s = Some s'"
  obtains requests rest where "sq_queue s = requests @ rest" "batch_ok requests"
    "s' = s\<lparr>sq_queue := rest, sq_replies := sq_replies s @ replyAll requests (send (concat (map sq_commands requests))),
            sq_batches := sq_batches s @ [(requests, send (concat (map sq_commands requests)))]\<rparr>"
proof -
  obtain first queue where q: "sq_queue s = first # queue" using assms by (auto simp: submitLoop_round_def split: list.splits)
  obtain others rest where c: "collect (length (sq_commands first)) queue = (others, rest)" by fastforce
  have "batch_ok (first # others)" using collect_size [OF c] by (auto simp: batch_ok_def)
  moreover have "sq_queue s = (first # others) @ rest" using collect_append [OF c] q by simp
  moreover have "submitLoop_round send s =
      Some (s\<lparr>sq_queue := rest, sq_replies := sq_replies s @ replyAll (first # others) (send (concat (map sq_commands (first # others)))),
              sq_batches := sq_batches s @ [(first # others, send (concat (map sq_commands (first # others))))]\<rparr>)"
    by (simp add: submitLoop_round_def q c Let_def)
  ultimately show thesis using assms by (intro that [of "first # others" rest]) simp_all
qed

lemma submit_inv_step: "submit_step s s' \<Longrightarrow> submit_inv s \<Longrightarrow> submit_inv s'"
proof (erule submit_stepE)
  fix r assume "submit_inv s" "sq_result r \<notin> sq_result ` set (sq_sent s)"
    "s' = s\<lparr>sq_queue := sq_queue s @ [r], sq_sent := sq_sent s @ [r]\<rparr>"
  moreover from this have "unique_results (sq_sent s @ [r])"
    using submit_invD(2) unique_results_snoc by blast
  ultimately show "submit_inv s'" by (simp add: submit_inv_def submitted_def)
next
  fix send assume "submit_inv s" "submitLoop_round send s = Some s'" "\<not> sq_exited s"
  then show "submit_inv s'" by (elim submitLoop_roundE) (auto simp: submit_inv_def submitted_def)
qed (auto simp: submit_inv_def submitted_def submitLoop_stop_def rejectQueuedSubmissions_def stopSubmissions_def)

interpretation submit_states: kept_by_steps submit_step submit_inv
  by unfold_locales (rule submit_inv_step)

lemma submit_inv_reachable: "submit_step\<^sup>*\<^sup>* submit_init s \<Longrightarrow> submit_inv s"
  by (erule submit_states.run_good) (simp add: submit_inv_def submit_init_def submitted_def unique_results_def)


text \<open>A run with one request that the runner accepts.\<close>

definition request1 :: submitRequest where
  "request1 = \<lparr>sq_result = 7, sq_commands = [zeroCommand]\<rparr>"

definition run1 :: submit_state where
  "run1 = submit_init\<lparr>sq_replies := [(7, None)], sq_batches := [([request1], None)], sq_sent := [request1]\<rparr>"

lemma run1_reachable: "submit_step\<^sup>*\<^sup>* submit_init run1"
proof -
  let ?s = "submit_init\<lparr>sq_queue := [request1], sq_sent := [request1]\<rparr>"
  have "submit_step submit_init ?s"
    using submit_step.queue [of submit_init request1] by (simp add: submit_init_def defaultSubmitQueue_def)
  moreover have "submit_step ?s run1"
    by (rule submit_step.round [where send = "\<lambda>_. None"])
      (simp_all add: submitLoop_round_def submit_init_def run1_def request1_def replyAll_def)
  ultimately show ?thesis by (rule rtranclp_two)
qed



section \<open>What an answer tells the caller\<close>

text \<open>The arms that can fire for a request that has been queued.\<close>

definition reply_ready :: "submit_state \<Rightarrow> nat \<Rightarrow> reply_arm \<Rightarrow> bool" where
  "reply_ready s i arm \<longleftrightarrow>
     (case arm of
        ReplyResult err \<Rightarrow> map_of (sq_replies s) i = Some err
      | ReplyContext \<Rightarrow> True
      | ReplyDone found \<Rightarrow> sq_done s \<and> map_of (sq_replies s) i = found)"

lemma map_of_replyAll: "map_of (replyAll requests err) i = (if i \<in> sq_result ` set requests then Some err else None)"
  by (induction requests) (auto simp: replyAll_def)

lemma reply_of_batch:
  assumes "distinct (map sq_result (concat (map fst batches)))" "(requests, err) \<in> set batches" "r \<in> set requests"
  shows "map_of (concat (map (\<lambda>(requests, err). replyAll requests err) batches)) (sq_result r) = Some err"
  using assms
proof (induction batches)
  case (Cons b batches)
  obtain rs e where b: "b = (rs, e)" by (cases b)
  have later: "r \<notin> set rs" "sq_result r \<notin> sq_result ` set rs" if "(requests, err) \<in> set batches"
  proof -
    have "sq_result r \<in> sq_result ` (\<Union>a\<in>set batches. set (fst a))" using that Cons.prems(3) by force
    then show "sq_result r \<notin> sq_result ` set rs" using Cons.prems(1) b by auto
    then show "r \<notin> set rs" by blast
  qed
  show ?case
  proof (cases "(requests, err) \<in> set batches")
    case True
    with later Cons.IH Cons.prems b show ?thesis by (simp add: map_add_def map_of_replyAll)
  next
    case False
    then have "requests = rs" "err = e" using Cons.prems(2) b by simp_all
    with Cons.prems(3) b show ?thesis by (simp add: map_of_replyAll)
  qed
qed simp

lemma replies_batch:
  assumes "(i, err) \<in> set (concat (map (\<lambda>(requests, err). replyAll requests err) batches))"
  shows "\<exists>requests r. (requests, err) \<in> set batches \<and> r \<in> set requests \<and> sq_result r = i"
proof -
  obtain requests e where "(requests, e) \<in> set batches" "(i, err) \<in> set (replyAll requests e)" using assms by auto
  then show ?thesis unfolding replyAll_def by (metis (no_types, lifting) imageE list.set_map prod.inject)
qed

lemma reply_of_submitted:
  assumes "submit_inv s" "(requests, err) \<in> set (sq_batches s)" "r \<in> set requests"
  shows "map_of (sq_replies s) (sq_result r) = Some err"
proof -
  have "distinct (map sq_result (concat (map fst (sq_batches s))))"
    using submit_invD(1,2) [OF assms(1)] by (simp add: unique_results_def submitted_def)
  from reply_of_batch [OF this assms(2,3)] show ?thesis by (simp add: submit_invD(3) [OF assms(1)] map_add_def)
qed

lemma replied_submitted:
  assumes "submit_inv s" "map_of (sq_replies s) (sq_result r) = Some err" "r \<in> set (sq_sent s)" "err \<noteq> Some SubmitShuttingDown"
  shows "\<exists>requests. (requests, err) \<in> set (sq_batches s) \<and> r \<in> set requests"
proof -
  have "(sq_result r, err) \<in> set (sq_replies s)" using assms(2) by (rule map_of_SomeD)
  then have "(sq_result r, err) \<in> set (concat (map (\<lambda>(requests, err). replyAll requests err) (sq_batches s)))"
    using assms(4) by (auto simp: submit_invD(3) [OF assms(1)] replyAll_def)
  then obtain requests r' where r': "(requests, err) \<in> set (sq_batches s)" "r' \<in> set requests" "sq_result r' = sq_result r"
    using replies_batch by blast
  moreover have "inj_on sq_result (set (sq_sent s))"
    using submit_invD(2) [OF assms(1)] by (simp add: unique_results_def distinct_map)
  moreover have "r' \<in> set (sq_sent s)"
    using r'(1,2) by (force simp: submit_invD(1) [OF assms(1)] submitted_def)
  ultimately show ?thesis using assms(3) by (metis inj_onD)
qed



end
