(* ===== verification/Session_Ops.thy ===== *)
theory Session_Ops
  imports Submit_Queue
begin

text \<open>
  The remote operations of \<open>ActorSession\<close> in \<^verbatim>\<open>internal/pump/pump.go\<close>. The three shapes of a remote
  call come first: \<open>submitActorOperation\<close> (intents, schedules, queues, managed work), \<open>kv\<close> and \<open>sqlite\<close>.
  The operations built on one of them take it as the argument \<open>call\<close>, the session and the context fixed. The
  retry loops of \<open>submitHTTP\<close>, \<open>submitWebSocket\<close> and \<open>EndManagedWork\<close> run over the list of their
  attempts.
\<close>

section \<open>Actor operations\<close>

datatype wait_outcome =
    WaitResult Event
  | WaitContext ctx_error
  | WaitTimeout
  | WaitSessionDone
  | WaitPumpDone

text \<open>The world as one operation meets it: the result of its submission, the wait, and the cancellation of a queue wait.\<close>

record 'w op_world =
  ow_submit :: "submit_error option"
  ow_outcome :: wait_outcome
  ow_settle_submit :: "submit_error option"
  ow_settle_outcome :: wait_outcome
  ow_table :: "(u64, 'w) waiters"

definition isQueueWait :: "CommandKind \<Rightarrow> bool" where
  "isQueueWait k \<longleftrightarrow> k = CommandQueueNext \<or> k = CommandQueueEnqueueWait"

definition settleQueueCancellation ::
  "ActorSession \<Rightarrow> CommandKind \<Rightarrow> u64 \<Rightarrow> 'w op_world \<Rightarrow> Event option \<times> Command list" where
  "settleQueueCancellation s kind operationID world =
     ((case ow_settle_submit world of
         Some _ \<Rightarrow> None
       | None \<Rightarrow>
           (case ow_settle_outcome world of
              WaitResult event \<Rightarrow>
                if ev_Error event = None \<and> (kind = CommandQueueEnqueueWait \<or> ev_QueueMessage event \<noteq> None)
                then Some event else None
            | _ \<Rightarrow> None)),
      [zeroCommand\<lparr>cmd_Kind := CommandQueueCancel, cmd_AID := ai_aid (ss_identity s),
         cmd_Generation := ai_generation (ss_identity s), cmd_TargetOperation := operationID\<rparr>])"

definition intentTimeoutError :: go_error where
  "intentTimeoutError = HandlerError ''actor_intent_timeout'' ''actor intent was not acknowledged within 35s''"

text \<open>A queue wait has no timer: its timeout channel is nil, and that arm never fires (\<open>None\<close>).\<close>

definition finishActorOperation ::
  "ActorSession \<Rightarrow> Command \<Rightarrow> u64 \<Rightarrow> 'w op_world \<Rightarrow> ((go_error + Event) \<times> (u64, 'w) waiters \<times> Command list) option" where
  "finishActorOperation s command operationID world =
     (let queueWait = isQueueWait (cmd_Kind command);
          abandoned = abandonActorIntentWaiter (ow_table world) operationID in
      case ow_outcome world of
        WaitResult event \<Rightarrow>
          (case ev_Error event of
             Some e \<Rightarrow> Some (Inl (HandlerError (we_Code e) (we_Message e)), ow_table world, [command])
           | None \<Rightarrow> Some (Inr event, ow_table world, [command]))
      | WaitContext e \<Rightarrow>
          if queueWait then
            (case settleQueueCancellation s (cmd_Kind command) operationID world of
               (Some event, cs) \<Rightarrow> Some (Inr event, ow_table world, command # cs)
             | (None, cs) \<Rightarrow> Some (Inl (ContextError e), abandoned, command # cs))
          else Some (Inl (ContextError e), abandoned, [command])
      | WaitTimeout \<Rightarrow> if queueWait then None else Some (Inl intentTimeoutError, abandoned, [command])
      | WaitSessionDone \<Rightarrow> Some (Inl ErrShuttingDown, abandoned, [command])
      | WaitPumpDone \<Rightarrow> Some (Inl ErrShuttingDown, abandoned, [command]))"

text \<open>\<open>None\<close>: the call has not returned, as the search for an operation id or its wait has not ended.\<close>

definition submitActorOperation ::
  "ActorSession option \<Rightarrow> go_context option \<Rightarrow> (u64, 'w) waiters \<Rightarrow> 'w \<Rightarrow> Command \<Rightarrow> 'w op_world \<Rightarrow>
   ((go_error + Event) \<times> (u64, 'w) waiters \<times> Command list) option" where
  "submitActorOperation session ctx table result command world =
     (case session of
        None \<Rightarrow> Some (Inl SessionUnavailable, table, [])
      | Some s \<Rightarrow>
          (case ctx of
             None \<Rightarrow> Some (Inl (NilContext ''actor operation context is nil''), table, [])
           | Some c \<Rightarrow>
               (case gc_err c of
                  Some e \<Rightarrow> Some (Inl (ContextError e), table, [])
                | None \<Rightarrow>
                    if \<not> isAccepting s then Some (Inl ErrShuttingDown, table, [])
                    else
                      (case addActorIntentWaiter table result of
                         None \<Rightarrow> None
                       | Some (operationID, table) \<Rightarrow>
                           let command = command\<lparr>cmd_OperationID := operationID, cmd_AID := ai_aid (ss_identity s),
                                           cmd_Generation := ai_generation (ss_identity s)\<rparr> in
                           (case ow_submit world of
                              Some e \<Rightarrow> Some (Inl (SubmitError e), removeActorIntentWaiter (ow_table world) operationID, [command])
                            | None \<Rightarrow> finishActorOperation s command operationID world)))))"

definition submitActorIntent ::
  "ActorSession option \<Rightarrow> (u64, 'w) waiters \<Rightarrow> 'w \<Rightarrow> Command \<Rightarrow> 'w op_world \<Rightarrow>
   ((go_error + unit) \<times> (u64, 'w) waiters \<times> Command list) option" where
  "submitActorIntent session table result command world =
     map_option (\<lambda>(r, rest). (map_sum id (\<lambda>_. ()) r, rest))
       (submitActorOperation session (Some \<lparr>gc_err = None, gc_remaining = None\<rparr>) table result command world)"


section \<open>Schedules\<close>

type_synonym remote_call = "Command \<Rightarrow> go_error + Event"

text \<open>\<open>duration / time.Millisecond\<close>, rounded up.\<close>

definition durationMilliseconds :: "int \<Rightarrow> u64" where
  "durationMilliseconds duration =
     (if duration \<le> 0 then 0
      else word_of_int (let ms = duration div millisecond in if duration mod millisecond \<noteq> 0 then ms + 1 else ms))"

definition scheduleInvalid :: "string \<Rightarrow> go_error" where
  "scheduleInvalid what = HandlerError ''schedule_result_invalid'' what"

definition scheduledEvent :: "ScheduledEvent \<Rightarrow> ScheduledEvent" where
  "scheduledEvent e = \<lparr>se_ID = se_ID e, se_Action = se_Action e, se_Args = cloneBytesOrEmpty (se_Args e), se_RunAt = se_RunAt e\<rparr>"

definition ScheduleAfter :: "remote_call \<Rightarrow> int \<Rightarrow> string \<Rightarrow> bytes option \<Rightarrow> go_error + string" where
  "ScheduleAfter call delay action args =
     bindR (checkR (delay < 0) (PlainError ''schedule delay is negative'')) (\<lambda>_.
     bindR (call (zeroCommand\<lparr>cmd_Kind := CommandScheduleAfter, cmd_DelayMS := durationMilliseconds delay,
                   cmd_Action := action, cmd_ScheduleArgs := cloneBytesOrEmpty args\<rparr>)) (\<lambda>event.
     if ev_ScheduleOperation event \<noteq> ''create'' \<or> ev_ScheduleID event = []
     then Inl (scheduleInvalid ''native create result is incomplete'')
     else Inr (ev_ScheduleID event)))"

definition ScheduleAt :: "remote_call \<Rightarrow> i64 \<Rightarrow> string \<Rightarrow> bytes option \<Rightarrow> go_error + string" where
  "ScheduleAt call runAt action args =
     bindR (call (zeroCommand\<lparr>cmd_Kind := CommandScheduleAt, cmd_RunAt := runAt, cmd_Action := action,
                   cmd_ScheduleArgs := cloneBytesOrEmpty args\<rparr>)) (\<lambda>event.
     if ev_ScheduleOperation event \<noteq> ''create'' \<or> ev_ScheduleID event = []
     then Inl (scheduleInvalid ''native create result is incomplete'')
     else Inr (ev_ScheduleID event))"

definition CancelSchedule :: "remote_call \<Rightarrow> string \<Rightarrow> go_error + bool" where
  "CancelSchedule call scheduleID =
     bindR (call (zeroCommand\<lparr>cmd_Kind := CommandScheduleCancel, cmd_ScheduleID := scheduleID\<rparr>)) (\<lambda>event.
     case (ev_ScheduleOperation event = ''cancel'', ev_Cancelled event) of
       (True, Some b) \<Rightarrow> Inr b
     | _ \<Rightarrow> Inl (scheduleInvalid ''native cancel result is incomplete''))"

definition GetSchedule :: "remote_call \<Rightarrow> string \<Rightarrow> go_error + ScheduledEvent option" where
  "GetSchedule call scheduleID =
     bindR (call (zeroCommand\<lparr>cmd_Kind := CommandScheduleGet, cmd_ScheduleID := scheduleID\<rparr>)) (\<lambda>event.
     if ev_ScheduleOperation event \<noteq> ''get'' \<or> length (ev_Schedules event) > 1
     then Inl (scheduleInvalid ''native get result is invalid'')
     else case ev_Schedules event of [] \<Rightarrow> Inr None | e # _ \<Rightarrow> Inr (Some (scheduledEvent e)))"

definition ListSchedules :: "remote_call \<Rightarrow> go_error + ScheduledEvent list" where
  "ListSchedules call =
     bindR (call (zeroCommand\<lparr>cmd_Kind := CommandScheduleList\<rparr>)) (\<lambda>event.
     if ev_ScheduleOperation event \<noteq> ''list'' then Inl (scheduleInvalid ''native list result is invalid'')
     else Inr (map scheduledEvent (ev_Schedules event)))"


section \<open>Queues\<close>

definition queueInvalid :: "string \<Rightarrow> go_error" where
  "queueInvalid what = HandlerError ''queue_result_invalid'' what"

definition queueMessage :: "QueueMessage \<Rightarrow> QueueMessage" where
  "queueMessage m = m\<lparr>qm_Body := cloneBytesOrEmpty (qm_Body m)\<rparr>"

definition QueueSend :: "remote_call \<Rightarrow> string \<Rightarrow> bytes option \<Rightarrow> go_error + QueueMessage" where
  "QueueSend call name body =
     bindR (call (zeroCommand\<lparr>cmd_Kind := CommandQueueSend, cmd_Name := name, cmd_Body := cloneBytesOrEmpty body\<rparr>)) (\<lambda>event.
     case (ev_QueueOperation event = ''send'', ev_QueueMessage event) of
       (True, Some m) \<Rightarrow> Inr (queueMessage m)
     | _ \<Rightarrow> Inl (queueInvalid ''native send result is incomplete''))"

definition QueueEnqueueWait :: "remote_call \<Rightarrow> string \<Rightarrow> bytes option \<Rightarrow> int option \<Rightarrow> go_error + bytes option" where
  "QueueEnqueueWait call name body timeout =
     bindR (call (zeroCommand\<lparr>cmd_Kind := CommandQueueEnqueueWait, cmd_Name := name, cmd_Body := cloneBytesOrEmpty body,
                   cmd_QueueTimeoutMS := map_option durationMilliseconds timeout\<rparr>)) (\<lambda>event.
     if ev_QueueOperation event \<noteq> ''enqueue_wait'' \<or> ev_QueueMessage event \<noteq> None
     then Inl (queueInvalid ''native enqueue-and-wait result is invalid'')
     else Inr (ev_QueueResponse event))"

definition QueueNext :: "remote_call \<Rightarrow> string list \<Rightarrow> int option \<Rightarrow> bool \<Rightarrow> go_error + QueueMessage option" where
  "QueueNext call names timeout completable =
     bindR (call (zeroCommand\<lparr>cmd_Kind := CommandQueueNext, cmd_Names := names,
                   cmd_QueueTimeoutMS := map_option durationMilliseconds timeout, cmd_Completable := completable\<rparr>)) (\<lambda>event.
     if ev_QueueOperation event \<noteq> ''next'' \<or> ev_QueueResponse event \<noteq> None
     then Inl (queueInvalid ''native next result is invalid'')
     else Inr (map_option queueMessage (ev_QueueMessage event)))"

definition QueueComplete :: "remote_call \<Rightarrow> u64 \<Rightarrow> bytes option \<Rightarrow> go_error + unit" where
  "QueueComplete call messageID response =
     bindR (call (zeroCommand\<lparr>cmd_Kind := CommandQueueComplete, cmd_MessageID := messageID, cmd_Response := response\<rparr>)) (\<lambda>event.
     checkR (ev_QueueOperation event \<noteq> ''complete'' \<or> ev_QueueMessage event \<noteq> None \<or> ev_QueueResponse event \<noteq> None)
       (queueInvalid ''native complete result is invalid''))"

definition QueueRetry :: "remote_call \<Rightarrow> u64 \<Rightarrow> go_error + unit" where
  "QueueRetry call messageID =
     bindR (call (zeroCommand\<lparr>cmd_Kind := CommandQueueRetry, cmd_MessageID := messageID\<rparr>)) (\<lambda>event.
     checkR (ev_QueueOperation event \<noteq> ''retry'' \<or> ev_QueueMessage event \<noteq> None \<or> ev_QueueResponse event \<noteq> None)
       (queueInvalid ''native retry result is invalid''))"


section \<open>Intents and managed work\<close>

text \<open>The guard of the intents; the command and its submission follow when it passes.\<close>

definition intentGuard :: "ActorSession option \<Rightarrow> go_error + ActorSession" where
  "intentGuard session =
     (case session of None \<Rightarrow> Inl SessionUnavailable | Some s \<Rightarrow> if \<not> isAccepting s then Inl ErrShuttingDown else Inr s)"

definition SetAlarm :: "ActorSession option \<Rightarrow> (Command \<Rightarrow> go_error + unit) \<Rightarrow> i64 option \<Rightarrow> go_error + unit" where
  "SetAlarm session call alarmTS =
     bindR (intentGuard session) (\<lambda>_. call (zeroCommand\<lparr>cmd_Kind := CommandSetAlarm, cmd_AlarmTS := alarmTS\<rparr>))"

definition Sleep :: "ActorSession option \<Rightarrow> (Command \<Rightarrow> go_error + unit) \<Rightarrow> go_error + unit" where
  "Sleep session call = bindR (intentGuard session) (\<lambda>_. call (zeroCommand\<lparr>cmd_Kind := CommandSleepIntent\<rparr>))"

definition Destroy :: "ActorSession option \<Rightarrow> (Command \<Rightarrow> go_error + unit) \<Rightarrow> go_error + unit" where
  "Destroy session call = bindR (intentGuard session) (\<lambda>_. call (zeroCommand\<lparr>cmd_Kind := CommandDestroyIntent\<rparr>))"

text \<open>The work id is taken from the session's counter, which skips zero when it wraps.\<close>

definition BeginManagedWork :: "ActorSession \<Rightarrow> remote_call \<Rightarrow> string \<Rightarrow> (go_error + u64) \<times> ActorSession" where
  "BeginManagedWork s call kind =
     (let workID = ss_nextWorkID s + 1;
          workID = (if workID = 0 then workID + 1 else workID);
          s = s\<lparr>ss_nextWorkID := workID\<rparr>
      in (bindR (call (zeroCommand\<lparr>cmd_Kind := CommandManagedWorkBegin, cmd_WorkID := workID, cmd_WorkKind := kind\<rparr>))
            (\<lambda>_. Inr workID), s))"


section \<open>Submission with retries\<close>

text \<open>
  One round of a retry loop: the result of \<open>submitInternal\<close>, whether the retry context has expired by then, the
  caller's own context, and what ends the back-off.
\<close>

datatype backoff_end = BackoffTimer | BackoffRetryDone | BackoffSessionDone | BackoffPumpDone

record retry_round =
  rr_submit :: "submit_error option"
  rr_retryExpired :: bool
  rr_ctx :: "ctx_error option"
  rr_end :: backoff_end

definition expiredError :: "string \<Rightarrow> string \<Rightarrow> ctx_error option \<Rightarrow> go_error" where
  "expiredError code message ctx = (case ctx of Some e \<Rightarrow> ContextError e | None \<Rightarrow> HandlerError code message)"

text \<open>
  The loop shared by \<open>submitHTTP\<close> and \<open>submitWebSocket\<close>: its result (\<open>None\<close> while it still retries) and the
  back-offs it has slept, in nanoseconds and without the jitter.
\<close>

fun retryLoop :: "string \<Rightarrow> string \<Rightarrow> int \<Rightarrow> retry_round list \<Rightarrow> (go_error + unit) option \<times> int list" where
  "retryLoop code message backoff [] = (None, [])"
| "retryLoop code message backoff (r # rs) =
     (case rr_submit r of
        None \<Rightarrow> (Some (Inr ()), [])
      | Some e \<Rightarrow>
          if rr_retryExpired r then (Some (Inl (expiredError code message (rr_ctx r))), [])
          else if submitErrorCode e \<noteq> ''backpressure'' then (Some (Inl (SubmitError e)), [])
          else
            (case rr_end r of
               BackoffRetryDone \<Rightarrow> (Some (Inl (expiredError code message (rr_ctx r))), [backoff])
             | BackoffSessionDone \<Rightarrow> (Some (Inl ErrShuttingDown), [backoff])
             | BackoffPumpDone \<Rightarrow> (Some (Inl ErrShuttingDown), [backoff])
             | BackoffTimer \<Rightarrow>
                 (case retryLoop code message (min (backoff * 2) (25 * millisecond)) rs of
                    (result, slept) \<Rightarrow> (result, backoff # slept))))"

definition retryGuard :: "ActorSession option \<Rightarrow> go_context option \<Rightarrow> string \<Rightarrow> go_error + unit" where
  "retryGuard session ctx what =
     (case session of None \<Rightarrow> Inl SessionUnavailable | Some _ \<Rightarrow>
        (case ctx of None \<Rightarrow> Inl (NilContext what) | Some _ \<Rightarrow> Inr ()))"

definition submitHTTP ::
  "ActorSession option \<Rightarrow> go_context option \<Rightarrow> retry_round list \<Rightarrow> (go_error + unit) option" where
  "submitHTTP session ctx rounds =
     (case retryGuard session ctx ''HTTP response context is nil'' of
        Inl e \<Rightarrow> Some (Inl e)
      | Inr _ \<Rightarrow> fst (retryLoop ''http_response_backpressure_timeout''
                   ''HTTP response submission remained backpressured for 30s'' millisecond rounds))"

definition submitWebSocket ::
  "ActorSession option \<Rightarrow> go_context option \<Rightarrow> retry_round list \<Rightarrow> (go_error + unit) option" where
  "submitWebSocket session ctx rounds =
     (case retryGuard session ctx ''WebSocket submission context is nil'' of
        Inl e \<Rightarrow> Some (Inl e)
      | Inr _ \<Rightarrow> fst (retryLoop ''ws_backpressure_timeout''
                   ''WebSocket submission remained backpressured for 30s'' millisecond rounds))"

text \<open>\<open>EndManagedWork\<close> retries until its session or the pump is done.\<close>

datatype end_arm = EndTimer | EndSessionDone | EndPumpDone

fun endLoop :: "int \<Rightarrow> (submit_error option \<times> end_arm) list \<Rightarrow> (go_error + unit) option \<times> int list" where
  "endLoop backoff [] = (None, [])"
| "endLoop backoff ((submit, arm) # rounds) =
     (case submit of
        None \<Rightarrow> (Some (Inr ()), [])
      | Some e \<Rightarrow>
          if submitErrorCode e \<noteq> ''backpressure'' then (Some (Inl (SubmitError e)), [])
          else
            (case arm of
               EndSessionDone \<Rightarrow> (Some (Inl ErrShuttingDown), [backoff])
             | EndPumpDone \<Rightarrow> (Some (Inl ErrShuttingDown), [backoff])
             | EndTimer \<Rightarrow>
                 (case endLoop (min (backoff * 2) (25 * millisecond)) rounds of
                    (result, slept) \<Rightarrow> (result, backoff # slept))))"

definition EndManagedWork ::
  "ActorSession option \<Rightarrow> u64 \<Rightarrow> (submit_error option \<times> end_arm) list \<Rightarrow> (go_error + unit) option \<times> Command option" where
  "EndManagedWork session workID rounds =
     (case session of
        None \<Rightarrow> (Some (Inl SessionUnavailable), None)
      | Some s \<Rightarrow>
          if workID = 0 then (Some (Inl (PlainError ''managed work ID is zero'')), None)
          else (fst (endLoop millisecond rounds),
                Some (zeroCommand\<lparr>cmd_Kind := CommandManagedWorkEnd, cmd_AID := ai_aid (ss_identity s),
                        cmd_Generation := ai_generation (ss_identity s), cmd_WorkID := workID\<rparr>)))"

definition maxHTTPChunk :: nat where "maxHTTPChunk = 2 ^ 20"
definition maxWSMessage :: nat where "maxWSMessage = 2 ^ 20"

definition tooLarge :: "string \<Rightarrow> nat \<Rightarrow> nat \<Rightarrow> go_error" where
  "tooLarge what n limit = PlainError (what @ '' is '' @ decimal n @ '' bytes, maximum is '' @ decimal limit)"

text \<open>The operations built on them: \<open>submit\<close> is the retry loop, applied to the command.\<close>

definition StartHTTPResponse ::
  "(Command \<Rightarrow> 'r) \<Rightarrow> u64 \<Rightarrow> u16 \<Rightarrow> (string \<times> string) list \<Rightarrow> bytes option \<Rightarrow> bool \<Rightarrow> 'r" where
  "StartHTTPResponse submit requestID status headers body stream =
     submit (zeroCommand\<lparr>cmd_Kind := CommandHTTPResponseStart, cmd_RequestID := requestID, cmd_Status := status,
               cmd_Headers := headers, cmd_Body := cloneBytesOrEmpty body, cmd_Stream := stream\<rparr>)"

definition WriteHTTPResponseChunk ::
  "(Command \<Rightarrow> go_error + unit) \<Rightarrow> u64 \<Rightarrow> bytes option \<Rightarrow> bool \<Rightarrow> go_error + unit" where
  "WriteHTTPResponseChunk submit requestID body finish =
     bindR (checkR (blen body > maxHTTPChunk) (tooLarge ''HTTP response chunk'' (blen body) maxHTTPChunk)) (\<lambda>_.
     submit (zeroCommand\<lparr>cmd_Kind := CommandHTTPResponseChunk, cmd_RequestID := requestID,
               cmd_Body := cloneBytesOrEmpty body, cmd_Finish := finish\<rparr>))"

definition failHTTP :: "(Command \<Rightarrow> 'r) \<Rightarrow> u64 \<Rightarrow> WireError option \<Rightarrow> 'r" where
  "failHTTP submit requestID failure =
     submit (zeroCommand\<lparr>cmd_Kind := CommandHTTPResponseStart, cmd_RequestID := requestID, cmd_Headers := [],
               cmd_Body := Some [], cmd_Error := failure\<rparr>)"

definition SendWebSocket :: "(Command \<Rightarrow> go_error + unit) \<Rightarrow> string \<Rightarrow> bytes option \<Rightarrow> bool \<Rightarrow> go_error + unit" where
  "SendWebSocket submit wsID data binary =
     bindR (checkR (wsID = []) (PlainError ''WebSocket ID is empty'')) (\<lambda>_.
     bindR (checkR (blen data > maxWSMessage) (tooLarge ''WebSocket message'' (blen data) maxWSMessage)) (\<lambda>_.
     submit (zeroCommand\<lparr>cmd_Kind := CommandWSSend, cmd_WSID := wsID, cmd_Data := cloneBytesOrEmpty data,
               cmd_Binary := binary\<rparr>)))"

definition CloseWebSocket :: "(Command \<Rightarrow> go_error + unit) \<Rightarrow> string \<Rightarrow> u16 \<Rightarrow> string \<Rightarrow> go_error + unit" where
  "CloseWebSocket submit wsID code reason =
     bindR (checkR (wsID = []) (PlainError ''WebSocket ID is empty'')) (\<lambda>_.
     submit (zeroCommand\<lparr>cmd_Kind := CommandWSClose, cmd_WSID := wsID, cmd_CloseCode := Some code,
               cmd_CloseReason := Some reason, cmd_Hibernate := False\<rparr>))"

definition Broadcast ::
  "ActorSession option \<Rightarrow> (Command \<Rightarrow> go_error + unit) \<Rightarrow> string \<Rightarrow> bytes option \<Rightarrow> string option \<Rightarrow> go_error + unit" where
  "Broadcast session submit event payload excludeConn =
     bindR (intentGuard session) (\<lambda>s.
     bindR (checkR (event = []) (PlainError ''broadcast event is empty'')) (\<lambda>_.
     bindR (checkR (blen payload > maxWSMessage) (tooLarge ''broadcast payload'' (blen payload) maxWSMessage)) (\<lambda>_.
     submit (zeroCommand\<lparr>cmd_Kind := CommandBroadcast, cmd_AID := ai_aid (ss_identity s),
               cmd_Generation := ai_generation (ss_identity s), cmd_Event := event,
               cmd_Payload := cloneBytesOrEmpty payload, cmd_ExcludeConn := excludeConn\<rparr>))))"


section \<open>What the calls guarantee\<close>

lemma no_channel_left [simp]:
  "wt_pending (removeActorIntentWaiter t i) i \<noteq> Some (Some w)" "wt_pending (abandonActorIntentWaiter t i) i \<noteq> Some (Some w)"
  by (simp_all add: waiter_defs removeWaiter_def abandonWaiter_def)

lemma finishActorOperation_result:
  assumes "finishActorOperation s command i world = Some (r, table', cs)"
  shows "hd cs = command" "cs \<noteq> []"
    "r = Inr event \<Longrightarrow> ev_Error event = None \<and> (ow_outcome world = WaitResult event \<or> ow_settle_outcome world = WaitResult event)"
    "(\<forall>e. ow_outcome world \<noteq> WaitResult e) \<Longrightarrow> isl r \<Longrightarrow> wt_pending table' i \<noteq> Some (Some w)"
  using assms
  by (auto simp: finishActorOperation_def settleQueueCancellation_def Let_def
      split: wait_outcome.splits option.splits if_splits prod.splits)

lemma submitActorOperation_cases:
  assumes "submitActorOperation (Some s) (Some c) table result command world = Some (r, table', cs)" "cs \<noteq> []"
  obtains i table1 where "addActorIntentWaiter table result = Some (i, table1)"
    "ow_submit world = None \<and> finishActorOperation s (command\<lparr>cmd_OperationID := i, cmd_AID := ai_aid (ss_identity s),
         cmd_Generation := ai_generation (ss_identity s)\<rparr>) i world = Some (r, table', cs) \<or>
     (\<exists>e. ow_submit world = Some e \<and> r = Inl (SubmitError e) \<and> table' = removeActorIntentWaiter (ow_table world) i \<and>
       cs = [command\<lparr>cmd_OperationID := i, cmd_AID := ai_aid (ss_identity s), cmd_Generation := ai_generation (ss_identity s)\<rparr>])"
  using assms by (auto simp: submitActorOperation_def Let_def split: option.splits if_splits)


definition sleep_world :: "nat op_world" where
  "sleep_world =
     \<lparr>ow_submit = None, ow_outcome = WaitTimeout, ow_settle_submit = None, ow_settle_outcome = WaitTimeout, ow_table = noWaiters\<rparr>"

lemma sleep_times_out:
  "submitActorOperation (Some session0) (Some \<lparr>gc_err = None, gc_remaining = None\<rparr>) noWaiters 0
     (zeroCommand\<lparr>cmd_Kind := CommandSleepIntent\<rparr>) sleep_world =
   Some (Inl intentTimeoutError, noWaiters,
     [zeroCommand\<lparr>cmd_Kind := CommandSleepIntent, cmd_OperationID := 1, cmd_AID := ''a'', cmd_Generation := 1\<rparr>])"
proof -
  have "nextFreeID 0 (Map.empty :: u64 \<rightharpoonup> nat option) = Some 1" by (subst nextFreeID.simps) simp
  then have "addActorIntentWaiter noWaiters (0 :: nat) = Some (1, \<lparr>wt_next = 1, wt_pending = [1 \<mapsto> Some 0]\<rparr>)"
    by (simp add: waiter_defs addWaiter_def noWaiters_def)
  moreover have "abandonActorIntentWaiter noWaiters 1 = (noWaiters :: (u64, nat) waiters)"
    by (simp add: waiter_defs abandonWaiter_def noWaiters_def)
  ultimately show ?thesis
    by (simp add: submitActorOperation_def finishActorOperation_def isAccepting_def session0_def isQueueWait_def sleep_world_def)
qed


text \<open>A round after which the retry loop goes on.\<close>

definition backpressured :: "retry_round \<Rightarrow> bool" where
  "backpressured r \<longleftrightarrow>
     (\<exists>e. rr_submit r = Some e \<and> submitErrorCode e = ''backpressure'') \<and> \<not> rr_retryExpired r \<and> rr_end r = BackoffTimer"

lemma retryLoop_step:
  "retryLoop code message backoff (r # rs) =
     (if backpressured r
      then apsnd (Cons backoff) (retryLoop code message (min (backoff * 2) (25 * millisecond)) rs)
      else retryLoop code message backoff [r])"
  by (cases "retryLoop code message (min (backoff * 2) (25 * millisecond)) rs")
    (auto simp: backpressured_def split: option.splits backoff_end.splits)

lemma retryLoop_single:
  "\<not> backpressured r \<Longrightarrow>
   \<exists>res slept. retryLoop code message backoff [r] = (Some res, slept) \<and> (res = Inr () \<longleftrightarrow> rr_submit r = None) \<and> set slept \<subseteq> {backoff} \<and> length slept \<le> 1"
  by (auto simp: backpressured_def split: option.splits backoff_end.splits)

lemma retryLoop_prefix:
  assumes "\<forall>r \<in> set pre. backpressured r"
  shows "retryLoop code message (min (2 ^ k) 25 * millisecond) (pre @ rs) =
    apsnd ((@) (map (\<lambda>j. min (2 ^ (k + j)) 25 * millisecond) [0 ..< length pre]))
      (retryLoop code message (min (2 ^ (k + length pre)) 25 * millisecond) rs)"
  using assms
proof (induction pre arbitrary: k)
  case (Cons r pre)
  have double: "min (min (2 ^ k) 25 * millisecond * 2) (25 * millisecond) = min (2 ^ Suc k) 25 * millisecond"
    by (simp add: millisecond_def min_def)
  have "retryLoop code message (min (2 ^ k) 25 * millisecond) ((r # pre) @ rs) =
      apsnd (Cons (min (2 ^ k) 25 * millisecond)) (retryLoop code message (min (2 ^ Suc k) 25 * millisecond) (pre @ rs))"
    using Cons.prems retryLoop_step [of code message "min (2 ^ k) 25 * millisecond" r "pre @ rs"] double by simp
  also have "\<dots> = apsnd (Cons (min (2 ^ k) 25 * millisecond) \<circ> (@) (map (\<lambda>j. min (2 ^ (Suc k + j)) 25 * millisecond) [0 ..< length pre]))
      (retryLoop code message (min (2 ^ (Suc k + length pre)) 25 * millisecond) rs)"
    using Cons.IH [of "Suc k"] Cons.prems by (simp add: apsnd_compose)
  also have "Cons (min (2 ^ k) 25 * millisecond) \<circ> (@) (map (\<lambda>j. min (2 ^ (Suc k + j)) 25 * millisecond) [0 ..< length pre]) =
      (@) (map (\<lambda>j. min (2 ^ (k + j)) 25 * millisecond) [0 ..< length (r # pre)])"
    by (rule ext) (simp add: upt_conv_Cons map_Suc_upt [symmetric] del: upt_Suc map_Suc_upt)
  finally show ?case by simp
qed (simp add: apsnd_def map_prod_def split: prod.splits)



end
