(* ===== verification/Session_Store.thy ===== *)
theory Session_Store
  imports Session_Ops
begin

text \<open>
  The storage calls of \<open>ActorSession\<close> in \<^verbatim>\<open>internal/pump/pump.go\<close>: the KV operations on \<open>kv\<close> and the SQLite
  operations on \<open>sqlite\<close>, with \<open>DefinitelyReadOnly\<close> of \<^verbatim>\<open>internal/sqliteutil/sql.go\<close>. As in
  \<open>Session_Ops\<close>, a call meets a world: what its submission answers, which arms of its selects fire, and
  the waiter table and the session as it finds them when it returns.
\<close>

section \<open>KV\<close>

datatype kv_outcome = KVResult Event | KVContext ctx_error | KVSessionDone | KVPumpDone

record 'w kv_world =
  kw_submit :: "submit_error option"
  kw_outcome :: kv_outcome
  kw_table :: "(u64, 'w) waiters"

definition kv ::
  "ActorSession option \<Rightarrow> go_context option \<Rightarrow> (u64, 'w) waiters \<Rightarrow> 'w \<Rightarrow> Command \<Rightarrow> 'w kv_world \<Rightarrow>
   ((go_error + Event) \<times> (u64, 'w) waiters \<times> Command list) option" where
  "kv session ctx table result command world =
     (case session of
        None \<Rightarrow> Some (Inl SessionUnavailable, table, [])
      | Some s \<Rightarrow>
          (case ctx of
             None \<Rightarrow> Some (Inl (NilContext ''KV context is nil''), table, [])
           | Some c \<Rightarrow>
               (case gc_err c of
                  Some e \<Rightarrow> Some (Inl (ContextError e), table, [])
                | None \<Rightarrow>
                    if \<not> isAccepting s then Some (Inl ErrShuttingDown, table, [])
                    else
                      (case addKVWaiter table result of
                         None \<Rightarrow> None
                       | Some (kvID, table) \<Rightarrow>
                           let command = command\<lparr>cmd_KVID := kvID, cmd_AID := ai_aid (ss_identity s),
                                           cmd_Generation := ai_generation (ss_identity s)\<rparr>;
                               removed = removeKVWaiter (kw_table world) kvID in
                           Some (case kw_submit world of
                              Some e \<Rightarrow> (Inl (SubmitError e), removed, [command])
                            | None \<Rightarrow>
                                (case kw_outcome world of
                                   KVResult event \<Rightarrow>
                                     (case ev_Error event of
                                        Some e \<Rightarrow> (Inl (NativeError e), kw_table world, [command])
                                      | None \<Rightarrow> (Inr event, kw_table world, [command]))
                                 | KVContext e \<Rightarrow> (Inl (ContextError e), removed, [command])
                                 | KVSessionDone \<Rightarrow> (Inl ErrShuttingDown, removed, [command])
                                 | KVPumpDone \<Rightarrow> (Inl ErrShuttingDown, removed, [command])))))))"

text \<open>The value and whether it exists: an empty value that exists is nil and found.\<close>

definition KVGet :: "remote_call \<Rightarrow> bytes option \<Rightarrow> go_error + (bytes option \<times> bool)" where
  "KVGet call key =
     bindR (call (zeroCommand\<lparr>cmd_Kind := CommandKVGet, cmd_Key := appendNil key\<rparr>)) (\<lambda>result.
     Inr (appendNil (ev_Value result), ev_Value result \<noteq> None))"

definition KVList :: "remote_call \<Rightarrow> bytes option \<Rightarrow> bool \<Rightarrow> u32 option \<Rightarrow> go_error + KVEntry list" where
  "KVList call pre reverse limit =
     bindR (call (zeroCommand\<lparr>cmd_Kind := CommandKVList, cmd_Prefix := appendNil pre, cmd_Reverse := reverse,
                   cmd_Limit := limit\<rparr>)) (\<lambda>result.
     Inr (map (\<lambda>entry. \<lparr>kv_Key = appendNil (kv_Key entry), kv_Value = appendNil (kv_Value entry)\<rparr>) (ev_Entries result)))"

definition KVPut :: "remote_call \<Rightarrow> bytes option \<Rightarrow> bytes option \<Rightarrow> go_error + unit" where
  "KVPut call key val =
     bindR (call (zeroCommand\<lparr>cmd_Kind := CommandKVPut, cmd_Key := appendNil key, cmd_Value := appendNil val\<rparr>)) (\<lambda>_. Inr ())"

definition KVDelete :: "remote_call \<Rightarrow> bytes option \<Rightarrow> go_error + unit" where
  "KVDelete call key =
     bindR (call (zeroCommand\<lparr>cmd_Kind := CommandKVDelete, cmd_Key := appendNil key\<rparr>)) (\<lambda>_. Inr ())"


section \<open>Read-only statements\<close>

text \<open>
  \<open>strings.TrimSpace\<close> on the bytes of a string: the six ASCII spaces and the UTF-8 encodings of the other code points with
  \<open>unicode.IsSpace\<close>.
\<close>

definition unicode_spaces :: "nat list list" where
  "unicode_spaces =
     [[9], [10], [11], [12], [13], [32], [0xC2, 0x85], [0xC2, 0xA0], [0xE1, 0x9A, 0x80]] @
     map (\<lambda>b. [0xE2, 0x80, b]) ([0x80 ..< 0x8B] @ [0xA8, 0xA9, 0xAF]) @ [[0xE2, 0x81, 0x9F], [0xE3, 0x80, 0x80]]"

definition codes :: "string \<Rightarrow> nat list" where
  "codes s = map of_char s"

function trimStart :: "nat list list \<Rightarrow> nat list \<Rightarrow> nat list" where
  "trimStart spaces s =
     (case find (\<lambda>p. p \<noteq> [] \<and> take (length p) s = p) spaces of
        None \<Rightarrow> s
      | Some p \<Rightarrow> trimStart spaces (drop (length p) s))"
  by pat_completeness auto
termination
  by (relation "measure (\<lambda>(_, s). length s)") (auto simp: find_Some_iff intro!: diff_less)

declare trimStart.simps [simp del]

definition TrimSpace :: "nat list \<Rightarrow> nat list" where
  "TrimSpace s = rev (trimStart (map rev unicode_spaces) (rev (trimStart unicode_spaces s)))"

definition toUpper :: "nat \<Rightarrow> nat" where
  "toUpper c = (if 97 \<le> c \<and> c \<le> 122 then c - 32 else c)"

text \<open>
  \<open>EqualFold\<close> against \<open>SELECT\<close> on six bytes: the other code point that folds to a letter of it, U+017F, is two bytes long, so
  that six bytes with it hold fewer than six characters.
\<close>

definition DefinitelyReadOnly :: "string \<Rightarrow> bool" where
  "DefinitelyReadOnly sql =
     (let trimmed = TrimSpace (codes sql) in
      if length trimmed < 6 \<or> map toUpper (take 6 trimmed) \<noteq> codes ''SELECT'' then False
      else if length trimmed = 6 then True
      else trimmed ! 6 \<in> {32, 9, 10, 13, 12})"


section \<open>SQLite\<close>

datatype sqlite_signal =
    SqliteEvent Event
  | SqliteContext ctx_error
  | SqliteSessionDone
  | SqlitePumpDone

text \<open>
  The wait loop over the arms that fire; once it has noted a cancellation, the context's channel is nil. \<open>None\<close>: still waiting.
\<close>

fun sqliteLoop ::
  "bool \<Rightarrow> sqliteResponseAssembler \<Rightarrow> ctx_error option \<Rightarrow> sqlite_signal list \<Rightarrow> (go_error + SQLiteResponse) option" where
  "sqliteLoop mayWrite assembler cancellationErr [] = None"
| "sqliteLoop mayWrite assembler cancellationErr (SqliteEvent event # signals) =
     (case assembler_add assembler event of
        Inl e \<Rightarrow> Some (Inl (case cancellationErr of Some c \<Rightarrow> ContextError c | None \<Rightarrow> AssemblerError e))
      | Inr (True, assembler) \<Rightarrow> Some (Inr (as_response assembler))
      | Inr (False, assembler) \<Rightarrow> sqliteLoop mayWrite assembler cancellationErr signals)"
| "sqliteLoop mayWrite assembler cancellationErr (SqliteContext c # signals) =
     (if cancellationErr \<noteq> None then sqliteLoop mayWrite assembler cancellationErr signals
      else if \<not> mayWrite then Some (Inl (ContextError c))
      else sqliteLoop mayWrite assembler (Some c) signals)"
| "sqliteLoop mayWrite assembler cancellationErr (SqliteSessionDone # signals) = Some (Inl ErrShuttingDown)"
| "sqliteLoop mayWrite assembler cancellationErr (SqlitePumpDone # signals) = Some (Inl ErrShuttingDown)"

record 'w sqlite_world =
  qw_started :: bool
  qw_ends :: "ctx_error option"
  qw_enqueue :: enqueue_arm
  qw_reply :: reply_arm
  qw_signals :: "sqlite_signal list"
  qw_table :: "(u64, 'w) waiters"
  qw_session :: ActorSession

definition mayWrite :: "Command \<Rightarrow> bool" where
  "mayWrite command \<longleftrightarrow>
     cmd_Kind command \<noteq> CommandSQLiteExec \<and> cmd_Kind command \<noteq> CommandSQLiteQuery \<or> \<not> DefinitelyReadOnly (cmd_SQL command)"

text \<open>
  \<open>sqlite\<close> from the registered waiter on: the submission, under a context without cancellation when the command may write,
  and the loop. It returns the result and the waiter table.
\<close>

definition sqliteExchange ::
  "bool \<Rightarrow> u64 \<Rightarrow> 'w sqlite_world \<Rightarrow> ((go_error + SQLiteResponse) \<times> (u64, 'w) waiters) option" where
  "sqliteExchange write requestID world =
     (let submitEnds = (if write then None else qw_ends world) in
      case submitInternal (qw_started world) submitEnds (qw_enqueue world) (qw_reply world) of
        None \<Rightarrow> None
      | Some (Some e) \<Rightarrow> Some (Inl (SubmitError e), removeSQLiteWaiter (qw_table world) requestID)
      | Some None \<Rightarrow>
          map_option (\<lambda>r. (r, abandonSQLiteWaiter (qw_table world) requestID))
            (sqliteLoop write newAssembler None (qw_signals world)))"

definition sqlite ::
  "ActorSession option \<Rightarrow> go_context option \<Rightarrow> (u64, 'w) waiters \<Rightarrow> 'w \<Rightarrow> Command \<Rightarrow> 'w sqlite_world \<Rightarrow>
   ((go_error + SQLiteResponse) \<times> ActorSession option \<times> (u64, 'w) waiters \<times> Command list) option" where
  "sqlite session ctx table result command world =
     (case session of
        None \<Rightarrow> Some (Inl SessionUnavailable, None, table, [])
      | Some s \<Rightarrow>
          (case ctx of
             None \<Rightarrow> Some (Inl (NilContext ''SQLite context is nil''), session, table, [])
           | Some c \<Rightarrow>
               (case gc_err c of
                  Some e \<Rightarrow> Some (Inl (ContextError e), session, table, [])
                | None \<Rightarrow>
                    (case beginSQLite s of
                       Inl e \<Rightarrow> Some (Inl e, session, table, [])
                     | Inr s' \<Rightarrow>
                         (case sqliteDeadlineMillis (gc_remaining c) of
                            Inl _ \<Rightarrow> Some (Inl (ContextError CtxDeadlineExceeded), Some (finishSQLite s'), table, [])
                          | Inr deadlineMS \<Rightarrow>
                              (case addSQLiteWaiter table result of
                                 None \<Rightarrow> None
                               | Some (requestID, table) \<Rightarrow>
                                   let command = command\<lparr>cmd_SQLiteRequestID := requestID, cmd_AID := ai_aid (ss_identity s),
                                                   cmd_Generation := ai_generation (ss_identity s), cmd_DeadlineMS := deadlineMS\<rparr>
                                   in map_option (\<lambda>(r, table). (r, Some (finishSQLite (qw_session world)), table, [command]))
                                        (sqliteExchange (mayWrite command) requestID world)))))))"

type_synonym sqlite_call = "Command \<Rightarrow> go_error + SQLiteResponse"

definition SQLiteExec :: "sqlite_call \<Rightarrow> string \<Rightarrow> SQLiteValue list \<Rightarrow> string option \<Rightarrow> go_error + SQLiteResponse" where
  "SQLiteExec call sql args leaseKey =
     call (zeroCommand\<lparr>cmd_Kind := CommandSQLiteExec, cmd_SQL := sql, cmd_SQLArgs := args, cmd_LeaseKey := leaseKey\<rparr>)"

definition SQLiteQuery :: "sqlite_call \<Rightarrow> string \<Rightarrow> SQLiteValue list \<Rightarrow> string option \<Rightarrow> go_error + SQLiteResponse" where
  "SQLiteQuery call sql args leaseKey =
     call (zeroCommand\<lparr>cmd_Kind := CommandSQLiteQuery, cmd_SQL := sql, cmd_SQLArgs := args, cmd_LeaseKey := leaseKey\<rparr>)"

definition SQLiteBegin :: "sqlite_call \<Rightarrow> string \<Rightarrow> int \<Rightarrow> go_error + unit" where
  "SQLiteBegin call leaseKey timeout =
     bindR (call (zeroCommand\<lparr>cmd_Kind := CommandSQLiteBegin, cmd_LeaseKey := Some leaseKey,
                   cmd_TimeoutMS := durationMillis64 timeout\<rparr>)) (\<lambda>_. Inr ())"

definition SQLiteCommit :: "sqlite_call \<Rightarrow> string \<Rightarrow> go_error + unit" where
  "SQLiteCommit call leaseKey =
     bindR (call (zeroCommand\<lparr>cmd_Kind := CommandSQLiteCommit, cmd_LeaseKey := Some leaseKey\<rparr>)) (\<lambda>_. Inr ())"

definition SQLiteRollback :: "sqlite_call \<Rightarrow> string \<Rightarrow> go_error + unit" where
  "SQLiteRollback call leaseKey =
     bindR (call (zeroCommand\<lparr>cmd_Kind := CommandSQLiteRollback, cmd_LeaseKey := Some leaseKey\<rparr>)) (\<lambda>_. Inr ())"


section \<open>What the calls guarantee\<close>

definition events_of :: "sqlite_signal list \<Rightarrow> Event list" where
  "events_of signals = concat (map (\<lambda>x. case x of SqliteEvent e \<Rightarrow> [e] | _ \<Rightarrow> []) signals)"

lemma events_of_simps [simp]:
  "events_of [] = []" "events_of (SqliteEvent e # xs) = e # events_of xs" "events_of (SqliteContext c # xs) = events_of xs"
  "events_of (SqliteSessionDone # xs) = events_of xs" "events_of (SqlitePumpDone # xs) = events_of xs"
  by (simp_all add: events_of_def)

lemma sqliteLoop_write:
  assumes "SqliteSessionDone \<notin> set signals" "SqlitePumpDone \<notin> set signals"
  shows "case assemble a (events_of signals) of
      Inr None \<Rightarrow> sqliteLoop True a c signals = None
    | Inr (Some r) \<Rightarrow> sqliteLoop True a c signals = Some (Inr r)
    | Inl e \<Rightarrow> \<exists>err. sqliteLoop True a c signals = Some (Inl err)"
  using assms
proof (induction True a c signals rule: sqliteLoop.induct)
  case (2 a c event signals)
  then show ?case
    by (cases "assembler_add a event") (auto split: bool.splits sum.splits option.splits)
qed (auto split: sum.splits option.splits)

lemma sqliteLoop_context:
  "sqliteLoop True a c signals = Some (Inl (ContextError e)) \<Longrightarrow> \<exists>err. assemble a (events_of signals) = Inl err"
  by (induction True a c signals rule: sqliteLoop.induct)
    (auto split: sum.splits bool.splits option.splits prod.splits if_splits)

lemma mayWrite_stamped [simp]:
  "mayWrite (command\<lparr>cmd_SQLiteRequestID := i, cmd_AID := aid, cmd_Generation := g, cmd_DeadlineMS := d\<rparr>) = mayWrite command"
  by (simp add: mayWrite_def)

lemma sqlite_exchanged:
  assumes "sqlite (Some s) (Some c) table result command world = Some (r, s', table', cs)" "cs \<noteq> []"
  shows "\<exists>i t. sqliteExchange (mayWrite command) i world = Some (r, t)"
  using assms by (auto simp: sqlite_def Let_def split: option.splits sum.splits)

lemma sqliteExchange_write:
  assumes "sqliteExchange True i world = Some (r, t)"
  shows "r = Inl (ContextError e) \<Longrightarrow> \<exists>err. assemble newAssembler (events_of (qw_signals world)) = Inl err"
    "submitInternal (qw_started world) None (qw_enqueue world) (qw_reply world) = Some None \<Longrightarrow>
     SqliteSessionDone \<notin> set (qw_signals world) \<Longrightarrow> SqlitePumpDone \<notin> set (qw_signals world) \<Longrightarrow>
     assemble newAssembler (events_of (qw_signals world)) = Inr (Some resp) \<Longrightarrow> r = Inr resp"
  using assms sqliteLoop_write [of "qw_signals world" newAssembler None] sqliteLoop_context [of newAssembler None "qw_signals world" e]
  by (auto simp: sqliteExchange_def Let_def split: option.splits)


definition write_world :: "nat sqlite_world" where
  "write_world =
     \<lparr>qw_started = True, qw_ends = Some CtxCanceled, qw_enqueue = EnqueueSent, qw_reply = ReplyResult None,
      qw_signals = [SqliteContext CtxCanceled, SqliteEvent (zeroEvent\<lparr>ev_Done := True\<rparr>)], qw_table = noWaiters, qw_session = session0\<rparr>"

lemma write_assembled: "assemble newAssembler (events_of (qw_signals write_world)) = Inr (Some (as_response newAssembler))"
  by (simp add: write_world_def newAssembler_def assembler_add_def addMetadata_def zeroEvent_def maxSQLiteResponseBytes_def)

lemma write_run:
  "\<exists>s' t cs. sqlite (Some session0) (Some \<lparr>gc_err = None, gc_remaining = None\<rparr>) noWaiters 0
     (zeroCommand\<lparr>cmd_Kind := CommandSQLiteBegin\<rparr>) write_world = Some (Inr (as_response newAssembler), s', t, cs) \<and> cs \<noteq> []"
proof -
  have "nextFreeID 0 (Map.empty :: u64 \<rightharpoonup> nat option) = Some 1" by (subst nextFreeID.simps) simp
  then have "addSQLiteWaiter noWaiters (0 :: nat) = Some (1, \<lparr>wt_next = 1, wt_pending = [1 \<mapsto> Some 0]\<rparr>)"
    by (simp add: waiter_defs addWaiter_def noWaiters_def)
  moreover have "sqliteLoop True newAssembler None (qw_signals write_world) = Some (Inr (as_response newAssembler))"
    using sqliteLoop_write [of "qw_signals write_world" newAssembler None] write_assembled by (simp add: write_world_def)
  then have "sqliteExchange True 1 write_world = Some (Inr (as_response newAssembler), abandonSQLiteWaiter noWaiters 1)"
    by (simp add: sqliteExchange_def submitInternal_def enqueueSubmit_def) (simp add: write_world_def)
  moreover have "mayWrite (zeroCommand\<lparr>cmd_Kind := CommandSQLiteBegin\<rparr>)" by (simp add: mayWrite_def)
  moreover have "beginSQLite session0 = Inr (session0\<lparr>ss_activeSQLite := 1\<rparr>)" by (simp add: beginSQLite_def session0_def)
  moreover have "\<not> defaultSQLiteTimeout \<le> 0" by (simp add: defaultSQLiteTimeout_def millisecond_def)
  ultimately show ?thesis by (simp add: sqlite_def sqliteDeadlineMillis_def Let_def)
qed


end
