(* ===== verification/Pump.thy ===== *)
theory Pump
  imports Session_Store Event_Queues Http_Body
begin

text \<open>
  The event side of \<open>Pump\<close> in \<^verbatim>\<open>internal/pump/pump.go\<close>: the tables of live actors, HTTP requests, WebSockets,
  waiters and subscribers, \<open>handleInternalEvent\<close> with one definition per group of event kinds, and \<open>pollLoop\<close>. A
  worker is known by a number in place of its pointer. A send on a caller's channel is recorded in \<open>pm_sent\<close>, the start of
  a worker's goroutine in \<open>pm_spawned\<close>. Metrics and log lines are left out. The list of \<open>pm_websockets\<close> stands for the iteration
  order of a Go map, which is unspecified: nothing below depends on it.
\<close>

section \<open>State\<close>

record 'h actorWorker =
  wk_ref :: nat
  wk_handler :: "'h option"
  wk_session :: ActorSession
  wk_cancelled :: bool
  wk_mailbox :: "Event actorMailbox"

datatype http_cause = AbortedByEngine | CauseShuttingDown | CauseCanceled

record httpRequestState =
  hr_identity :: actorIdentity
  hr_Method :: string
  hr_Path :: string
  hr_Headers :: "(string \<times> string) list"
  hr_body :: "http_cause httpRequestBody"
  hr_cause :: "http_cause option"

record websocketOwner =
  wo_identity :: actorIdentity
  wo_canHibernate :: bool

record subscriber =
  sb_closed :: bool
  sb_events :: "Event list"

datatype delivery =
    ToCaller nat Event
  | ToSaver nat "WireError option"

datatype 'u pump_error =
    DuplicateActorStart string u64
  | UnknownActor EventKind string u64
  | HibernateFailed submit_error
  | DuplicateHTTPRequest u64
  | UnknownHTTPRequest u64
  | DuplicateWSOpen string
  | NoPendingSave string u64
  | WorkerError string
  | ShutdownFailed string
  | PollFailed string
  | DecodeFailed "'u batch_error"
  | NonMonotonic u64 u64
  | NoDrainReport
  | DrainExceeded u32

record ('h, 'u) pump =
  pm_sqliteTransport :: string
  pm_handlers :: "string \<rightharpoonup> 'h"
  pm_shuttingDown :: bool
  pm_actors :: "actorIdentity \<rightharpoonup> 'h actorWorker"
  pm_nextRef :: nat
  pm_spawned :: "(nat \<times> Event) list"
  pm_kv :: "(u64, nat) waiters"
  pm_intents :: "(u64, nat) waiters"
  pm_sqlite :: "(u64, nat) waiters"
  pm_sent :: "delivery list"
  pm_lateSaves :: late_saves
  pm_http :: "u64 \<rightharpoonup> httpRequestState"
  pm_websockets :: "(string \<times> websocketOwner) list"
  pm_subs :: "(u64 \<times> subscriber) list"
  pm_nextSubID :: u64
  pm_result :: "'u pump_error option"
  pm_seenSeq :: bool
  pm_lastSeq :: u64
  pm_workerErrors :: "string option"
  pm_done :: bool


section \<open>Tables\<close>

definition actor :: "('h, 'u) pump \<Rightarrow> string \<Rightarrow> u64 \<Rightarrow> 'h actorWorker option" where
  "actor p aid generation = pm_actors p \<lparr>ai_aid = aid, ai_generation = generation\<rparr>"

definition setWorker :: "('h, 'u) pump \<Rightarrow> 'h actorWorker \<Rightarrow> ('h, 'u) pump" where
  "setWorker p w = p\<lparr>pm_actors := (pm_actors p)(ss_identity (wk_session w) \<mapsto> w)\<rparr>"

definition mailboxPut :: "('h, 'u) pump \<Rightarrow> 'h actorWorker \<Rightarrow> Event \<Rightarrow> ('h, 'u) pump" where
  "mailboxPut p w event = setWorker p (w\<lparr>wk_mailbox := mailbox_put (wk_mailbox w) event\<rparr>)"

definition websocketActor :: "('h, 'u) pump \<Rightarrow> string \<Rightarrow> 'h actorWorker option" where
  "websocketActor p wsID =
     (case map_of (pm_websockets p) wsID of
        None \<Rightarrow> None
      | Some holder \<Rightarrow> actor p (ai_aid (wo_identity holder)) (ai_generation (wo_identity holder)))"

definition websocketCanHibernate :: "('h, 'u) pump \<Rightarrow> string \<Rightarrow> bool" where
  "websocketCanHibernate p wsID =
     (case map_of (pm_websockets p) wsID of None \<Rightarrow> False | Some holder \<Rightarrow> wo_canHibernate holder)"

definition deleteKey :: "'k \<Rightarrow> ('k \<times> 'v) list \<Rightarrow> ('k \<times> 'v) list" where
  "deleteKey k m = filter (\<lambda>(k', _). k' \<noteq> k) m"

definition removeWebSocket :: "('h, 'u) pump \<Rightarrow> string \<Rightarrow> 'h actorWorker option \<times> ('h, 'u) pump" where
  "removeWebSocket p wsID =
     ((case map_of (pm_websockets p) wsID of
         None \<Rightarrow> None
       | Some holder \<Rightarrow> actor p (ai_aid (wo_identity holder)) (ai_generation (wo_identity holder))),
      p\<lparr>pm_websockets := deleteKey wsID (pm_websockets p)\<rparr>)"

definition detachActorWebSockets ::
  "('h, 'u) pump \<Rightarrow> actorIdentity \<Rightarrow> bool \<Rightarrow> string \<Rightarrow> Event list \<times> Command list \<times> ('h, 'u) pump" where
  "detachActorWebSockets p identity hibernate reason =
     (let owned = filter (\<lambda>(_, holder). wo_identity holder = identity) (pm_websockets p);
          sleeping = filter (\<lambda>(_, holder). hibernate \<and> wo_canHibernate holder) owned;
          closing = filter (\<lambda>(_, holder). \<not> (hibernate \<and> wo_canHibernate holder)) owned
      in (map (\<lambda>(wsID, _). zeroEvent\<lparr>ev_Kind := EventWSClose, ev_WSID := wsID, ev_CloseCode := Some 1001, ev_Reason := reason\<rparr>) closing,
          map (\<lambda>(wsID, _). zeroCommand\<lparr>cmd_Kind := CommandWSClose, cmd_WSID := wsID, cmd_Hibernate := True\<rparr>) sleeping,
          p\<lparr>pm_websockets := filter (\<lambda>(_, holder). wo_identity holder \<noteq> identity) (pm_websockets p)\<rparr>))"

definition httpRequest :: "('h, 'u) pump \<Rightarrow> u64 \<Rightarrow> httpRequestState option" where
  "httpRequest p requestID = pm_http p requestID"

text \<open>A context with a cause: the first cancellation counts.\<close>

definition cancelCause :: "httpRequestState \<Rightarrow> http_cause \<Rightarrow> httpRequestState" where
  "cancelCause state cause = (if hr_cause state = None then state\<lparr>hr_cause := Some cause\<rparr> else state)"

text \<open>The state that leaves the table is returned with it: a handler may still hold the request.\<close>

definition finishHTTPRequest :: "('h, 'u) pump \<Rightarrow> u64 \<Rightarrow> httpRequestState option \<times> ('h, 'u) pump" where
  "finishHTTPRequest p requestID =
     (map_option (\<lambda>state. cancelCause (state\<lparr>hr_body := body_Close (hr_body state)\<rparr>) CauseCanceled) (pm_http p requestID),
      p\<lparr>pm_http := (pm_http p)(requestID := None)\<rparr>)"

definition ofActor :: "actorIdentity \<Rightarrow> httpRequestState option \<Rightarrow> bool" where
  "ofActor identity state \<longleftrightarrow> (case state of Some st \<Rightarrow> hr_identity st = identity | None \<Rightarrow> False)"

definition abortHTTPForActor :: "('h, 'u) pump \<Rightarrow> actorIdentity \<Rightarrow> http_cause \<Rightarrow> (u64 \<rightharpoonup> httpRequestState) \<times> ('h, 'u) pump" where
  "abortHTTPForActor p identity cause =
     ((\<lambda>requestID.
         if ofActor identity (pm_http p requestID)
         then map_option (\<lambda>state. (cancelCause state cause)\<lparr>hr_body := body_abort (hr_body state) cause\<rparr>) (pm_http p requestID)
         else None),
      p\<lparr>pm_http := (\<lambda>requestID. if ofActor identity (pm_http p requestID) then None else pm_http p requestID)\<rparr>)"

definition removeActor :: "('h, 'u) pump \<Rightarrow> actorIdentity \<Rightarrow> nat \<Rightarrow> ('h, 'u) pump" where
  "removeActor p identity ref =
     (case detachActorWebSockets p identity False ''actor worker stopped'' of
        (_, _, p) \<Rightarrow>
          if map_option wk_ref (pm_actors p identity) = Some ref
          then p\<lparr>pm_actors := (pm_actors p)(identity := None)\<rparr>
          else p)"

text \<open>The first phase of \<open>abort\<close> on the session of a worker: its requests are aborted, and the session wakes its waiters.\<close>

definition abortSession :: "('h, 'u) pump \<Rightarrow> actorIdentity \<Rightarrow> ('h, 'u) pump" where
  "abortSession p identity =
     (let p = snd (abortHTTPForActor p identity CauseShuttingDown) in
      case pm_actors p identity of
        None \<Rightarrow> p
      | Some w \<Rightarrow> p\<lparr>pm_actors := (pm_actors p)(identity \<mapsto> w\<lparr>wk_session := abort_start (wk_session w)\<rparr>)\<rparr>)"

text \<open>\<open>cancelActorWorkers\<close> on the identities of the live actors, in the order of the map's iteration.\<close>

fun cancelActorWorkers :: "('h, 'u) pump \<Rightarrow> actorIdentity list \<Rightarrow> ('h, 'u) pump" where
  "cancelActorWorkers p [] = p"
| "cancelActorWorkers p (identity # identities) =
     (case pm_actors p identity of
        None \<Rightarrow> cancelActorWorkers p identities
      | Some w \<Rightarrow>
          cancelActorWorkers
            (abortSession (p\<lparr>pm_actors := (pm_actors p)(identity \<mapsto> w\<lparr>wk_cancelled := True\<rparr>)\<rparr>) identity) identities)"

definition reportWorkerError :: "('h, 'u) pump \<Rightarrow> string \<Rightarrow> ('h, 'u) pump" where
  "reportWorkerError p err = (if pm_workerErrors p = None then p\<lparr>pm_workerErrors := Some err\<rparr> else p)"

definition setResult :: "('h, 'u) pump \<Rightarrow> 'u pump_error \<Rightarrow> ('h, 'u) pump" where
  "setResult p err = (if pm_result p = None then p\<lparr>pm_result := Some err\<rparr> else p)"

definition session_HTTPRequest :: "('h, 'u) pump \<Rightarrow> ActorSession option \<Rightarrow> Event \<Rightarrow> go_error + httpRequestState" where
  "session_HTTPRequest p session event =
     (case session of
        None \<Rightarrow> Inl SessionUnavailable
      | Some s \<Rightarrow>
          (case httpRequest p (ev_RequestID event) of
             Some state \<Rightarrow>
               if hr_identity state \<noteq> ss_identity s
               then Inl (PlainError (''HTTP request '' @ decimal (unat (ev_RequestID event)) @ '' is unavailable for this actor''))
               else Inr state
           | None \<Rightarrow> Inl (PlainError (''HTTP request '' @ decimal (unat (ev_RequestID event)) @ '' is unavailable for this actor''))))"


section \<open>Events\<close>

type_synonym ('h, 'u) handled = "'u pump_error option \<times> ('h, 'u) pump"

definition unknownActor :: "('h, 'u) pump \<Rightarrow> Event \<Rightarrow> ('h, 'u) handled" where
  "unknownActor p event = (Some (UnknownActor (ev_Kind event) (ev_AID event) (ev_Generation event)), p)"

definition newSession :: "('h, 'u) pump \<Rightarrow> Event \<Rightarrow> ActorSession" where
  "newSession p event =
     \<lparr>ss_identity = \<lparr>ai_aid = ev_AID event, ai_generation = ev_Generation event\<rparr>, ss_name = ev_Name event, ss_key = ev_Key event,
      ss_input = ev_Input event, ss_persistedState = ev_PersistedState event, ss_nextWorkID = 0, ss_saveResult = None,
      ss_savePoisoned = False, ss_accepting = True, ss_activeSaves = 0, ss_activeSQLite = 0, ss_doneClosed = False,
      ss_sqliteTransport = pm_sqliteTransport p, ss_sqliteSocketPath = ev_SQLiteSocketPath event\<rparr>"

definition handleActorStart :: "Event \<Rightarrow> ('h, 'u) pump \<Rightarrow> ('h, 'u) handled" where
  "handleActorStart event p =
     (let worker = \<lparr>wk_ref = pm_nextRef p, wk_handler = pm_handlers p (ev_Name event), wk_session = newSession p event,
                    wk_cancelled = False, wk_mailbox = newActorMailbox\<rparr>
      in if actor p (ev_AID event) (ev_Generation event) \<noteq> None
         then (Some (DuplicateActorStart (ev_AID event) (ev_Generation event)), p)
         else (None, (setWorker p worker)\<lparr>pm_nextRef := Suc (pm_nextRef p),
                       pm_spawned := pm_spawned p @ [(pm_nextRef p, event)]\<rparr>))"

fun mailboxPutAll :: "('h, 'u) pump \<Rightarrow> actorIdentity \<Rightarrow> Event list \<Rightarrow> ('h, 'u) pump" where
  "mailboxPutAll p identity [] = p"
| "mailboxPutAll p identity (event # events) =
     (case pm_actors p identity of
        None \<Rightarrow> p
      | Some w \<Rightarrow> mailboxPutAll (mailboxPut p w event) identity events)"

text \<open>\<open>submit\<close> is \<open>submitInternal\<close> under the timeout of the WebSocket submissions.\<close>

definition handleActorStop :: "(Command list \<Rightarrow> submit_error option) \<Rightarrow> Event \<Rightarrow> ('h, 'u) pump \<Rightarrow> ('h, 'u) handled" where
  "handleActorStop submit event p =
     (case actor p (ev_AID event) (ev_Generation event) of
        None \<Rightarrow> unknownActor p event
      | Some w \<Rightarrow>
          let runnerDraining = pm_shuttingDown p;
              closeReason = (if runnerDraining then ''runner shutting down'' else ''actor stopped'');
              identity = ss_identity (wk_session w)
          in case detachActorWebSockets p identity (ev_Reason event = ''sleep'' \<and> \<not> runnerDraining) closeReason of
               (closeEvents, hibernateCommands, p) \<Rightarrow>
                 (case (if hibernateCommands \<noteq> [] then submit hibernateCommands else None) of
                    Some e \<Rightarrow> (Some (HibernateFailed e), p)
                  | None \<Rightarrow> (None, mailboxPutAll p identity (closeEvents @ [event]))))"

definition toActor :: "Event \<Rightarrow> ('h, 'u) pump \<Rightarrow> ('h, 'u) handled" where
  "toActor event p =
     (case actor p (ev_AID event) (ev_Generation event) of
        None \<Rightarrow> unknownActor p event
      | Some w \<Rightarrow> (None, mailboxPut p w event))"

definition sendTo :: "nat option \<Rightarrow> Event \<Rightarrow> ('h, 'u) pump \<Rightarrow> ('h, 'u) pump" where
  "sendTo result event p = (case result of None \<Rightarrow> p | Some c \<Rightarrow> p\<lparr>pm_sent := pm_sent p @ [ToCaller c event]\<rparr>)"

definition handleIntentResult :: "Event \<Rightarrow> ('h, 'u) pump \<Rightarrow> ('h, 'u) handled" where
  "handleIntentResult event p =
     (case takeWaiter (pm_intents p) (ev_OperationID event) True of
        (result, table) \<Rightarrow> (None, sendTo result event (p\<lparr>pm_intents := table\<rparr>)))"

definition handleKVResult :: "Event \<Rightarrow> ('h, 'u) pump \<Rightarrow> ('h, 'u) handled" where
  "handleKVResult event p =
     (case takeWaiter (pm_kv p) (ev_KVID event) True of
        (result, table) \<Rightarrow> (None, sendTo result event (p\<lparr>pm_kv := table\<rparr>)))"

definition handleSQLiteResult :: "Event \<Rightarrow> ('h, 'u) pump \<Rightarrow> ('h, 'u) handled" where
  "handleSQLiteResult event p =
     (case takeWaiter (pm_sqlite p) (ev_SQLiteRequestID event) (ev_Done event) of
        (result, table) \<Rightarrow> (None, sendTo result event (p\<lparr>pm_sqlite := table\<rparr>)))"

definition handleHTTPRequest :: "Event \<Rightarrow> ('h, 'u) pump \<Rightarrow> ('h, 'u) handled" where
  "handleHTTPRequest event p =
     (case actor p (ev_AID event) (ev_Generation event) of
        None \<Rightarrow> unknownActor p event
      | Some w \<Rightarrow>
          let state = \<lparr>hr_identity = ss_identity (wk_session w), hr_Method = ev_Method event, hr_Path = ev_Path event,
                       hr_Headers = ev_Headers event,
                       hr_body = body_append newHTTPRequestBody (the_bytes (ev_Body event)) (\<not> ev_Stream event), hr_cause = None\<rparr>
          in if pm_http p (ev_RequestID event) \<noteq> None then (Some (DuplicateHTTPRequest (ev_RequestID event)), p)
             else (None, mailboxPut (p\<lparr>pm_http := (pm_http p)(ev_RequestID event \<mapsto> state)\<rparr>) w event))"

definition handleHTTPRequestChunk :: "Event \<Rightarrow> ('h, 'u) pump \<Rightarrow> ('h, 'u) handled" where
  "handleHTTPRequestChunk event p =
     (case httpRequest p (ev_RequestID event) of
        None \<Rightarrow> (Some (UnknownHTTPRequest (ev_RequestID event)), p)
      | Some state \<Rightarrow>
          (None, p\<lparr>pm_http := (pm_http p)(ev_RequestID event \<mapsto>
                     state\<lparr>hr_body := body_append (hr_body state) (the_bytes (ev_Body event)) (ev_Finish event)\<rparr>)\<rparr>))"

definition handleHTTPRequestAbort :: "Event \<Rightarrow> ('h, 'u) pump \<Rightarrow> ('h, 'u) handled" where
  "handleHTTPRequestAbort event p =
     (case httpRequest p (ev_RequestID event) of
        None \<Rightarrow> (None, p)
      | Some state \<Rightarrow>
          (None, p\<lparr>pm_http := (pm_http p)(ev_RequestID event \<mapsto>
                     (cancelCause state AbortedByEngine)\<lparr>hr_body := body_abort (hr_body state) AbortedByEngine\<rparr>)\<rparr>))"

definition handleWSOpen :: "Event \<Rightarrow> ('h, 'u) pump \<Rightarrow> ('h, 'u) handled" where
  "handleWSOpen event p =
     (case actor p (ev_AID event) (ev_Generation event) of
        None \<Rightarrow> unknownActor p event
      | Some w \<Rightarrow>
          if map_of (pm_websockets p) (ev_WSID event) \<noteq> None then (Some (DuplicateWSOpen (ev_WSID event)), p)
          else (None, mailboxPut (p\<lparr>pm_websockets := pm_websockets p @
                         [(ev_WSID event, \<lparr>wo_identity = ss_identity (wk_session w), wo_canHibernate = ev_CanHibernate event\<rparr>)]\<rparr>) w event))"

definition handleWSMessage :: "Event \<Rightarrow> ('h, 'u) pump \<Rightarrow> ('h, 'u) handled" where
  "handleWSMessage event p =
     (case websocketActor p (ev_WSID event) of
        None \<Rightarrow> (None, p)
      | Some w \<Rightarrow> (None, mailboxPut p w event))"

definition handleWSClose :: "Event \<Rightarrow> ('h, 'u) pump \<Rightarrow> ('h, 'u) handled" where
  "handleWSClose event p =
     (case removeWebSocket p (ev_WSID event) of
        (None, p) \<Rightarrow> (None, p)
      | (Some w, p) \<Rightarrow> (None, mailboxPut p w event))"

definition lateSave :: "('h, 'u) pump \<Rightarrow> Event \<Rightarrow> 'u pump_error \<Rightarrow> ('h, 'u) handled" where
  "lateSave p event err =
     (case consumeLateSave (pm_lateSaves p) \<lparr>ai_aid = ev_AID event, ai_generation = ev_Generation event\<rparr> of
        (True, late) \<Rightarrow> (None, p\<lparr>pm_lateSaves := late\<rparr>)
      | (False, _) \<Rightarrow> (Some err, p))"

definition handleStatePersisted :: "Event \<Rightarrow> ('h, 'u) pump \<Rightarrow> ('h, 'u) handled" where
  "handleStatePersisted event p =
     (case actor p (ev_AID event) (ev_Generation event) of
        None \<Rightarrow> lateSave p event (UnknownActor (ev_Kind event) (ev_AID event) (ev_Generation event))
      | Some w \<Rightarrow>
          (case completeSave (wk_session w) of
             (Some c, s) \<Rightarrow>
               (None, (setWorker p (w\<lparr>wk_session := s\<rparr>))\<lparr>pm_sent := pm_sent p @ [ToSaver c (ev_Error event)]\<rparr>)
           | (None, s) \<Rightarrow>
               (case completeAbandonedSave s (pm_lateSaves p) of
                  (absorbed, s, late) \<Rightarrow>
                    let p = (setWorker p (w\<lparr>wk_session := s\<rparr>))\<lparr>pm_lateSaves := late\<rparr>
                    in if absorbed then (None, p) else lateSave p event (NoPendingSave (ev_AID event) (ev_Generation event)))))"

definition handleInternalEvent :: "(Command list \<Rightarrow> submit_error option) \<Rightarrow> Event \<Rightarrow> ('h, 'u) pump \<Rightarrow> ('h, 'u) handled" where
  "handleInternalEvent submit event p =
     (case ev_Kind event of
        EventActorStart \<Rightarrow> handleActorStart event p
      | EventActorStop \<Rightarrow> handleActorStop submit event p
      | EventActorAlarm \<Rightarrow> toActor event p
      | EventActorIntentResult \<Rightarrow> handleIntentResult event p
      | EventActorScheduleResult \<Rightarrow> handleIntentResult event p
      | EventActorQueueResult \<Rightarrow> handleIntentResult event p
      | EventActionCall \<Rightarrow> toActor event p
      | EventConnectionPreflight \<Rightarrow> toActor event p
      | EventConnectionOpen \<Rightarrow> toActor event p
      | EventConnectionClose \<Rightarrow> toActor event p
      | EventHTTPRequest \<Rightarrow> handleHTTPRequest event p
      | EventHTTPRequestChunk \<Rightarrow> handleHTTPRequestChunk event p
      | EventHTTPRequestAbort \<Rightarrow> handleHTTPRequestAbort event p
      | EventWSOpen \<Rightarrow> handleWSOpen event p
      | EventWSMessage \<Rightarrow> handleWSMessage event p
      | EventWSClose \<Rightarrow> handleWSClose event p
      | EventStatePersisted \<Rightarrow> handleStatePersisted event p
      | EventKVResult \<Rightarrow> handleKVResult event p
      | EventSQLiteResult \<Rightarrow> handleSQLiteResult event p
      | _ \<Rightarrow> (None, p))"

end
