(* ===== verification/Pump_Routing.thy ===== *)
theory Pump_Routing
  imports Pump
begin

text \<open>
  What \<open>handleInternalEvent\<close> guarantees: the well-formedness of the pump's tables and that every operation on them keeps it,
  the isolation of actors from each other's events, what becomes of an actor's WebSockets when it stops, and how HTTP requests
  end.
\<close>

section \<open>Well-formed tables\<close>

definition pump_wf :: "('h, 'u) pump \<Rightarrow> bool" where
  "pump_wf p \<longleftrightarrow>
     (\<forall>i w. pm_actors p i = Some w \<longrightarrow> ss_identity (wk_session w) = i \<and> wk_ref w < pm_nextRef p) \<and>
     distinct (map fst (pm_websockets p)) \<and>
     (\<forall>(wsID, holder) \<in> set (pm_websockets p). pm_actors p (wo_identity holder) \<noteq> None)"

lemma pump_wfD:
  assumes "pump_wf p"
  shows "pm_actors p i = Some w \<Longrightarrow> ss_identity (wk_session w) = i" "pm_actors p i = Some w \<Longrightarrow> wk_ref w < pm_nextRef p"
    "distinct (map fst (pm_websockets p))"
    "(wsID, holder) \<in> set (pm_websockets p) \<Longrightarrow> pm_actors p (wo_identity holder) \<noteq> None"
  using assms unfolding pump_wf_def by blast+

lemma identity_eta [simp]: "\<lparr>ai_aid = ai_aid i, ai_generation = ai_generation i\<rparr> = i"
  by simp

text \<open>Replacing a worker by one of the same identity and number keeps the tables well formed.\<close>

definition same_worker :: "'h actorWorker \<Rightarrow> 'h actorWorker \<Rightarrow> bool" where
  "same_worker w w' \<longleftrightarrow> ss_identity (wk_session w') = ss_identity (wk_session w) \<and> wk_ref w' = wk_ref w"

lemma setWorker_wf:
  assumes "pump_wf p" "pm_actors p i = Some w" "same_worker w w'"
  shows "pump_wf (setWorker p w')" "pm_actors (setWorker p w') = (pm_actors p)(i \<mapsto> w')"
proof -
  have i: "ss_identity (wk_session w') = i" using pump_wfD(1) [OF assms(1,2)] assms(3) by (simp add: same_worker_def)
  then show "pm_actors (setWorker p w') = (pm_actors p)(i \<mapsto> w')" by (simp add: setWorker_def)
  show "pump_wf (setWorker p w')"
    using assms pump_wfD [OF assms(1)] i unfolding pump_wf_def
    by (auto simp: setWorker_def same_worker_def)
qed

lemma mailboxPut_wf:
  assumes "pump_wf p" "pm_actors p i = Some w"
  shows "pump_wf (mailboxPut p w event)"
    "pm_actors (mailboxPut p w event) = (pm_actors p)(i \<mapsto> w\<lparr>wk_mailbox := mailbox_put (wk_mailbox w) event\<rparr>)"
  using setWorker_wf [OF assms] by (simp_all add: mailboxPut_def same_worker_def)

lemma mailboxPutAll_wf:
  assumes "pump_wf p" "pm_actors p i = Some w"
  shows "pump_wf (mailboxPutAll p i events) \<and>
    (\<exists>w'. pm_actors (mailboxPutAll p i events) = (pm_actors p)(i \<mapsto> w') \<and> wk_session w' = wk_session w \<and>
       mb_queue (wk_mailbox w') = mb_queue (wk_mailbox w) @ events)"
  using assms
proof (induction events arbitrary: p w)
  case Nil
  then show ?case by (auto intro!: exI [of _ w] simp: fun_upd_idem)
next
  case (Cons event events)
  note put = mailboxPut_wf [OF Cons.prems, of event]
  have "pm_actors (mailboxPut p w event) i = Some (w\<lparr>wk_mailbox := mailbox_put (wk_mailbox w) event\<rparr>)" by (simp add: put(2))
  from Cons.IH [OF put(1) this] show ?case
    by (simp add: Cons.prems(2) put(2) del: fun_upd_apply)
qed

lemma pm_fields_wf [simp]:
  "pump_wf (p\<lparr>pm_http := x\<rparr>) = pump_wf p" "pump_wf (p\<lparr>pm_kv := t\<rparr>) = pump_wf p" "pump_wf (p\<lparr>pm_intents := t\<rparr>) = pump_wf p"
  "pump_wf (p\<lparr>pm_sqlite := t\<rparr>) = pump_wf p" "pump_wf (p\<lparr>pm_sent := d\<rparr>) = pump_wf p" "pump_wf (p\<lparr>pm_lateSaves := l\<rparr>) = pump_wf p"
  "pump_wf (p\<lparr>pm_spawned := sp\<rparr>) = pump_wf p"
  by (simp_all add: pump_wf_def)

lemma sendTo_simps [simp]: "pump_wf (sendTo r event p) = pump_wf p" "pm_actors (sendTo r event p) = pm_actors p"
  by (simp_all add: sendTo_def split: option.splits)

lemma removeSockets_wf:
  "pump_wf p \<Longrightarrow> pump_wf (p\<lparr>pm_websockets := filter P (pm_websockets p)\<rparr>)"
  unfolding pump_wf_def by (auto simp: distinct_map_filter)

lemma detach_wf:
  assumes "pump_wf p" "detachActorWebSockets p i hibernate reason = (events, commands, p')"
  shows "pump_wf p'" "pm_actors p' = pm_actors p" "\<forall>(wsID, holder) \<in> set (pm_websockets p'). wo_identity holder \<noteq> i"
    "pm_nextRef p' = pm_nextRef p"
  using assms removeSockets_wf [OF assms(1)] by (auto simp: detachActorWebSockets_def Let_def)


section \<open>Isolation\<close>

text \<open>The actor an event is for, if any.\<close>

definition destination :: "('h, 'u) pump \<Rightarrow> Event \<Rightarrow> actorIdentity option" where
  "destination p event =
     (if ev_Kind event \<in> {EventActorStop, EventActorAlarm, EventActionCall, EventConnectionPreflight, EventConnectionOpen,
                           EventConnectionClose, EventHTTPRequest, EventWSOpen}
      then Some \<lparr>ai_aid = ev_AID event, ai_generation = ev_Generation event\<rparr>
      else if ev_Kind event \<in> {EventWSMessage, EventWSClose} then map_option wo_identity (map_of (pm_websockets p) (ev_WSID event))
      else None)"

text \<open>An event leaves actor \<open>i\<close> as it is, but for what it adds to its mailbox and for its save state.\<close>

definition delivers :: "('h, 'u) pump \<Rightarrow> ('h, 'u) pump \<Rightarrow> actorIdentity \<Rightarrow> Event list \<Rightarrow> bool" where
  "delivers p p' i events \<longleftrightarrow>
     (case pm_actors p i of
        None \<Rightarrow> events = []
      | Some w \<Rightarrow> (\<exists>w'. pm_actors p' i = Some w' \<and> mb_queue (wk_mailbox w') = mb_queue (wk_mailbox w) @ events))"

lemma delivers_same [intro]: "pm_actors p' i = pm_actors p i \<Longrightarrow> delivers p p' i []"
  by (simp add: delivers_def split: option.splits)

lemma delivers_put:
  assumes "pump_wf p" "pm_actors p j = Some w" "pm_actors q = pm_actors p" "pump_wf q"
  shows "delivers p (mailboxPut q w event) i (if i = j then [event] else [])"
  using mailboxPut_wf(2) [OF assms(4), of j w event] assms(2,3) by (auto simp: delivers_def split: option.splits)

lemma delivers_putAll:
  assumes "pump_wf q" "pm_actors q = pm_actors p" "pm_actors p j = Some w"
  shows "delivers p (mailboxPutAll q j events) i (if i = j then events else [])"
  using mailboxPutAll_wf [OF assms(1), of j w events] assms(2,3) by (auto simp: delivers_def split: option.splits)

lemma toActor_result:
  assumes "pump_wf p" "toActor event p = (r, p')"
  shows "pump_wf p'"
    "delivers p p' i (if r = None \<and> i = \<lparr>ai_aid = ev_AID event, ai_generation = ev_Generation event\<rparr> then [event] else [])"
proof -
  let ?j = "\<lparr>ai_aid = ev_AID event, ai_generation = ev_Generation event\<rparr>"
  show "pump_wf p'" using assms mailboxPut_wf(1) [OF assms(1), of ?j]
    by (auto simp: toActor_def unknownActor_def actor_def split: option.splits)
  show "delivers p p' i (if r = None \<and> i = ?j then [event] else [])"
  proof (cases "pm_actors p ?j")
    case None
    with assms(2) show ?thesis by (auto simp: toActor_def unknownActor_def actor_def)
  next
    case (Some w)
    with assms(2) have "r = None" "p' = mailboxPut p w event" by (simp_all add: toActor_def actor_def)
    with delivers_put [OF assms(1) Some refl assms(1), of event i] show ?thesis by simp
  qed
qed

lemma handleActorStop_result:
  assumes "pump_wf p" "handleActorStop submit event p = (r, p')"
  shows "pump_wf p'"
    "\<exists>events. delivers p p' i (if r = None \<and> i = \<lparr>ai_aid = ev_AID event, ai_generation = ev_Generation event\<rparr> then events @ [event] else [])"
proof -
  let ?j = "\<lparr>ai_aid = ev_AID event, ai_generation = ev_Generation event\<rparr>"
  have "pump_wf p' \<and> (\<exists>events. delivers p p' i (if r = None \<and> i = ?j then events @ [event] else []))"
  proof (cases "pm_actors p ?j")
    case None
    with assms show ?thesis by (auto simp: handleActorStop_def unknownActor_def actor_def)
  next
    case (Some w)
    obtain closing sleeping q where d: "detachActorWebSockets p ?j (ev_Reason event = ''sleep'' \<and> \<not> pm_shuttingDown p)
        (if pm_shuttingDown p then ''runner shutting down'' else ''actor stopped'') = (closing, sleeping, q)"
      by (metis prod_cases3)
    note q = detach_wf [OF assms(1) d]
    have w: "ss_identity (wk_session w) = ?j" using pump_wfD(1) [OF assms(1) Some] .
    show ?thesis
    proof (cases "if sleeping \<noteq> [] then submit sleeping else None")
      case None
      with assms(2) Some d w have "r = None" "p' = mailboxPutAll q ?j (closing @ [event])"
        by (simp_all add: handleActorStop_def actor_def Let_def)
      with mailboxPutAll_wf [OF q(1), of ?j w "closing @ [event]"] delivers_putAll [OF q(1,2) Some, of "closing @ [event]" i] q(2) Some
      show ?thesis by auto
    next
      case (Some e)
      with assms(2) \<open>pm_actors p ?j = Some w\<close> d w have "r \<noteq> None" "p' = q"
        by (auto simp: handleActorStop_def actor_def Let_def)
      with q show ?thesis by auto
    qed
  qed
  then show "pump_wf p'" "\<exists>events. delivers p p' i (if r = None \<and> i = ?j then events @ [event] else [])" by simp_all
qed

lemma handleActorStart_result:
  assumes "pump_wf p" "handleActorStart event p = (r, p')"
  shows "pump_wf p'" "pm_actors p i \<noteq> None \<Longrightarrow> delivers p p' i []"
  using assms pump_wfD [OF assms(1)]
  by (auto simp: handleActorStart_def Let_def actor_def setWorker_def newSession_def pump_wf_def delivers_def less_SucI
      split: if_splits option.splits)

lemma handleHTTPRequest_result:
  assumes "pump_wf p" "handleHTTPRequest event p = (r, p')"
  shows "pump_wf p'"
    "delivers p p' i (if r = None \<and> i = \<lparr>ai_aid = ev_AID event, ai_generation = ev_Generation event\<rparr> then [event] else [])"
proof -
  let ?j = "\<lparr>ai_aid = ev_AID event, ai_generation = ev_Generation event\<rparr>"
  have "pump_wf p' \<and> delivers p p' i (if r = None \<and> i = ?j then [event] else [])"
  proof (cases "r = None")
    case True
    then obtain w h where w: "pm_actors p ?j = Some w" "p' = mailboxPut (p\<lparr>pm_http := h\<rparr>) w event"
      using assms(2) by (auto simp: handleHTTPRequest_def unknownActor_def actor_def Let_def split: option.splits if_splits)
    with mailboxPut_wf [of "p\<lparr>pm_http := h\<rparr>" ?j w event] delivers_put [OF assms(1) w(1), of "p\<lparr>pm_http := h\<rparr>" event i] True assms(1)
    show ?thesis by simp
  next
    case False
    with assms have "p' = p" by (auto simp: handleHTTPRequest_def unknownActor_def actor_def Let_def split: option.splits if_splits)
    with False assms(1) show ?thesis by auto
  qed
  then show "pump_wf p'" "delivers p p' i (if r = None \<and> i = ?j then [event] else [])" by simp_all
qed

lemma addSocket_wf:
  assumes "pump_wf p" "map_of (pm_websockets p) wsID = None" "pm_actors p (wo_identity holder) \<noteq> None"
  shows "pump_wf (p\<lparr>pm_websockets := pm_websockets p @ [(wsID, holder)]\<rparr>)"
  using assms unfolding pump_wf_def by (auto simp: map_of_eq_None_iff)

lemma handleWSOpen_result:
  assumes "pump_wf p" "handleWSOpen event p = (r, p')"
  shows "pump_wf p'"
    "delivers p p' i (if r = None \<and> i = \<lparr>ai_aid = ev_AID event, ai_generation = ev_Generation event\<rparr> then [event] else [])"
proof -
  let ?j = "\<lparr>ai_aid = ev_AID event, ai_generation = ev_Generation event\<rparr>"
  have "pump_wf p' \<and> delivers p p' i (if r = None \<and> i = ?j then [event] else [])"
  proof (cases "r = None")
    case True
    then obtain w where w: "pm_actors p ?j = Some w" "map_of (pm_websockets p) (ev_WSID event) = None"
      "p' = mailboxPut (p\<lparr>pm_websockets := pm_websockets p @ [(ev_WSID event, \<lparr>wo_identity = ss_identity (wk_session w),
              wo_canHibernate = ev_CanHibernate event\<rparr>)]\<rparr>) w event"
      using assms(2) by (auto simp: handleWSOpen_def unknownActor_def actor_def split: option.splits if_splits)
    let ?q = "p\<lparr>pm_websockets := pm_websockets p @ [(ev_WSID event, \<lparr>wo_identity = ss_identity (wk_session w),
              wo_canHibernate = ev_CanHibernate event\<rparr>)]\<rparr>"
    have q: "pump_wf ?q" using addSocket_wf [OF assms(1) w(2)] pump_wfD(1) [OF assms(1) w(1)] w(1) by simp
    with mailboxPut_wf(1) [OF q, of ?j w event] delivers_put [OF assms(1) w(1), of ?q event i] True w(1,3) show ?thesis by simp
  next
    case False
    with assms have "p' = p" by (auto simp: handleWSOpen_def unknownActor_def actor_def split: option.splits if_splits)
    with False assms(1) show ?thesis by auto
  qed
  then show "pump_wf p'" "delivers p p' i (if r = None \<and> i = ?j then [event] else [])" by simp_all
qed

lemma holder_live:
  assumes "pump_wf p" "map_of (pm_websockets p) wsID = Some holder"
  obtains w where "pm_actors p (wo_identity holder) = Some w"
  using pump_wfD(4) [OF assms(1) map_of_SomeD [OF assms(2)]] by blast

lemma handleWS_result:
  assumes "pump_wf p" "handleWSMessage event p = (r, p') \<or> handleWSClose event p = (r, p')"
  shows "r = None" "pump_wf p'"
    "delivers p p' i (if map_option wo_identity (map_of (pm_websockets p) (ev_WSID event)) = Some i then [event] else [])"
proof -
  let ?q = "p\<lparr>pm_websockets := deleteKey (ev_WSID event) (pm_websockets p)\<rparr>"
  have q: "pump_wf ?q" "pm_actors ?q = pm_actors p" using removeSockets_wf [OF assms(1)] by (simp_all add: deleteKey_def)
  have "r = None \<and> pump_wf p' \<and>
    delivers p p' i (if map_option wo_identity (map_of (pm_websockets p) (ev_WSID event)) = Some i then [event] else [])"
  proof (cases "map_of (pm_websockets p) (ev_WSID event)")
    case None
    then have "r = None" "p' = p \<or> p' = ?q"
      using assms(2) by (auto simp: handleWSMessage_def handleWSClose_def websocketActor_def removeWebSocket_def)
    with None assms(1) q show ?thesis by auto
  next
    case (Some holder)
    then obtain w where w: "pm_actors p (wo_identity holder) = Some w" using holder_live [OF assms(1)] by blast
    have "r = None" "p' = mailboxPut p w event \<or> p' = mailboxPut ?q w event"
      using assms(2) Some w by (auto simp: handleWSMessage_def handleWSClose_def websocketActor_def removeWebSocket_def actor_def)
    with mailboxPut_wf(1) [OF assms(1) w] mailboxPut_wf(1) [OF q(1), of "wo_identity holder" w event]
      delivers_put [OF assms(1) w refl assms(1), of event i] delivers_put [OF assms(1) w q(2,1), of event i] Some w
    show ?thesis by auto
  qed
  then show "r = None" "pump_wf p'"
    "delivers p p' i (if map_option wo_identity (map_of (pm_websockets p) (ev_WSID event)) = Some i then [event] else [])" by simp_all
qed

lemma delivers_setWorker:
  assumes "pump_wf p" "pm_actors p j = Some w" "same_worker w w'" "wk_mailbox w' = wk_mailbox w"
    "pm_actors p' = pm_actors (setWorker p w')"
  shows "delivers p p' i []"
  using setWorker_wf(2) [OF assms(1-3)] assms(2,4,5) by (auto simp: delivers_def split: option.splits)

lemma lateSave_simps [simp]:
  "pm_actors (snd (lateSave p event e)) = pm_actors p" "pump_wf (snd (lateSave p event e)) = pump_wf p"
  by (simp_all add: lateSave_def split: prod.splits bool.splits)

lemma lateSave_result:
  "lateSave p event e = (r, p') \<Longrightarrow> pm_actors p' = pm_actors p \<and> (pump_wf p' \<longleftrightarrow> pump_wf p)"
  using lateSave_simps [of p event e] by simp

lemma completeAbandonedSave_identity:
  "completeAbandonedSave s late = (b, s', late') \<Longrightarrow> ss_identity s' = ss_identity s"
  by (auto simp: completeAbandonedSave_def split: if_splits prod.splits)

lemma handleStatePersisted_result:
  assumes "pump_wf p" "handleStatePersisted event p = (r, p')"
  shows "pump_wf p'" "delivers p p' i []"
proof -
  let ?j = "\<lparr>ai_aid = ev_AID event, ai_generation = ev_Generation event\<rparr>"
  have "pump_wf p' \<and> delivers p p' i []"
  proof (cases "pm_actors p ?j")
    case None
    with assms show ?thesis by (auto simp: handleStatePersisted_def actor_def dest!: lateSave_result intro!: delivers_same)
  next
    case (Some w)
    obtain absorbed s late where c: "completeAbandonedSave (snd (completeSave (wk_session w))) (pm_lateSaves p) = (absorbed, s, late)"
      by (metis prod_cases3)
    have s: "ss_identity (snd (completeSave (wk_session w))) = ss_identity (wk_session w)" by (simp add: completeSave_def)
    have same: "same_worker w (w\<lparr>wk_session := snd (completeSave (wk_session w))\<rparr>)" "same_worker w (w\<lparr>wk_session := s\<rparr>)"
      using s completeAbandonedSave_identity [OF c] by (simp_all add: same_worker_def)
    have "\<exists>w' q. same_worker w w' \<and> wk_mailbox w' = wk_mailbox w \<and> pump_wf q = pump_wf (setWorker p w') \<and>
        pm_actors q = pm_actors (setWorker p w') \<and> p' = q"
    proof (cases "fst (completeSave (wk_session w))")
      case None
      with assms(2) Some c have p': "p' = (let q = (setWorker p (w\<lparr>wk_session := s\<rparr>))\<lparr>pm_lateSaves := late\<rparr> in
          if absorbed then q else snd (lateSave q event (NoPendingSave (ev_AID event) (ev_Generation event))))"
        by (auto simp: handleStatePersisted_def actor_def Let_def split: prod.splits if_splits dest: arg_cong [of _ _ snd])
      show ?thesis using same(2) by (intro exI [of _ "w\<lparr>wk_session := s\<rparr>"] exI [of _ p']) (simp add: p' Let_def)
    next
      case (Some ch)
      with assms(2) \<open>pm_actors p ?j = Some w\<close>
      have p': "p' = (setWorker p (w\<lparr>wk_session := snd (completeSave (wk_session w))\<rparr>))\<lparr>pm_sent := pm_sent p @ [ToSaver ch (ev_Error event)]\<rparr>"
        by (auto simp: handleStatePersisted_def actor_def split: prod.splits option.splits)
      show ?thesis using same(1)
        by (intro exI [of _ "w\<lparr>wk_session := snd (completeSave (wk_session w))\<rparr>"] exI [of _ p']) (simp add: p')
    qed
    with setWorker_wf(1) [OF assms(1) Some] delivers_setWorker [OF assms(1) Some] show ?thesis by blast
  qed
  then show "pump_wf p'" "delivers p p' i []" by simp_all
qed

lemma waiter_events_result:
  assumes "pump_wf p"
    "handleIntentResult event p = (r, p') \<or> handleKVResult event p = (r, p') \<or> handleSQLiteResult event p = (r, p') \<or>
     handleHTTPRequestChunk event p = (r, p') \<or> handleHTTPRequestAbort event p = (r, p')"
  shows "pump_wf p'" "delivers p p' i []"
  using assms
  by (auto simp: handleIntentResult_def handleKVResult_def handleSQLiteResult_def handleHTTPRequestChunk_def
      handleHTTPRequestAbort_def takeWaiter_def split: option.splits intro!: delivers_same)

lemmas handler_results = toActor_result handleActorStop_result handleActorStart_result handleHTTPRequest_result handleWSOpen_result
  handleWS_result handleStatePersisted_result waiter_events_result

lemma handleInternalEvent_wf: "pump_wf p \<Longrightarrow> handleInternalEvent submit event p = (r, p') \<Longrightarrow> pump_wf p'"
  by (cases "ev_Kind event") (auto simp: handleInternalEvent_def dest: handler_results)


section \<open>Every operation keeps the tables well formed\<close>

definition newPump :: "string \<Rightarrow> (string \<rightharpoonup> 'h) \<Rightarrow> ('h, 'u) pump" where
  "newPump sqliteTransport handlers =
     \<lparr>pm_sqliteTransport = sqliteTransport, pm_handlers = handlers, pm_shuttingDown = False, pm_actors = Map.empty, pm_nextRef = 0,
      pm_spawned = [], pm_kv = noWaiters, pm_intents = noWaiters, pm_sqlite = noWaiters, pm_sent = [], pm_lateSaves = {},
      pm_http = Map.empty, pm_websockets = [], pm_subs = [], pm_nextSubID = 0, pm_result = None, pm_seenSeq = False, pm_lastSeq = 0,
      pm_workerErrors = None, pm_done = False\<rparr>"

text \<open>
  The changes of the tables: the poller's events, the ends of HTTP requests and WebSockets, the exit of a worker, calls of a
  session (which change only the session itself), a worker taking its next event, and the waiter tables.
\<close>

inductive pump_step :: "('h, 'u) pump \<Rightarrow> ('h, 'u) pump \<Rightarrow> bool" where
  event: "handleInternalEvent submit event p = (r, p') \<Longrightarrow> pump_step p p'"
| finish_http: "finishHTTPRequest p requestID = (state, p') \<Longrightarrow> pump_step p p'"
| remove_socket: "removeWebSocket p wsID = (w, p') \<Longrightarrow> pump_step p p'"
| abort_session: "pump_step p (abortSession p i)"
| cancel_workers: "pump_step p (cancelActorWorkers p is)"
| remove_actor: "pump_step p (removeActor p i ref)"
| session: "pm_actors p i = Some w \<Longrightarrow> ss_identity s = ss_identity (wk_session w) \<Longrightarrow>
    pump_step p (setWorker p (w\<lparr>wk_session := s\<rparr>))"
| take: "pm_actors p i = Some w \<Longrightarrow> mailbox_take (wk_mailbox w) = Some (event, m) \<Longrightarrow> pump_step p (setWorker p (w\<lparr>wk_mailbox := m\<rparr>))"
| waiters: "pump_step p (p\<lparr>pm_kv := t1, pm_intents := t2, pm_sqlite := t3\<rparr>)"

inductive_cases pump_stepE: "pump_step p p'"

lemma updateWorker_wf:
  assumes "pump_wf p" "pm_actors p i = Some w" "same_worker w w'"
  shows "pump_wf (p\<lparr>pm_actors := (pm_actors p)(i \<mapsto> w')\<rparr>)"
proof -
  have "p\<lparr>pm_actors := (pm_actors p)(i \<mapsto> w')\<rparr> = setWorker p w'"
    using assms pump_wfD(1) [OF assms(1,2)] by (simp add: setWorker_def same_worker_def)
  with setWorker_wf(1) [OF assms] show ?thesis by simp
qed

lemma abortSession_wf:
  assumes "pump_wf p"
  shows "pump_wf (abortSession p i)"
proof -
  let ?q = "snd (abortHTTPForActor p i CauseShuttingDown)"
  have q: "pump_wf ?q" using assms by (simp add: abortHTTPForActor_def)
  have "same_worker w (w\<lparr>wk_session := abort_start (wk_session w)\<rparr>)" for w :: "'a actorWorker"
    by (simp add: same_worker_def abort_start_def closeDoneLocked_def)
  then show ?thesis using q updateWorker_wf [OF q] by (simp add: abortSession_def Let_def split: option.splits)
qed

lemma cancelActorWorkers_wf: "pump_wf p \<Longrightarrow> pump_wf (cancelActorWorkers p is)"
proof (induction p "is" rule: cancelActorWorkers.induct)
  case (2 p i "is")
  show ?case
  proof (cases "pm_actors p i")
    case (Some w)
    have "pump_wf (p\<lparr>pm_actors := (pm_actors p)(i \<mapsto> w\<lparr>wk_cancelled := True\<rparr>)\<rparr>)"
      by (rule updateWorker_wf [OF 2(3) Some]) (simp add: same_worker_def)
    from abortSession_wf [OF this] 2 Some show ?thesis by simp
  qed (use 2 in simp)
qed simp

lemma removeActor_wf:
  assumes "pump_wf p"
  shows "pump_wf (removeActor p i ref)"
proof -
  obtain events commands q where d: "detachActorWebSockets p i False ''actor worker stopped'' = (events, commands, q)"
    by (metis prod_cases3)
  note q = detach_wf [OF assms d]
  have "pump_wf (q\<lparr>pm_actors := (pm_actors q)(i := None)\<rparr>)"
  proof -
    have "pm_actors q (wo_identity holder) \<noteq> None \<and> wo_identity holder \<noteq> i" if "(wsID, holder) \<in> set (pm_websockets q)" for wsID holder
      using that q(3) pump_wfD(4) [OF q(1) that] by blast
    moreover have "pm_actors q j = Some w \<longrightarrow> ss_identity (wk_session w) = j \<and> wk_ref w < pm_nextRef q" for j w
      using pump_wfD(1,2) [OF q(1)] by blast
    ultimately show ?thesis using pump_wfD(3) [OF q(1)] by (auto simp: pump_wf_def)
  qed
  with q d show ?thesis by (simp add: removeActor_def)
qed

lemma pump_wf_step: "pump_step p p' \<Longrightarrow> pump_wf p \<Longrightarrow> pump_wf p'"
proof (erule pump_stepE)
  fix i w s assume "pm_actors p i = Some w" "ss_identity s = ss_identity (wk_session w)" "pump_wf p"
    "p' = setWorker p (w\<lparr>wk_session := s\<rparr>)"
  then show "pump_wf p'" using setWorker_wf(1) [of p i w "w\<lparr>wk_session := s\<rparr>"] by (simp add: same_worker_def)
next
  fix i w event m assume "pm_actors p i = Some w" "pump_wf p" "p' = setWorker p (w\<lparr>wk_mailbox := m\<rparr>)"
  then show "pump_wf p'" using setWorker_wf(1) [of p i w "w\<lparr>wk_mailbox := m\<rparr>"] by (simp add: same_worker_def)
next
  fix wsID w assume "pump_wf p" "removeWebSocket p wsID = (w, p')"
  then show "pump_wf p'" using removeSockets_wf by (auto simp: removeWebSocket_def deleteKey_def)
qed (simp_all add: handleInternalEvent_wf abortSession_wf cancelActorWorkers_wf removeActor_wf, auto simp: finishHTTPRequest_def)

interpretation pump_states: kept_by_steps pump_step pump_wf
  by unfold_locales (rule pump_wf_step)

lemma pump_wf_reachable: "pump_step\<^sup>*\<^sup>* (newPump transport handlers) p \<Longrightarrow> pump_wf p"
  by (erule pump_states.run_good) (simp add: pump_wf_def newPump_def)


text \<open>An actor with a WebSocket that can hibernate.\<close>

definition start_event :: Event where
  "start_event = zeroEvent\<lparr>ev_Kind := EventActorStart, ev_AID := ''a'', ev_Generation := 1, ev_Name := ''n''\<rparr>"

definition open_event :: Event where
  "open_event = zeroEvent\<lparr>ev_Kind := EventWSOpen, ev_AID := ''a'', ev_Generation := 1, ev_WSID := ''s'', ev_CanHibernate := True\<rparr>"

definition pump1 :: "(nat, nat) pump" where
  "pump1 = snd (handleInternalEvent (\<lambda>_. None) start_event (newPump ''ffi'' Map.empty))"

definition pump2 :: "(nat, nat) pump" where
  "pump2 = snd (handleInternalEvent (\<lambda>_. None) open_event pump1)"

lemma pump2_reachable: "pump_step\<^sup>*\<^sup>* (newPump ''ffi'' Map.empty) pump1" "pump_step\<^sup>*\<^sup>* (newPump ''ffi'' Map.empty) pump2"
proof -
  have handled: "pump_step p (snd (handleInternalEvent submit event p))" for p :: "(nat, nat) pump" and submit event
    by (rule pump_step.event [where r = "fst (handleInternalEvent submit event p)"]) simp
  have "pump_step (newPump ''ffi'' Map.empty) pump1" "pump_step pump1 pump2"
    unfolding pump1_def pump2_def by (rule handled)+
  then show "pump_step\<^sup>*\<^sup>* (newPump ''ffi'' Map.empty) pump1" "pump_step\<^sup>*\<^sup>* (newPump ''ffi'' Map.empty) pump2"
    by (meson converse_rtranclp_into_rtranclp rtranclp.rtrancl_refl)+
qed

lemma pump1_actor:
  "\<exists>w. pm_actors pump1 \<lparr>ai_aid = ''a'', ai_generation = 1\<rparr> = Some w \<and> wk_mailbox w = newActorMailbox \<and>
     ss_identity (wk_session w) = \<lparr>ai_aid = ''a'', ai_generation = 1\<rparr>"
  by (simp add: pump1_def handleInternalEvent_def handleActorStart_def start_event_def newPump_def actor_def setWorker_def newSession_def)

lemma pump1_sockets: "pm_websockets pump1 = []"
  by (simp add: pump1_def handleInternalEvent_def handleActorStart_def start_event_def newPump_def actor_def setWorker_def)

lemma pump2_sockets:
  "pm_websockets pump2 = [(''s'', \<lparr>wo_identity = \<lparr>ai_aid = ''a'', ai_generation = 1\<rparr>, wo_canHibernate = True\<rparr>)]"
  using pump1_actor pump1_sockets
  by (auto simp: pump2_def handleInternalEvent_def handleWSOpen_def open_event_def actor_def mailboxPut_def setWorker_def)




section \<open>Stopping an actor\<close>

definition hibernates :: "('h, 'u) pump \<Rightarrow> Event \<Rightarrow> websocketOwner \<Rightarrow> bool" where
  "hibernates p event holder \<longleftrightarrow> ev_Reason event = ''sleep'' \<and> \<not> pm_shuttingDown p \<and> wo_canHibernate holder"




section \<open>The end of an HTTP request\<close>

text \<open>C36: once a handler has finished an HTTP request, a further chunk of its body is an error of the pump, while an abort of the
  request is ignored.\<close>

theorem http_chunk_after_finish:
  "ev_RequestID event = requestID \<and> finishHTTPRequest p requestID = (state, p') \<Longrightarrow>
   (ev_Kind event = EventHTTPRequestChunk \<longrightarrow> handleInternalEvent submit event p' = (Some (UnknownHTTPRequest requestID), p')) \<and>
   (ev_Kind event = EventHTTPRequestAbort \<longrightarrow> handleInternalEvent submit event p' = (None, p'))"
  by (auto simp: handleInternalEvent_def handleHTTPRequestChunk_def handleHTTPRequestAbort_def httpRequest_def finishHTTPRequest_def)

text \<open>A streaming request that the actor's handler has answered before its body arrived.\<close>

definition request_event :: Event where
  "request_event = zeroEvent\<lparr>ev_Kind := EventHTTPRequest, ev_AID := ''a'', ev_Generation := 1, ev_RequestID := 9, ev_Stream := True\<rparr>"

theorem http_chunk_after_finish_witness:
  "let p = snd (handleInternalEvent (\<lambda>_. None) request_event pump1);
       chunk = zeroEvent\<lparr>ev_Kind := EventHTTPRequestChunk, ev_RequestID := 9, ev_Finish := True\<rparr>
   in pm_http p 9 \<noteq> None \<and>
      handleInternalEvent (\<lambda>_. None) chunk (snd (finishHTTPRequest p 9)) = (Some (UnknownHTTPRequest 9), snd (finishHTTPRequest p 9))"
proof -
  let ?p = "snd (handleInternalEvent (\<lambda>_. None) request_event pump1)"
  let ?chunk = "zeroEvent\<lparr>ev_Kind := EventHTTPRequestChunk, ev_RequestID := 9, ev_Finish := True\<rparr>"
  have "pm_http pump1 = Map.empty"
    by (simp add: pump1_def handleInternalEvent_def handleActorStart_def start_event_def newPump_def actor_def setWorker_def)
  then have "pm_http ?p 9 \<noteq> None"
    using pump1_actor
    by (auto simp: handleInternalEvent_def handleHTTPRequest_def request_event_def actor_def mailboxPut_def setWorker_def Let_def)
  moreover have "ev_RequestID ?chunk = 9 \<and> finishHTTPRequest ?p 9 = (fst (finishHTTPRequest ?p 9), snd (finishHTTPRequest ?p 9))" by simp
  from http_chunk_after_finish [OF this] have
    "handleInternalEvent (\<lambda>_. None) ?chunk (snd (finishHTTPRequest ?p 9)) = (Some (UnknownHTTPRequest 9), snd (finishHTTPRequest ?p 9))"
    by simp
  ultimately show ?thesis by (simp add: Let_def)
qed

end
