(* ===== verification/Save_Protocol.thy ===== *)
theory Save_Protocol
  imports Pump_Routing
begin

text \<open>
  State saves of one actor against the pump's event loop: \<open>ActorSession.Save\<close> (its registration, its submission and the arms of its
  final select), the runner's \<open>StatePersisted\<close> answers, and the exit of the actor's worker, in every interleaving. The runner owes
  one answer for every save command it has accepted. \<open>Save\<close> serialises its callers with \<open>saveMu\<close>, so at most one call is under way.
\<close>

record ('h, 'u) save_sys =
  sy_pump :: "('h, 'u) pump"
  sy_owed :: nat
  sy_call :: "(nat \<times> bool) option"
  sy_fatal :: bool

definition putSession :: "('h, 'u) save_sys \<Rightarrow> 'h actorWorker \<Rightarrow> ActorSession \<Rightarrow> ('h, 'u) save_sys" where
  "putSession s w session = s\<lparr>sy_pump := setWorker (sy_pump s) (w\<lparr>wk_session := session\<rparr>)\<rparr>"

text \<open>
  \<open>doneArm\<close> says whether the arm of \<open>Save\<close> that waits for the end of the session may fire. The call of \<open>sy_call\<close> is its channel and
  whether the runner has accepted its command.
\<close>

inductive save_step :: "bool \<Rightarrow> actorIdentity \<Rightarrow> ('h, 'u) save_sys \<Rightarrow> ('h, 'u) save_sys \<Rightarrow> bool" for doneArm i where
  register: "pm_actors (sy_pump s) i = Some w \<Longrightarrow> sy_call s = None \<Longrightarrow> (\<And>e. ToSaver c e \<notin> set (pm_sent (sy_pump s))) \<Longrightarrow>
    Save_begin (Some (wk_session w)) (Some ctx) state c = Inr (command, session) \<Longrightarrow>
    save_step doneArm i s ((putSession s w session)\<lparr>sy_call := Some (c, False)\<rparr>)"
| accepted: "sy_call s = Some (c, False) \<Longrightarrow> save_step doneArm i s (s\<lparr>sy_call := Some (c, True), sy_owed := Suc (sy_owed s)\<rparr>)"
| rejected: "sy_call s = Some (c, False) \<Longrightarrow> pm_actors (sy_pump s) i = Some w \<Longrightarrow>
    Save_end (wk_session w) (pm_lateSaves (sy_pump s)) c (SaveSubmitFailed e) = (r, session, late) \<Longrightarrow>
    save_step doneArm i s ((putSession s w session)\<lparr>sy_call := None\<rparr>)"
| answer: "sy_owed s = Suc n \<Longrightarrow> ev_Kind event = EventStatePersisted \<Longrightarrow>
    i = \<lparr>ai_aid = ev_AID event, ai_generation = ev_Generation event\<rparr> \<Longrightarrow>
    handleInternalEvent submit event (sy_pump s) = (r, p) \<Longrightarrow>
    save_step doneArm i s (s\<lparr>sy_pump := p, sy_owed := n, sy_fatal := (sy_fatal s \<or> r \<noteq> None)\<rparr>)"
| finished: "sy_call s = Some (c, True) \<Longrightarrow> pm_actors (sy_pump s) i = Some w \<Longrightarrow>
    (case outcome of
       SaveAck e \<Rightarrow> ToSaver c e \<in> set (pm_sent (sy_pump s))
     | SaveContext _ \<Rightarrow> True
     | SaveTimer \<Rightarrow> True
     | SaveSessionDone \<Rightarrow> doneArm \<and> ss_doneClosed (wk_session w)
     | _ \<Rightarrow> False) \<Longrightarrow>
    Save_end (wk_session w) (pm_lateSaves (sy_pump s)) c outcome = (r, session, late) \<Longrightarrow>
    save_step doneArm i s ((putSession s w session)\<lparr>sy_pump := (sy_pump (putSession s w session))\<lparr>pm_lateSaves := late\<rparr>, sy_call := None\<rparr>)"
| abort: "save_step doneArm i s (s\<lparr>sy_pump := abortSession (sy_pump s) i\<rparr>)"
| close_start: "pm_actors (sy_pump s) i = Some w \<Longrightarrow> save_step doneArm i s (putSession s w (closeGracefully_start (wk_session w)))"
| close_end: "pm_actors (sy_pump s) i = Some w \<Longrightarrow> closeGracefully_end (wk_session w) = Some session \<Longrightarrow>
    save_step doneArm i s (putSession s w session)"
| exit: "pm_actors (sy_pump s) i = Some w \<Longrightarrow> abort_end (wk_session w) = Some session \<Longrightarrow> ss_doneClosed session \<Longrightarrow>
    save_step doneArm i s (s\<lparr>sy_pump := removeActor (sy_pump s) i (wk_ref w)\<rparr>)"

inductive_cases save_stepE: "save_step doneArm i s s'"

text \<open>What the session, the late saves and the call know of the answers the runner owes.\<close>

definition pending :: "(nat \<times> bool) option \<Rightarrow> ActorSession \<Rightarrow> nat" where
  "pending call session = (case call of Some (c, True) \<Rightarrow> if ss_saveResult session = Some c then 1 else 0 | _ \<Rightarrow> 0)"

definition accounted :: "actorIdentity \<Rightarrow> ActorSession option \<Rightarrow> late_saves \<Rightarrow> delivery list \<Rightarrow> nat \<Rightarrow> (nat \<times> bool) option \<Rightarrow> bool" where
  "accounted i session late sent owed call \<longleftrightarrow>
     (case session of
        None \<Rightarrow> call = None \<and> owed = (if i \<in> late then 1 else 0)
      | Some s \<Rightarrow>
          owed = pending call s + (if i \<in> late then 1 else 0) \<and> (ss_savePoisoned s \<longleftrightarrow> i \<in> late) \<and>
          (case call of
             None \<Rightarrow> ss_saveResult s = None \<and> ss_activeSaves s = 0
           | Some (c, sub) \<Rightarrow>
               ss_activeSaves s = 1 \<and> i \<notin> late \<and>
               (ss_saveResult s = Some c \<and> (\<forall>e. ToSaver c e \<notin> set sent) \<or> sub \<and> ss_saveResult s = None)))"

definition save_inv :: "actorIdentity \<Rightarrow> ('h, 'u) save_sys \<Rightarrow> bool" where
  "save_inv i s \<longleftrightarrow> pump_wf (sy_pump s) \<and> \<not> sy_fatal s \<and>
     accounted i (map_option wk_session (pm_actors (sy_pump s) i)) (pm_lateSaves (sy_pump s)) (pm_sent (sy_pump s)) (sy_owed s) (sy_call s)"

lemma setWorker_simps [simp]:
  "pm_lateSaves (setWorker p w) = pm_lateSaves p" "pm_sent (setWorker p w) = pm_sent p" "pm_websockets (setWorker p w) = pm_websockets p"
  by (simp_all add: setWorker_def)

lemma putSession_inv:
  assumes "pump_wf (sy_pump s)" "pm_actors (sy_pump s) i = Some w" "ss_identity session = ss_identity (wk_session w)"
  shows "pump_wf (sy_pump (putSession s w session))" "map_option wk_session (pm_actors (sy_pump (putSession s w session)) i) = Some session"
    "pm_lateSaves (sy_pump (putSession s w session)) = pm_lateSaves (sy_pump s)" "pm_sent (sy_pump (putSession s w session)) = pm_sent (sy_pump s)"
    "sy_owed (putSession s w session) = sy_owed s" "sy_call (putSession s w session) = sy_call s" "sy_fatal (putSession s w session) = sy_fatal s"
  using setWorker_wf [OF assms(1,2), of "w\<lparr>wk_session := session\<rparr>"] assms(3)
  by (simp_all add: putSession_def same_worker_def)

lemma accounted_cong:
  "ss_saveResult session = ss_saveResult before \<Longrightarrow> ss_savePoisoned session = ss_savePoisoned before \<Longrightarrow>
   ss_activeSaves session = ss_activeSaves before \<Longrightarrow>
   accounted i (Some session) late sent owed call = accounted i (Some before) late sent owed call"
  by (cases call) (simp_all add: accounted_def pending_def split: prod.splits)

lemma session_change_inv:
  assumes "save_inv i s" "pm_actors (sy_pump s) i = Some w" "ss_identity session = ss_identity (wk_session w)"
    "ss_saveResult session = ss_saveResult (wk_session w)" "ss_savePoisoned session = ss_savePoisoned (wk_session w)"
    "ss_activeSaves session = ss_activeSaves (wk_session w)"
  shows "save_inv i (putSession s w session)"
proof -
  note put = putSession_inv [OF _ assms(2,3)]
  show ?thesis using assms(1) accounted_cong [OF assms(4-6)]
    by (simp only: save_inv_def put assms(2) option.map simp_thms)
qed

lemma register_accounted:
  assumes "accounted i (Some before) late sent owed None" "\<And>e. ToSaver c e \<notin> set sent"
    "Save_begin (Some before) (Some ctx) state c = Inr (command, session)"
  shows "accounted i (Some session) late sent owed (Some (c, False)) \<and> ss_identity session = ss_identity before"
  using assms by (auto simp: Save_begin_def accounted_def pending_def beginSave_def split: option.splits if_splits sum.splits)

lemma rejected_accounted:
  assumes "accounted i (Some before) late sent owed (Some (c, False))"
    "Save_end before late c (SaveSubmitFailed e) = (r, session, late')"
  shows "accounted i (Some session) late sent owed None \<and> ss_identity session = ss_identity before"
  using assms by (auto simp: Save_end_def accounted_def pending_def clearSaveResult_def finishSave_def split: if_splits)

lemma finished_accounted:
  assumes "accounted i (Some before) late sent owed (Some (c, True))" "ss_identity before = i"
    "Save_end before late c outcome = (r, session, late')"
    "case outcome of SaveAck e \<Rightarrow> ToSaver c e \<in> set sent | SaveContext _ \<Rightarrow> True | SaveTimer \<Rightarrow> True | _ \<Rightarrow> False"
  shows "accounted i (Some session) late' sent owed None \<and> ss_identity session = i"
  using assms
  by (auto simp: Save_end_def accounted_def pending_def abandonSave_def markLateSave_def finishSave_def
      split: save_outcome.splits option.splits if_splits)

lemma lateSave_absorbs:
  "i = \<lparr>ai_aid = ev_AID event, ai_generation = ev_Generation event\<rparr> \<Longrightarrow> i \<in> pm_lateSaves p \<Longrightarrow>
   lateSave p event e = (None, p\<lparr>pm_lateSaves := pm_lateSaves p - {i}\<rparr>)"
  by (simp add: lateSave_def consumeLateSave_def)

lemma answer_unknown:
  assumes "pm_actors p i = None" "i \<in> pm_lateSaves p"
    "i = \<lparr>ai_aid = ev_AID event, ai_generation = ev_Generation event\<rparr>"
  shows "handleStatePersisted event p = (None, p\<lparr>pm_lateSaves := pm_lateSaves p - {i}\<rparr>)"
  using assms lateSave_absorbs [OF assms(3,2)] by (simp add: handleStatePersisted_def actor_def)

lemma answer_pending:
  assumes "pm_actors p i = Some w" "ss_saveResult (wk_session w) = Some c"
    "i = \<lparr>ai_aid = ev_AID event, ai_generation = ev_Generation event\<rparr>"
  shows "handleStatePersisted event p =
    (None, (setWorker p (w\<lparr>wk_session := (wk_session w)\<lparr>ss_saveResult := None\<rparr>\<rparr>))\<lparr>pm_sent := pm_sent p @ [ToSaver c (ev_Error event)]\<rparr>)"
  using assms by (simp add: handleStatePersisted_def actor_def completeSave_def)

lemma answer_late:
  assumes "pm_actors p i = Some w" "ss_saveResult (wk_session w) = None" "ss_savePoisoned (wk_session w)" "i \<in> pm_lateSaves p"
    "ss_identity (wk_session w) = i" "i = \<lparr>ai_aid = ev_AID event, ai_generation = ev_Generation event\<rparr>"
  shows "handleStatePersisted event p =
    (None, (setWorker p (w\<lparr>wk_session := (wk_session w)\<lparr>ss_saveResult := None, ss_savePoisoned := False\<rparr>\<rparr>))\<lparr>pm_lateSaves := pm_lateSaves p - {i}\<rparr>)"
  using assms by (simp add: handleStatePersisted_def actor_def completeSave_def completeAbandonedSave_def consumeLateSave_def)

lemma answer_inv:
  assumes "save_inv i s" "sy_owed s = Suc n" "i = \<lparr>ai_aid = ev_AID event, ai_generation = ev_Generation event\<rparr>"
    "handleStatePersisted event (sy_pump s) = (r, p)"
  shows "save_inv i (s\<lparr>sy_pump := p, sy_owed := n, sy_fatal := (sy_fatal s \<or> r \<noteq> None)\<rparr>)"
proof (cases "pm_actors (sy_pump s) i")
  case None
  then have "i \<in> pm_lateSaves (sy_pump s)" "n = 0" "sy_call s = None"
    using assms(1,2) by (auto simp: save_inv_def accounted_def split: if_splits)
  with answer_unknown [OF None _ assms(3)] assms None show ?thesis by (auto simp: save_inv_def accounted_def)
next
  case (Some w)
  have wf: "pump_wf (sy_pump s)" using assms(1) by (simp add: save_inv_def)
  have id: "ss_identity (wk_session w) = i" using pump_wfD(1) [OF wf Some] .
  have acc: "accounted i (Some (wk_session w)) (pm_lateSaves (sy_pump s)) (pm_sent (sy_pump s)) (Suc n) (sy_call s)" "\<not> sy_fatal s"
    using assms(1,2) Some by (simp_all add: save_inv_def)
  have put: "pump_wf (setWorker (sy_pump s) (w\<lparr>wk_session := ses\<rparr>))"
    "pm_actors (setWorker (sy_pump s) (w\<lparr>wk_session := ses\<rparr>)) i = Some (w\<lparr>wk_session := ses\<rparr>)"
    if "ss_identity ses = i" for ses
    using setWorker_wf [OF wf Some, of "w\<lparr>wk_session := ses\<rparr>"] that id by (simp_all add: same_worker_def)
  show ?thesis
  proof (cases "ss_saveResult (wk_session w)")
    case (Some c)
    then obtain sub where call: "sy_call s = Some (c, sub)" using acc by (auto simp: accounted_def split: option.splits)
    with acc Some have "sub" "n = 0" by (auto simp: accounted_def pending_def split: bool.splits)
    moreover have "r = None" "p = (setWorker (sy_pump s) (w\<lparr>wk_session := (wk_session w)\<lparr>ss_saveResult := None\<rparr>\<rparr>))
        \<lparr>pm_sent := pm_sent (sy_pump s) @ [ToSaver c (ev_Error event)]\<rparr>"
      using answer_pending [OF \<open>pm_actors (sy_pump s) i = Some w\<close> Some assms(3)] assms(4) by simp_all
    ultimately show ?thesis
      using acc call put [of "(wk_session w)\<lparr>ss_saveResult := None\<rparr>"] id by (simp add: save_inv_def accounted_def pending_def)
  next
    case None
    then have late: "i \<in> pm_lateSaves (sy_pump s)" "ss_savePoisoned (wk_session w)" "n = 0" "sy_call s = None"
      using acc by (auto simp: accounted_def pending_def split: option.splits if_splits bool.splits)
    from answer_late [OF Some None late(2,1) id assms(3)] assms(4)
    have "r = None" "p = (setWorker (sy_pump s) (w\<lparr>wk_session := (wk_session w)\<lparr>ss_saveResult := None, ss_savePoisoned := False\<rparr>\<rparr>))
        \<lparr>pm_lateSaves := pm_lateSaves (sy_pump s) - {i}\<rparr>" by simp_all
    then show ?thesis
      using acc late put [of "(wk_session w)\<lparr>ss_saveResult := None, ss_savePoisoned := False\<rparr>"] id
      by (simp add: save_inv_def accounted_def pending_def)
  qed
qed

lemma putSession_save_inv:
  assumes "save_inv i s" "pm_actors (sy_pump s) i = Some w" "ss_identity session = ss_identity (wk_session w)"
    "accounted i (Some session) late (pm_sent (sy_pump s)) owed call"
  shows "save_inv i ((putSession s w session)\<lparr>sy_pump := (sy_pump (putSession s w session))\<lparr>pm_lateSaves := late\<rparr>, sy_owed := owed, sy_call := call\<rparr>)"
  using assms(1,4) putSession_inv [OF _ assms(2,3)] by (simp add: save_inv_def del: map_option_eq_Some)

lemma same_late [simp]: "(setWorker p w)\<lparr>pm_lateSaves := pm_lateSaves p\<rparr> = setWorker p w"
  by (simp add: setWorker_def)

lemma abort_inv:
  assumes "save_inv i s"
  shows "save_inv i (s\<lparr>sy_pump := abortSession (sy_pump s) i\<rparr>)"
proof -
  have wf: "pump_wf (abortSession (sy_pump s) i)" using assms by (simp add: save_inv_def abortSession_wf)
  have fields: "pm_lateSaves (abortSession p i) = pm_lateSaves p" "pm_sent (abortSession p i) = pm_sent p" for p :: "('a, 'b) pump"
    by (simp_all add: abortSession_def abortHTTPForActor_def Let_def split: option.splits)
  have session: "map_option wk_session (pm_actors (abortSession p i) i) = map_option (abort_start \<circ> wk_session) (pm_actors p i)" for p :: "('a, 'b) pump"
    by (cases "pm_actors p i") (simp_all add: abortSession_def abortHTTPForActor_def Let_def)
  show ?thesis
  proof (cases "pm_actors (sy_pump s) i")
    case None
    with assms wf fields session show ?thesis by (simp add: save_inv_def)
  next
    case (Some w)
    have "accounted i (Some (abort_start (wk_session w))) late sent owed call = accounted i (Some (wk_session w)) late sent owed call"
      for late sent owed call by (rule accounted_cong) (simp_all add: abort_start_def closeDoneLocked_def)
    with assms wf fields session [of "sy_pump s"] Some show ?thesis by (simp add: save_inv_def del: map_option_eq_Some)
  qed
qed

lemma exit_inv:
  assumes "save_inv i s" "pm_actors (sy_pump s) i = Some w" "idle (wk_session w)"
  shows "save_inv i (s\<lparr>sy_pump := removeActor (sy_pump s) i (wk_ref w)\<rparr>)"
proof -
  have acc: "accounted i (Some (wk_session w)) (pm_lateSaves (sy_pump s)) (pm_sent (sy_pump s)) (sy_owed s) (sy_call s)"
    using assms(1,2) by (simp add: save_inv_def)
  then have "sy_call s = None" using assms(3) by (auto simp: accounted_def idle_def split: option.splits)
  moreover have "pm_lateSaves (removeActor (sy_pump s) i (wk_ref w)) = pm_lateSaves (sy_pump s)"
    "pm_actors (removeActor (sy_pump s) i (wk_ref w)) i = None"
    using assms(2) by (simp_all add: removeActor_def detachActorWebSockets_def Let_def)
  ultimately show ?thesis using assms(1) acc by (simp add: save_inv_def removeActor_wf accounted_def pending_def)
qed

lemma save_inv_step:
  assumes "save_step False i s s'" "save_inv i s"
  shows "save_inv i s'"
  using assms(1)
proof cases
  case (register w c ctx state command session)
  have "accounted i (Some (wk_session w)) (pm_lateSaves (sy_pump s)) (pm_sent (sy_pump s)) (sy_owed s) None"
    using assms(2) register by (simp add: save_inv_def)
  note r = register_accounted [OF this register(4,5)]
  from putSession_save_inv [OF assms(2) register(2) conjunct2 [OF r] conjunct1 [OF r]] register(1) show ?thesis
    by (simp add: putSession_def)
next
  case (accepted c)
  with assms(2) show ?thesis by (auto simp: save_inv_def accounted_def pending_def split: option.splits)
next
  case (rejected c w e r session late)
  have "accounted i (Some (wk_session w)) (pm_lateSaves (sy_pump s)) (pm_sent (sy_pump s)) (sy_owed s) (Some (c, False))"
    using assms(2) rejected by (simp add: save_inv_def)
  note r = rejected_accounted [OF this rejected(4)]
  from putSession_save_inv [OF assms(2) rejected(3) conjunct2 [OF r] conjunct1 [OF r]] rejected(1) show ?thesis
    by (simp add: putSession_def)
next
  case (answer n event submit r p)
  then have "handleStatePersisted event (sy_pump s) = (r, p)" by (simp add: handleInternalEvent_def)
  from answer_inv [OF assms(2) answer(2,4) this] answer(1) show ?thesis by simp
next
  case (finished c w outcome r session late)
  have wf: "pump_wf (sy_pump s)" using assms(2) by (simp add: save_inv_def)
  have acc: "accounted i (Some (wk_session w)) (pm_lateSaves (sy_pump s)) (pm_sent (sy_pump s)) (sy_owed s) (Some (c, True))"
    using assms(2) finished by (simp add: save_inv_def)
  have "case outcome of SaveAck e \<Rightarrow> ToSaver c e \<in> set (pm_sent (sy_pump s)) | SaveContext _ \<Rightarrow> True | SaveTimer \<Rightarrow> True | _ \<Rightarrow> False"
    using finished(4) by (simp split: save_outcome.splits)
  note f = finished_accounted [OF acc pump_wfD(1) [OF wf finished(3)] finished(5) this]
  have "ss_identity session = ss_identity (wk_session w)" using f pump_wfD(1) [OF wf finished(3)] by simp
  from putSession_save_inv [OF assms(2) finished(3) this conjunct1 [OF f]] finished(1) show ?thesis by (simp add: putSession_def)
next
  case abort
  with abort_inv [OF assms(2)] show ?thesis by simp
next
  case (close_start w)
  then show ?thesis using session_change_inv [OF assms(2) close_start(2)] by (simp add: closeGracefully_start_def)
next
  case (close_end w session)
  then show ?thesis using session_change_inv [OF assms(2) close_end(2), of session]
    by (auto simp: closeGracefully_end_def closeDoneLocked_def split: if_splits)
next
  case (exit w session)
  then have "idle (wk_session w)" by (simp add: abort_end_def split: if_splits)
  from exit_inv [OF assms(2) exit(2) this] exit(1) show ?thesis by simp
qed

interpretation save_states: kept_by_steps "save_step False i" "save_inv i" for i
  by unfold_locales (rule save_inv_step)

text \<open>An actor that has just started.\<close>

definition save_start :: "actorIdentity \<Rightarrow> ('h, 'u) save_sys \<Rightarrow> bool" where
  "save_start i s \<longleftrightarrow>
     pump_wf (sy_pump s) \<and> sy_owed s = 0 \<and> sy_call s = None \<and> \<not> sy_fatal s \<and> i \<notin> pm_lateSaves (sy_pump s) \<and>
     (case pm_actors (sy_pump s) i of
        None \<Rightarrow> False
      | Some w \<Rightarrow> ss_saveResult (wk_session w) = None \<and> \<not> ss_savePoisoned (wk_session w) \<and> ss_activeSaves (wk_session w) = 0)"

lemma save_start_inv: "save_start i s \<Longrightarrow> save_inv i s"
  by (auto simp: save_start_def save_inv_def accounted_def pending_def split: option.splits)



section \<open>Saves cut short by the end of the session\<close>

text \<open>The actor of \<^const>\<open>pump1\<close>, on its own.\<close>

definition actor1 :: actorIdentity where "actor1 = \<lparr>ai_aid = ''a'', ai_generation = 1\<rparr>"

definition save_sys1 :: "(nat, nat) save_sys" where
  "save_sys1 = \<lparr>sy_pump = pump1, sy_owed = 0, sy_call = None, sy_fatal = False\<rparr>"

definition worker1 :: "nat actorWorker" where
  "worker1 = the (pm_actors pump1 actor1)"

lemmas pump1_eval = pump1_def handleInternalEvent_def handleActorStart_def start_event_def newPump_def actor_def setWorker_def
  newSession_def actor1_def

lemma pump1_worker: "pm_actors pump1 actor1 = Some worker1" "pm_sent pump1 = []" "pm_lateSaves pump1 = {}"
  "wk_session worker1 = newSession pump1 start_event" "ss_identity (wk_session worker1) = actor1"
  by (simp_all add: pump1_eval worker1_def Let_def)

lemma save_start1: "save_start actor1 save_sys1"
  using pump_wf_reachable [OF pump2_reachable(1)]
  by (simp add: save_start_def save_sys1_def pump1_worker newSession_def)


text \<open>The steps of a save that is under way when the worker exits.\<close>

lemma done_arm_run:
  assumes "pump_wf p" "pm_actors p i = Some w" "ss_identity (wk_session w) = i" "fresh_session (wk_session w)"
    "ss_saveResult (wk_session w) = None" "\<not> ss_savePoisoned (wk_session w)" "\<And>e. ToSaver c e \<notin> set (pm_sent p)"
    "i \<notin> pm_lateSaves p"
  shows "\<exists>s'. (save_step True i)\<^sup>*\<^sup>* \<lparr>sy_pump = p, sy_owed = 0, sy_call = None, sy_fatal = False\<rparr> s' \<and>
    pm_actors (sy_pump s') i = None \<and> sy_owed s' = 1 \<and> i \<notin> pm_lateSaves (sy_pump s')"
proof -
  let ?s0 = "\<lparr>sy_pump = p, sy_owed = 0, sy_call = None, sy_fatal = False\<rparr>"
  let ?ses1 = "(wk_session w)\<lparr>ss_activeSaves := 1, ss_saveResult := Some c\<rparr>"
  let ?w1 = "w\<lparr>wk_session := ?ses1\<rparr>"
  let ?p1 = "setWorker p ?w1"
  let ?s2 = "\<lparr>sy_pump = ?p1, sy_owed = 1, sy_call = Some (c, True), sy_fatal = False\<rparr>"
  let ?p3 = "abortSession ?p1 i"
  let ?w3 = "?w1\<lparr>wk_session := abort_start ?ses1\<rparr>"
  let ?s3 = "?s2\<lparr>sy_pump := ?p3\<rparr>"
  let ?ses4 = "finishSave (abort_start ?ses1)"
  let ?w4 = "?w3\<lparr>wk_session := ?ses4\<rparr>"
  let ?p4 = "(setWorker ?p3 ?w4)\<lparr>pm_lateSaves := pm_lateSaves p\<rparr>"
  let ?s4 = "\<lparr>sy_pump = ?p4, sy_owed = 1, sy_call = None, sy_fatal = False\<rparr>"
  let ?s5 = "?s4\<lparr>sy_pump := removeActor ?p4 i (wk_ref ?w4)\<rparr>"
  have b: "Save_begin (Some (wk_session w)) (Some \<lparr>gc_err = None, gc_remaining = None\<rparr>) None c = Inr
      (zeroCommand\<lparr>cmd_Kind := CommandSaveState, cmd_AID := ai_aid i, cmd_Generation := ai_generation i, cmd_State := None\<rparr>, ?ses1)"
    using assms(3-6) by (simp add: Save_begin_def beginSave_def fresh_session_def appendNil_def)
  have "save_step True i ?s0 \<lparr>sy_pump = ?p1, sy_owed = 0, sy_call = Some (c, False), sy_fatal = False\<rparr>"
    using save_step.register [of ?s0 i w c, OF _ _ _ b, of True] assms(2,7) by (simp add: putSession_def)
  moreover have "save_step True i \<lparr>sy_pump = ?p1, sy_owed = 0, sy_call = Some (c, False), sy_fatal = False\<rparr> ?s2"
    using save_step.accepted [of "\<lparr>sy_pump = ?p1, sy_owed = 0, sy_call = Some (c, False), sy_fatal = False\<rparr>" c True i] by simp
  moreover have "save_step True i ?s2 ?s3" using save_step.abort [of True i ?s2] by simp
  moreover have w3: "pm_actors ?p3 i = Some ?w3"
    using assms(3) by (simp add: abortSession_def abortHTTPForActor_def setWorker_def)
  have late: "pm_lateSaves ?p3 = pm_lateSaves p"
    by (simp add: abortSession_def abortHTTPForActor_def Let_def setWorker_def split: option.splits)
  have "save_step True i ?s3 ?s4"
    using save_step.finished [where s = ?s3 and c = c and i = i and w = ?w3 and outcome = SaveSessionDone and doneArm = True and r = "Inl ErrShuttingDown" and session = ?ses4 and late = "pm_lateSaves p"] w3 late
    by (simp add: Save_end_def putSession_def abort_start_def closeDoneLocked_def)
  moreover have w4: "pm_actors ?p4 i = Some ?w4"
    using assms(3) by (simp add: setWorker_def abort_start_def closeDoneLocked_def finishSave_def)
  have "abort_end (wk_session ?w4) = Some (wk_session ?w4)" "ss_doneClosed (wk_session ?w4)"
    using assms(4) by (simp_all add: abort_end_def idle_def abort_start_def closeDoneLocked_def finishSave_def fresh_session_def)
  then have "save_step True i ?s4 ?s5" using save_step.exit [of ?s4 i ?w4 "wk_session ?w4" True] w4 by simp
  ultimately have "(save_step True i)\<^sup>*\<^sup>* ?s0 ?s5" by (meson converse_rtranclp_into_rtranclp rtranclp.rtrancl_refl)
  moreover have "pm_actors (sy_pump ?s5) i = None" "i \<notin> pm_lateSaves (sy_pump ?s5)"
    using w4 assms(8) by (simp_all add: removeActor_def detachActorWebSockets_def Let_def)
  ultimately show ?thesis by fastforce
qed

text \<open>C35: a save that is under way when its worker exits returns at the closed session without leaving a mark for its answer. The
  answer then arrives for an actor that is gone and ends the pump: such a state can be reached from every actor that has just
  started.\<close>

theorem save_done_fatal:
  assumes "save_start i \<lparr>sy_pump = p, sy_owed = 0, sy_call = None, sy_fatal = False\<rparr>" "pm_actors p i = Some w"
    "fresh_session (wk_session w)" "pm_sent p = []"
  shows "\<exists>s'. (save_step True i)\<^sup>*\<^sup>* \<lparr>sy_pump = p, sy_owed = 0, sy_call = None, sy_fatal = False\<rparr> s' \<and> sy_fatal s'"
proof -
  have wf: "pump_wf p" using assms(1) by (simp add: save_start_def)
  obtain s' where run: "(save_step True i)\<^sup>*\<^sup>* \<lparr>sy_pump = p, sy_owed = 0, sy_call = None, sy_fatal = False\<rparr> s'"
    and s': "pm_actors (sy_pump s') i = None" "sy_owed s' = 1" "i \<notin> pm_lateSaves (sy_pump s')"
    using done_arm_run [OF wf assms(2) pump_wfD(1) [OF wf assms(2)] assms(3), of 0] assms by (auto simp: save_start_def)
  let ?event = "zeroEvent\<lparr>ev_Kind := EventStatePersisted, ev_AID := ai_aid i, ev_Generation := ai_generation i\<rparr>"
  obtain r q where h: "handleInternalEvent (\<lambda>_. None) ?event (sy_pump s') = (r, q)" by fastforce
  then have "r \<noteq> None"
    using s'(1,3) by (auto simp: handleInternalEvent_def handleStatePersisted_def actor_def lateSave_def consumeLateSave_def)
  moreover have "save_step True i s' (s'\<lparr>sy_pump := q, sy_owed := 0, sy_fatal := (sy_fatal s' \<or> r \<noteq> None)\<rparr>)"
    using save_step.answer [of s' 0 ?event i "\<lambda>_. None" r q True] s'(2) h by simp
  ultimately show ?thesis using run by (intro exI [of _ "s'\<lparr>sy_pump := q, sy_owed := 0, sy_fatal := (sy_fatal s' \<or> r \<noteq> None)\<rparr>"]) simp
qed

theorem save_done_fatal_witness: "\<exists>s'. (save_step True actor1)\<^sup>*\<^sup>* save_sys1 s' \<and> sy_fatal s'"
proof -
  have "fresh_session (wk_session worker1)" by (simp add: pump1_worker newSession_def fresh_session_def)
  from save_done_fatal [OF save_start1 [unfolded save_sys1_def] pump1_worker(1) this pump1_worker(2)] show ?thesis
    by (simp add: save_sys1_def)
qed

end
