(* ===== verification/Poll_Loop.thy ===== *)
theory Poll_Loop
  imports Pump_Routing
begin

text \<open>
  \<open>pollLoop\<close> of \<^verbatim>\<open>internal/pump/pump.go\<close> with the subscribers it feeds and the order of its clean-up. One round is a
  function of what the round meets: a worker's error, the state of the context, what the native \<open>Shutdown\<close> and \<open>Poll\<close> return. The
  MessagePack library is the parameter \<open>unmarshal\<close> of \<open>DecodeEventBatch\<close>. A subscriber's channel is the list of what has been
  sent on it; a full channel only makes the loop wait.
\<close>

section \<open>Subscribers\<close>

definition Subscribe :: "('h, 'u) pump \<Rightarrow> u64 \<times> ('h, 'u) pump" where
  "Subscribe p =
     (pm_nextSubID p,
      p\<lparr>pm_nextSubID := pm_nextSubID p + 1,
        pm_subs := deleteKey (pm_nextSubID p) (pm_subs p) @ [(pm_nextSubID p, \<lparr>sb_closed = False, sb_events = []\<rparr>)]\<rparr>)"

definition subscriber_close :: "subscriber \<Rightarrow> subscriber" where
  "subscriber_close s = s\<lparr>sb_closed := True\<rparr>"

text \<open>The cancel function of a subscription: the subscriber leaves the table and its channel is closed.\<close>

definition Cancel :: "('h, 'u) pump \<Rightarrow> u64 \<Rightarrow> subscriber option \<times> ('h, 'u) pump" where
  "Cancel p i = (map_option subscriber_close (map_of (pm_subs p) i), p\<lparr>pm_subs := deleteKey i (pm_subs p)\<rparr>)"

text \<open>The result says whether the loop goes on: a send is given up only when the pump is done.\<close>

definition subscriber_send :: "bool \<Rightarrow> Event \<Rightarrow> subscriber \<Rightarrow> bool \<times> subscriber" where
  "subscriber_send pumpDone event s =
     (if sb_closed s then (True, s) else if pumpDone then (False, s) else (True, s\<lparr>sb_events := sb_events s @ [event]\<rparr>))"

fun sendAll :: "bool \<Rightarrow> Event \<Rightarrow> (u64 \<times> subscriber) list \<Rightarrow> bool \<times> (u64 \<times> subscriber) list" where
  "sendAll pumpDone event [] = (True, [])"
| "sendAll pumpDone event ((i, s) # subs) =
     (case subscriber_send pumpDone event s of
        (False, s) \<Rightarrow> (False, (i, s) # subs)
      | (True, s) \<Rightarrow> (case sendAll pumpDone event subs of (go, subs) \<Rightarrow> (go, (i, s) # subs)))"

definition dispatch :: "('h, 'u) pump \<Rightarrow> Event \<Rightarrow> bool \<times> ('h, 'u) pump" where
  "dispatch p event = (case sendAll (pm_done p) event (pm_subs p) of (go, subs) \<Rightarrow> (go, p\<lparr>pm_subs := subs\<rparr>))"

definition closeSubscribers :: "('h, 'u) pump \<Rightarrow> (u64 \<times> subscriber) list \<times> ('h, 'u) pump" where
  "closeSubscribers p = (map (apsnd subscriber_close) (pm_subs p), p\<lparr>pm_subs := []\<rparr>)"


section \<open>The loop\<close>

type_synonym submit_fun = "Command list \<Rightarrow> submit_error option"

definition stoppedResult :: "Event \<Rightarrow> ('h, 'u) pump \<Rightarrow> ('h, 'u) pump" where
  "stoppedResult event p =
     (case ev_DrainReport event of
        None \<Rightarrow> setResult p NoDrainReport
      | Some report \<Rightarrow> if \<not> dr_Graceful report then setResult p (DrainExceeded (dr_ActorsRemaining report)) else p)"

text \<open>The events of one batch. The flag says whether the loop goes on.\<close>

fun handleEvents :: "submit_fun \<Rightarrow> Event list \<Rightarrow> ('h, 'u) pump \<Rightarrow> bool \<times> ('h, 'u) pump" where
  "handleEvents submit [] p = (True, p)"
| "handleEvents submit (event # events) p =
     (case handleInternalEvent submit event p of
        (Some err, p) \<Rightarrow> (False, setResult p err)
      | (None, p) \<Rightarrow>
          (case dispatch p event of
             (False, p) \<Rightarrow> (False, p)
           | (True, p) \<Rightarrow>
               if ev_Kind event = EventRunnerStopped then (False, stoppedResult event p)
               else handleEvents submit events p))"

record poll_input =
  pi_workerError :: "string option"
  pi_ctxDone :: bool
  pi_shutdown :: "string option"
  pi_poll :: "string + bytes"
  pi_submit :: submit_fun

text \<open>The check of the context and the request to drain.\<close>

definition requestShutdown :: "poll_input \<Rightarrow> bool \<Rightarrow> ('h, 'u) pump \<Rightarrow> (bool \<times> ('h, 'u) pump) \<times> 'u pump_error option" where
  "requestShutdown input shutdownRequested p =
     (if \<not> shutdownRequested \<and> pi_ctxDone input
      then ((True, p\<lparr>pm_shuttingDown := True\<rparr>), map_option ShutdownFailed (pi_shutdown input))
      else ((shutdownRequested, p), None))"

definition handleBatch :: "submit_fun \<Rightarrow> EventBatch \<Rightarrow> ('h, 'u) pump \<Rightarrow> bool \<times> ('h, 'u) pump" where
  "handleBatch submit batch p =
     (if pm_seenSeq p \<and> eb_Seq batch \<le> pm_lastSeq p then (False, setResult p (NonMonotonic (eb_Seq batch) (pm_lastSeq p)))
      else handleEvents submit (eb_Events batch) (p\<lparr>pm_seenSeq := True, pm_lastSeq := eb_Seq batch\<rparr>))"

definition pollRound ::
  "(bytes \<Rightarrow> 'u + EventBatch) \<Rightarrow> poll_input \<Rightarrow> bool \<Rightarrow> ('h, 'u) pump \<Rightarrow> bool \<times> bool \<times> ('h, 'u) pump" where
  "pollRound unmarshal input shutdownRequested p =
     (case pi_workerError input of
        Some err \<Rightarrow> (False, shutdownRequested, setResult p (WorkerError err))
      | None \<Rightarrow>
          (case requestShutdown input shutdownRequested p of
             ((shutdownRequested, p), Some err) \<Rightarrow> (False, shutdownRequested, setResult p err)
           | ((shutdownRequested, p), None) \<Rightarrow>
               (case pi_poll input of
                  Inl err \<Rightarrow> (False, shutdownRequested, setResult p (PollFailed err))
                | Inr data \<Rightarrow>
                    (case DecodeEventBatch unmarshal data of
                       Inl err \<Rightarrow> (False, shutdownRequested, setResult p (DecodeFailed err))
                     | Inr batch \<Rightarrow>
                         (case handleBatch (pi_submit input) batch p of (go, p) \<Rightarrow> (go, shutdownRequested, p))))))"

text \<open>The rounds until the loop returns; the flag says whether it still runs when the inputs are used up.\<close>

fun pollLoop :: "(bytes \<Rightarrow> 'u + EventBatch) \<Rightarrow> poll_input list \<Rightarrow> bool \<Rightarrow> ('h, 'u) pump \<Rightarrow> bool \<times> ('h, 'u) pump" where
  "pollLoop unmarshal [] shutdownRequested p = (True, p)"
| "pollLoop unmarshal (input # inputs) shutdownRequested p =
     (case pollRound unmarshal input shutdownRequested p of
        (False, _, p) \<Rightarrow> (False, p)
      | (True, shutdownRequested, p) \<Rightarrow> pollLoop unmarshal inputs shutdownRequested p)"

text \<open>
  The deferred clean-up. \<open>identities\<close> are the live actors; their workers exit, each removing itself, before the submissions stop. The
  second result are the closed subscribers.
\<close>

fun exitWorkers :: "('h, 'u) pump \<Rightarrow> actorIdentity list \<Rightarrow> ('h, 'u) pump" where
  "exitWorkers p [] = p"
| "exitWorkers p (i # is) =
     (case pm_actors p i of None \<Rightarrow> exitWorkers p is | Some w \<Rightarrow> exitWorkers (removeActor p i (wk_ref w)) is)"

definition pollLoop_cleanup :: "('h, 'u) pump \<Rightarrow> actorIdentity list \<Rightarrow> ('h, 'u) pump \<times> (u64 \<times> subscriber) list" where
  "pollLoop_cleanup p identities =
     (let p = exitWorkers (cancelActorWorkers p identities) identities;
          p = p\<lparr>pm_shuttingDown := True\<rparr>;
          p = p\<lparr>pm_kv := failKVWaiters (pm_kv p), pm_intents := failActorIntentWaiters (pm_intents p),
                pm_sqlite := failSQLiteWaiters (pm_sqlite p)\<rparr>
      in case closeSubscribers p of (closed, p) \<Rightarrow> (p\<lparr>pm_done := True\<rparr>, closed))"

text \<open>\<open>Run\<close>: a second call is refused, a missing runner too.\<close>

datatype 'u run_error = ErrAlreadyStarted | NilRunner | RunResult "'u pump_error"

definition Run :: "bool \<Rightarrow> bool \<Rightarrow> 'u pump_error option \<Rightarrow> 'u run_error option" where
  "Run started hasRunner result =
     (if started then Some ErrAlreadyStarted else if \<not> hasRunner then Some NilRunner else map_option RunResult result)"


section \<open>What the handlers leave alone\<close>

definition loop_fields :: "('h, 'u) pump \<Rightarrow> (u64 \<times> subscriber) list \<times> bool \<times> 'u pump_error option \<times> bool \<times> u64" where
  "loop_fields p = (pm_subs p, pm_done p, pm_result p, pm_seenSeq p, pm_lastSeq p)"

lemma loop_fields_update [simp]:
  "loop_fields (setWorker p w) = loop_fields p" "loop_fields (mailboxPut p w event) = loop_fields p"
  "loop_fields (sendTo r event p) = loop_fields p" "loop_fields (p\<lparr>pm_http := h\<rparr>) = loop_fields p"
  "loop_fields (p\<lparr>pm_websockets := ws\<rparr>) = loop_fields p" "loop_fields (p\<lparr>pm_lateSaves := l\<rparr>) = loop_fields p"
  "loop_fields (p\<lparr>pm_sent := d\<rparr>) = loop_fields p" "loop_fields (p\<lparr>pm_kv := t\<rparr>) = loop_fields p"
  "loop_fields (p\<lparr>pm_intents := t\<rparr>) = loop_fields p" "loop_fields (p\<lparr>pm_sqlite := t\<rparr>) = loop_fields p"
  "loop_fields (p\<lparr>pm_nextRef := n, pm_spawned := sp\<rparr>) = loop_fields p"
  by (simp_all add: loop_fields_def setWorker_def mailboxPut_def sendTo_def split: option.splits)

lemma loop_fields_putAll [simp]: "loop_fields (mailboxPutAll p i events) = loop_fields p"
  by (induction p i events rule: mailboxPutAll.induct) (simp_all split: option.splits)

lemma loop_fields_detach:
  "detachActorWebSockets p i h reason = (events, commands, p') \<Longrightarrow> loop_fields p' = loop_fields p"
  by (auto simp: detachActorWebSockets_def Let_def)

lemma loop_fields_lateSave: "lateSave p event e = (r, p') \<Longrightarrow> loop_fields p' = loop_fields p"
  by (auto simp: lateSave_def split: prod.splits bool.splits)

lemma loop_fields_handler: "handleInternalEvent submit event p = (r, p') \<Longrightarrow> loop_fields p' = loop_fields p"
proof (cases "ev_Kind event")
  case EventActorStop
  assume "handleInternalEvent submit event p = (r, p')"
  with EventActorStop show ?thesis
    by (auto simp: handleInternalEvent_def handleActorStop_def unknownActor_def Let_def dest!: loop_fields_detach
        split: option.splits prod.splits if_splits)
next
  case EventStatePersisted
  assume "handleInternalEvent submit event p = (r, p')"
  with EventStatePersisted show ?thesis
    by (auto simp: handleInternalEvent_def handleStatePersisted_def Let_def dest!: loop_fields_lateSave
        split: option.splits prod.splits if_splits)
qed (auto simp: handleInternalEvent_def handleActorStart_def toActor_def unknownActor_def handleIntentResult_def handleKVResult_def
    handleSQLiteResult_def handleHTTPRequest_def handleHTTPRequestChunk_def handleHTTPRequestAbort_def handleWSOpen_def
    handleWSMessage_def handleWSClose_def removeWebSocket_def Let_def split: option.splits prod.splits if_splits)

lemma handler_frame:
  assumes "handleInternalEvent submit event p = (r, p')"
  shows "pm_subs p' = pm_subs p" "pm_done p' = pm_done p" "pm_result p' = pm_result p" "pm_seenSeq p' = pm_seenSeq p"
    "pm_lastSeq p' = pm_lastSeq p"
  using loop_fields_handler [OF assms] by (simp_all add: loop_fields_def)


section \<open>Subscribers see every event\<close>

text \<open>What a subscriber has received after further events.\<close>

definition received :: "Event list \<Rightarrow> u64 \<times> subscriber \<Rightarrow> u64 \<times> subscriber" where
  "received events = apsnd (\<lambda>s. if sb_closed s then s else s\<lparr>sb_events := sb_events s @ events\<rparr>)"

lemma received_Nil [simp]: "map (received []) subs = subs"
  by (rule map_idI) (auto simp: received_def)

lemma received_append [simp]: "received ys (received xs s) = received (xs @ ys) s"
  by (cases s) (simp add: received_def)

lemma sendAll_received: "sendAll False event subs = (True, map (received [event]) subs)"
  by (induction subs) (auto simp: subscriber_send_def received_def)

lemma dispatch_received: "\<not> pm_done p \<Longrightarrow> dispatch p event = (True, p\<lparr>pm_subs := map (received [event]) (pm_subs p)\<rparr>)"
  by (simp add: dispatch_def sendAll_received)

lemma handleEvents_go:
  assumes "handleEvents submit events p = (True, p')" "\<not> pm_done p"
  shows "pm_subs p' = map (received events) (pm_subs p) \<and> \<not> pm_done p' \<and> pm_result p' = pm_result p \<and>
    pm_seenSeq p' = pm_seenSeq p \<and> pm_lastSeq p' = pm_lastSeq p"
  using assms
proof (induction events arbitrary: p)
  case (Cons event events)
  obtain r q where h: "handleInternalEvent submit event p = (r, q)" by fastforce
  note frame = handler_frame [OF h]
  have r: "r = None" "ev_Kind event \<noteq> EventRunnerStopped"
    "handleEvents submit events (q\<lparr>pm_subs := map (received [event]) (pm_subs q)\<rparr>) = (True, p')"
    using Cons.prems h dispatch_received [of q event] frame(2) by (auto split: option.splits if_splits)
  from Cons.IH [OF r(3)] frame Cons.prems(2) show ?case by (simp add: comp_def)
qed simp

text \<open>The batch a round has polled.\<close>

definition polled :: "(bytes \<Rightarrow> 'u + EventBatch) \<Rightarrow> poll_input \<Rightarrow> EventBatch" where
  "polled unmarshal input = projr (DecodeEventBatch unmarshal (projr (pi_poll input)))"

lemma requestShutdown_frame:
  "requestShutdown input sd p = ((sd', p'), e) \<Longrightarrow> loop_fields p' = loop_fields p"
  by (auto simp: requestShutdown_def loop_fields_def split: if_splits)

lemma handleBatch_go:
  assumes "handleBatch submit batch p = (True, p')" "\<not> pm_done p"
  shows "pm_subs p' = map (received (eb_Events batch)) (pm_subs p) \<and> \<not> pm_done p' \<and> pm_seenSeq p' \<and>
    pm_lastSeq p' = eb_Seq batch \<and> (pm_seenSeq p \<longrightarrow> pm_lastSeq p < eb_Seq batch)"
  using assms handleEvents_go [of submit "eb_Events batch" "p\<lparr>pm_seenSeq := True, pm_lastSeq := eb_Seq batch\<rparr>" p']
  by (auto simp: handleBatch_def split: if_splits)

lemma pollRound_go:
  assumes "pollRound unmarshal input sd p = (True, sd', p')" "\<not> pm_done p"
  shows "pm_subs p' = map (received (eb_Events (polled unmarshal input))) (pm_subs p) \<and> \<not> pm_done p' \<and> pm_seenSeq p' \<and>
    pm_lastSeq p' = eb_Seq (polled unmarshal input) \<and> (pm_seenSeq p \<longrightarrow> pm_lastSeq p < eb_Seq (polled unmarshal input))"
proof -
  obtain sd1 q e where q: "requestShutdown input sd p = ((sd1, q), e)" by (metis prod.exhaust)
  obtain data batch where d: "pi_poll input = Inr data" "DecodeEventBatch unmarshal data = Inr batch"
    "handleBatch (pi_submit input) batch q = (True, p')"
    using assms(1) q by (auto simp: pollRound_def split: option.splits sum.splits prod.splits)
  have f: "pm_subs q = pm_subs p" "pm_done q = pm_done p" "pm_seenSeq q = pm_seenSeq p" "pm_lastSeq q = pm_lastSeq p"
    using requestShutdown_frame [OF q] by (simp_all add: loop_fields_def)
  from handleBatch_go [OF d(3)] assms(2) f d(1,2) show ?thesis by (simp add: polled_def)
qed

lemma pollLoop_go:
  assumes "pollLoop unmarshal inputs sd p = (True, p')" "\<not> pm_done p"
  shows "pm_subs p' = map (received (concat (map (eb_Events \<circ> polled unmarshal) inputs))) (pm_subs p) \<and>
    sorted_wrt (<) (map (eb_Seq \<circ> polled unmarshal) inputs) \<and>
    (pm_seenSeq p \<longrightarrow> (\<forall>input \<in> set inputs. pm_lastSeq p < eb_Seq (polled unmarshal input)))"
  using assms
proof (induction inputs arbitrary: sd p)
  case (Cons input inputs)
  obtain sd' q where r: "pollRound unmarshal input sd p = (True, sd', q)" "pollLoop unmarshal inputs sd' q = (True, p')"
    using Cons.prems(1) by (auto split: prod.splits bool.splits)
  note round = pollRound_go [OF r(1) Cons.prems(2)]
  note rest = Cons.IH [OF r(2)]
  from round have "\<not> pm_done q" "pm_seenSeq q" "pm_lastSeq q = eb_Seq (polled unmarshal input)" by blast+
  with rest have later: "\<forall>i \<in> set inputs. eb_Seq (polled unmarshal input) < eb_Seq (polled unmarshal i)"
    "sorted_wrt (<) (map (eb_Seq \<circ> polled unmarshal) inputs)"
    "pm_subs p' = map (received (concat (map (eb_Events \<circ> polled unmarshal) inputs))) (pm_subs q)" by metis+
  with round show ?case by (auto simp: comp_def intro: less_trans)
qed simp

text \<open>C10: while the loop runs, the sequence numbers of the batches it takes in grow strictly, so that no batch is handled twice, and
  every open subscriber has been sent every event of every batch, in order.\<close>

theorem poll_lossless_ordered:
  assumes "pollLoop unmarshal inputs shutdownRequested p = (True, p')" "\<not> pm_done p" "map_of (pm_subs p) i = Some s" "\<not> sb_closed s"
  shows "sorted_wrt (<) (map (eb_Seq \<circ> polled unmarshal) inputs) \<and>
    map_of (pm_subs p') i = Some (s\<lparr>sb_events := sb_events s @ concat (map (eb_Events \<circ> polled unmarshal) inputs)\<rparr>)"
proof -
  note run = pollLoop_go [OF assms(1,2)]
  have "map_of (map (received es) subs) i = map_option (\<lambda>s. snd (received es (i, s))) (map_of subs i)" for es subs
    by (induction subs) (auto simp: received_def)
  with run assms(3,4) show ?thesis by (simp add: received_def)
qed

text \<open>A pump with one subscriber, and a round that polls the event of a connected runner.\<close>

definition connected_event :: Event where
  "connected_event = zeroEvent\<lparr>ev_Kind := EventRunnerConnected, ev_RunnerID := ''r''\<rparr>"

definition stopped_event :: Event where
  "stopped_event = zeroEvent\<lparr>ev_Kind := EventRunnerStopped,
     ev_DrainReport := Some \<lparr>dr_Graceful = True, dr_ElapsedMS = 1, dr_ActorsStopped = 0, dr_ActorsRemaining = 0\<rparr>\<rparr>"

definition unmarshal1 :: "Event \<Rightarrow> bytes \<Rightarrow> nat + EventBatch" where
  "unmarshal1 event data = Inr \<lparr>eb_Seq = 1, eb_Events = [event]\<rparr>"

definition input1 :: poll_input where
  "input1 = \<lparr>pi_workerError = None, pi_ctxDone = False, pi_shutdown = None, pi_poll = Inr [0xc0], pi_submit = (\<lambda>_. None)\<rparr>"

definition pump_sub :: "(nat, nat) pump" where
  "pump_sub = snd (Subscribe (newPump ''ffi'' Map.empty))"

lemma decode1: "event \<in> {connected_event, stopped_event} \<Longrightarrow> DecodeEventBatch (unmarshal1 event) [0xc0] = Inr \<lparr>eb_Seq = 1, eb_Events = [event]\<rparr>"
proof -
  assume event: "event \<in> {connected_event, stopped_event}"
  have "validateShape [0xc0] = Inr ()"
    by (simp add: validateShape_def scanValue.simps maxScanDepth_def)
  moreover have "validateEvent event = Inr ()"
    using event by (auto simp: validateEvent_def validateKind_def connected_event_def stopped_event_def zeroEvent_def)
  ultimately show ?thesis by (simp add: DecodeEventBatch_def unmarshal1_def)
qed

lemma pump_sub_fields: "pm_subs pump_sub = [(0, \<lparr>sb_closed = False, sb_events = []\<rparr>)]" "\<not> pm_done pump_sub" "\<not> pm_seenSeq pump_sub"
  "pm_result pump_sub = None"
  by (simp_all add: pump_sub_def Subscribe_def newPump_def deleteKey_def)

lemma poll1: "fst (pollLoop (unmarshal1 connected_event) [input1] False pump_sub)"
proof -
  have "handleInternalEvent (\<lambda>_. None) connected_event p = (None, p)" for p :: "(nat, nat) pump"
    by (simp add: handleInternalEvent_def connected_event_def)
  moreover have "ev_Kind connected_event \<noteq> EventRunnerStopped" by (simp add: connected_event_def)
  ultimately show ?thesis
    using pump_sub_fields decode1 [of connected_event]
    by (simp add: pollRound_def requestShutdown_def handleBatch_def input1_def dispatch_received)
qed

theorem poll_lossless_ordered_witness:
  "map_of (pm_subs (snd (pollLoop (unmarshal1 connected_event) [input1] False pump_sub))) 0 =
   Some \<lparr>sb_closed = False, sb_events = [connected_event]\<rparr>"
proof -
  have run: "pollLoop (unmarshal1 connected_event) [input1] False pump_sub =
      (True, snd (pollLoop (unmarshal1 connected_event) [input1] False pump_sub))"
    using poll1 by (metis prod.collapse)
  from poll_lossless_ordered [OF run pump_sub_fields(2), of 0] show ?thesis
    using decode1 [of connected_event] by (simp add: pump_sub_fields polled_def input1_def)
qed


section \<open>How the loop ends\<close>

definition gracefulStop :: "Event \<Rightarrow> bool" where
  "gracefulStop event \<longleftrightarrow> ev_Kind event = EventRunnerStopped \<and> (\<exists>report. ev_DrainReport event = Some report \<and> dr_Graceful report)"

lemma setResult_not_None [simp]: "pm_result (setResult p e) \<noteq> None"
  by (simp add: setResult_def)

lemma handleEvents_end:
  assumes "handleEvents submit events p = (False, p')" "\<not> pm_done p" "pm_result p' = None"
  shows "\<exists>event \<in> set events. gracefulStop event"
  using assms
proof (induction events arbitrary: p)
  case (Cons event events)
  obtain r q where h: "handleInternalEvent submit event p = (r, q)" by fastforce
  have d: "dispatch q event = (True, q\<lparr>pm_subs := map (received [event]) (pm_subs q)\<rparr>)"
    using dispatch_received handler_frame(2) [OF h] Cons.prems(2) by blast
  have r: "r = None" using Cons.prems(1,3) h by (cases r) auto
  show ?case
  proof (cases "ev_Kind event = EventRunnerStopped")
    case True
    with Cons.prems(1,3) h d r show ?thesis
      by (auto simp: stoppedResult_def gracefulStop_def split: option.splits if_splits)
  next
    case False
    with Cons.prems h d r handler_frame(2) [OF h] Cons.IH show ?thesis by auto
  qed
qed simp

lemma pollRound_end:
  assumes "pollRound unmarshal input sd p = (False, sd', p')" "\<not> pm_done p" "pm_result p' = None"
  shows "\<exists>event \<in> set (eb_Events (polled unmarshal input)). gracefulStop event"
proof -
  obtain sd1 q e where q: "requestShutdown input sd p = ((sd1, q), e)" by (metis prod.exhaust)
  obtain data batch where d: "pi_poll input = Inr data" "DecodeEventBatch unmarshal data = Inr batch"
    "handleBatch (pi_submit input) batch q = (False, p')"
    using assms(1,3) q setResult_not_None by (fastforce simp: pollRound_def split: option.splits sum.splits prod.splits)
  have "\<not> pm_done q" using requestShutdown_frame [OF q] assms(2) by (simp add: loop_fields_def)
  then have "\<exists>event \<in> set (eb_Events batch). gracefulStop event"
    using d(3) assms(3) handleEvents_end [of "pi_submit input" "eb_Events batch" _ p']
    by (auto simp: handleBatch_def split: if_splits)
  with d(1,2) show ?thesis by (simp add: polled_def)
qed

text \<open>C26: the loop returns without an error only after a \<open>RunnerStopped\<close> event with a graceful drain report. Every other end, by a failed
  poll, an undecodable or repeated batch, an event it cannot place, a worker's error or a drain that ran out of time, leaves its error as the
  result of \<open>Run\<close>.\<close>

theorem poll_clean_end:
  assumes "pollLoop unmarshal inputs shutdownRequested p = (False, p')" "\<not> pm_done p" "Run False True (pm_result p') = None"
  shows "\<exists>input \<in> set inputs. \<exists>event \<in> set (eb_Events (polled unmarshal input)). gracefulStop event"
proof -
  have "pm_result p' = None" using assms(3) by (simp add: Run_def)
  with assms(1,2) show ?thesis
  proof (induction inputs arbitrary: shutdownRequested p)
    case (Cons input inputs)
    obtain go sd q where r: "pollRound unmarshal input shutdownRequested p = (go, sd, q)" by (metis prod_cases3)
    show ?case
    proof (cases go)
      case True
      with Cons.prems r have "pollLoop unmarshal inputs sd q = (False, p')" "\<not> pm_done q"
        using pollRound_go by fastforce+
      with Cons.IH Cons.prems(3) show ?thesis by fastforce
    next
      case False
      with Cons.prems r pollRound_end show ?thesis by fastforce
    qed
  qed simp
qed

theorem poll_clean_end_witness:
  "gracefulStop stopped_event \<and> fst (pollLoop (unmarshal1 stopped_event) [input1] False pump_sub) = False \<and>
   (\<exists>event \<in> set (eb_Events (polled (unmarshal1 stopped_event) input1)). gracefulStop event)"
proof -
  have h: "handleInternalEvent (\<lambda>_. None) stopped_event p = (None, p)" for p :: "(nat, nat) pump"
    by (simp add: handleInternalEvent_def stopped_event_def)
  have k: "ev_Kind stopped_event = EventRunnerStopped" "stoppedResult stopped_event p = p" for p :: "(nat, nat) pump"
    by (simp_all add: stopped_event_def stoppedResult_def)
  have run: "pollLoop (unmarshal1 stopped_event) [input1] False pump_sub =
      (False, pump_sub\<lparr>pm_seenSeq := True, pm_lastSeq := 1, pm_subs := map (received [stopped_event]) (pm_subs pump_sub)\<rparr>)"
    using pump_sub_fields decode1 [of stopped_event] h k
    by (simp add: pollRound_def requestShutdown_def handleBatch_def input1_def dispatch_received)
  from poll_clean_end [OF run pump_sub_fields(2)] have "\<exists>event \<in> set (eb_Events (polled (unmarshal1 stopped_event) input1)). gracefulStop event"
    by (simp add: pump_sub_fields Run_def)
  with run show ?thesis by (simp add: gracefulStop_def stopped_event_def)
qed


section \<open>After the loop\<close>

lemma removeActor_fields:
  "pm_actors p i = Some w \<Longrightarrow> pm_actors (removeActor p i (wk_ref w)) = (pm_actors p)(i := None)"
  "loop_fields (removeActor p i ref) = loop_fields p"
  by (simp_all add: removeActor_def detachActorWebSockets_def Let_def loop_fields_def)

lemma exitWorkers_fields:
  "dom (pm_actors p) \<subseteq> set is \<Longrightarrow> pm_actors (exitWorkers p is) = Map.empty" "loop_fields (exitWorkers p is) = loop_fields p"
proof (induction p "is" rule: exitWorkers.induct)
  case (2 p i "is")
  { case 1
    show ?case
    proof (cases "pm_actors p i")
      case None
      with 1 have "dom (pm_actors p) \<subseteq> set is" by auto
      with "2.IH"(1) None show ?thesis by simp
    next
      case (Some w)
      with 1 have "dom (pm_actors (removeActor p i (wk_ref w))) \<subseteq> set is" by (auto simp: removeActor_fields)
      with "2.IH"(3) [OF Some] Some show ?thesis by simp
    qed
  next
    case 2
    show ?case using "2.IH"(2,4) by (simp add: removeActor_fields split: option.splits)
  }
qed auto

lemma cancelActorWorkers_fields:
  "dom (pm_actors (cancelActorWorkers p is)) = dom (pm_actors p)" "loop_fields (cancelActorWorkers p is) = loop_fields p"
proof (induction p "is" rule: cancelActorWorkers.induct)
  case (2 p i "is")
  { case 1
    show ?case using "2.IH"(1,3) by (auto simp: abortSession_def abortHTTPForActor_def Let_def split: option.splits if_splits)
  next
    case 2
    show ?case using "2.IH"(2,4) by (simp add: abortSession_def abortHTTPForActor_def Let_def loop_fields_def split: option.splits)
  }
qed simp_all



end
