(* ===== verification/Sqlite_Stream.thy ===== *)
theory Sqlite_Stream
  imports Session_Store
begin

text \<open>
  The hand-over of SQLite result chunks from the poller to a caller: the channel of 64 places that \<open>sqlite\<close> makes, the caller's
  select loop, and \<open>handleInternalEvent\<close>, which looks the channel up under the lock and sends on it after releasing the lock. The
  poller, the channel and the caller move independently. The caller's loop is the one of \<open>sqliteLoop\<close>, cut into its steps.
\<close>

definition resultCapacity :: nat where "resultCapacity = 64"

text \<open>\<open>st_sending\<close> is the event whose send is under way; \<open>st_known\<close> says whether the waiter table still has the channel.\<close>

record stream =
  st_todo :: "Event list"
  st_sending :: "Event option"
  st_channel :: "Event list"
  st_known :: bool
  st_taken :: "Event list"
  st_returned :: bool

inductive stream_step :: "stream \<Rightarrow> stream \<Rightarrow> bool" where
  lookup: "st_sending s = None \<Longrightarrow> st_todo s = event # events \<Longrightarrow> st_known s \<Longrightarrow>
    stream_step s (s\<lparr>st_todo := events, st_sending := Some event, st_known := \<not> ev_Done event\<rparr>)"
| dropped: "st_sending s = None \<Longrightarrow> st_todo s = event # events \<Longrightarrow> \<not> st_known s \<Longrightarrow> stream_step s (s\<lparr>st_todo := events\<rparr>)"
| send: "st_sending s = Some event \<Longrightarrow> length (st_channel s) < resultCapacity \<Longrightarrow>
    stream_step s (s\<lparr>st_sending := None, st_channel := st_channel s @ [event]\<rparr>)"
| receive: "\<not> st_returned s \<Longrightarrow> st_channel s = event # events \<Longrightarrow> \<not> ev_Done event \<Longrightarrow>
    stream_step s (s\<lparr>st_channel := events, st_taken := st_taken s @ [event]\<rparr>)"
| receive_last: "\<not> st_returned s \<Longrightarrow> st_channel s = event # events \<Longrightarrow> ev_Done event \<Longrightarrow>
    stream_step s (s\<lparr>st_channel := events, st_taken := st_taken s @ [event], st_returned := True, st_known := False\<rparr>)"
| give_up: "\<not> st_returned s \<Longrightarrow> stream_step s (s\<lparr>st_returned := True, st_known := False\<rparr>)"

inductive_cases stream_stepE: "stream_step s s'"

definition stream_init :: "Event list \<Rightarrow> stream" where
  "stream_init events =
     \<lparr>st_todo = events, st_sending = None, st_channel = [], st_known = True, st_taken = [], st_returned = False\<rparr>"

section \<open>While the caller stays\<close>

definition in_flight :: "stream \<Rightarrow> Event list" where
  "in_flight s = st_channel s @ (case st_sending s of None \<Rightarrow> [] | Some event \<Rightarrow> [event])"

text \<open>The chunks of one request: the last one, and no other, is marked done.\<close>

definition chunked :: "Event list \<Rightarrow> bool" where
  "chunked events \<longleftrightarrow> events \<noteq> [] \<and> ev_Done (last events) \<and> (\<forall>e \<in> set (butlast events). \<not> ev_Done e)"

definition stream_inv :: "Event list \<Rightarrow> stream \<Rightarrow> bool" where
  "stream_inv events s \<longleftrightarrow>
     length (st_channel s) \<le> resultCapacity \<and>
     (st_returned s \<or> st_taken s @ in_flight s @ st_todo s = events \<and> (st_todo s \<noteq> [] \<longrightarrow> st_known s)) \<and>
     (st_returned s \<longrightarrow> \<not> st_known s)"

lemma chunked_done:
  assumes "chunked (xs @ e # ys)" "ev_Done e"
  shows "ys = []"
proof (rule ccontr)
  assume "ys \<noteq> []"
  then have "e \<in> set (butlast (xs @ e # ys))" by (simp add: butlast_append)
  with assms show False by (auto simp: chunked_def)
qed

lemma stream_inv_step: "chunked events \<Longrightarrow> stream_step s s' \<Longrightarrow> stream_inv events s \<Longrightarrow> stream_inv events s'"
proof (erule stream_stepE)
  fix e es assume "chunked events" "stream_inv events s" "st_sending s = None" "st_todo s = e # es" "st_known s"
    "s' = s\<lparr>st_todo := es, st_sending := Some e, st_known := \<not> ev_Done e\<rparr>"
  moreover from this have "es = []" if "ev_Done e"
    using that chunked_done [of "st_taken s @ in_flight s" e es] by (auto simp: stream_inv_def)
  ultimately show "stream_inv events s'" by (auto simp: stream_inv_def in_flight_def)
qed (auto simp: stream_inv_def in_flight_def resultCapacity_def)

lemma stream_inv_reachable:
  assumes "chunked events" "stream_step\<^sup>*\<^sup>* (stream_init events) s"
  shows "stream_inv events s"
proof -
  have "kept_by_steps stream_step (stream_inv events)" by unfold_locales (rule stream_inv_step [OF assms(1)])
  from kept_by_steps.run_good [OF this assms(2)] show ?thesis by (simp add: stream_inv_def stream_init_def in_flight_def)
qed

text \<open>C38: as long as the caller stays in its loop, it takes the chunks of its request in order and without loss, the channel never holds
  more than its 64 places, and neither side can block the other: until the last chunk is taken, the poller or the caller can move.\<close>

theorem stream_flows:
  assumes "chunked events" "stream_step\<^sup>*\<^sup>* (stream_init events) s" "\<not> st_returned s"
  shows "st_taken s @ in_flight s @ st_todo s = events \<and> length (st_channel s) \<le> resultCapacity \<and>
    (st_taken s \<noteq> events \<longrightarrow> (\<exists>s'. stream_step s s' \<and> \<not> (st_returned s' \<and> st_taken s' = st_taken s)))"
proof -
  have inv: "stream_inv events s" by (rule stream_inv_reachable [OF assms(1,2)])
  have move: "\<exists>s'. stream_step s s' \<and> \<not> (st_returned s' \<and> st_taken s' = st_taken s)" if unfinished: "st_taken s \<noteq> events"
  proof (cases "st_channel s")
    case (Cons e es)
    then show ?thesis
      using stream_step.receive [OF assms(3) Cons] stream_step.receive_last [OF assms(3) Cons] by (cases "ev_Done e") fastforce+
  next
    case Nil
    show ?thesis
    proof (cases "st_sending s")
      case (Some e)
      with Nil assms(3) show ?thesis using stream_step.send [OF Some] by (fastforce simp: resultCapacity_def)
    next
      case None
      then obtain e es where "st_todo s = e # es" "st_known s"
        using inv unfinished Nil None assms(3) by (cases "st_todo s") (auto simp: stream_inv_def in_flight_def)
      with None assms(3) show ?thesis using stream_step.lookup [OF None] by fastforce
    qed
  qed
  with inv assms(3) show ?thesis by (simp add: stream_inv_def)
qed

definition chunk2 :: "Event list" where
  "chunk2 = [zeroEvent, zeroEvent\<lparr>ev_Done := True\<rparr>]"

lemma chunked2: "chunked chunk2"
  by (simp add: chunked_def chunk2_def zeroEvent_def)

theorem stream_flows_witness: "\<exists>s'. stream_step (stream_init chunk2) s' \<and> \<not> (st_returned s' \<and> st_taken s' = [])"
  using stream_flows [OF chunked2 rtranclp.rtrancl_refl] by (simp add: stream_init_def chunk2_def)


section \<open>When the caller leaves\<close>

lemma fill_channel:
  assumes "\<forall>e \<in> set xs. \<not> ev_Done e" "length ch + length xs \<le> resultCapacity"
  shows "stream_step\<^sup>*\<^sup>*
    \<lparr>st_todo = xs @ ys, st_sending = None, st_channel = ch, st_known = True, st_taken = [], st_returned = False\<rparr>
    \<lparr>st_todo = ys, st_sending = None, st_channel = ch @ xs, st_known = True, st_taken = [], st_returned = False\<rparr>"
  using assms
proof (induction xs arbitrary: ch)
  case (Cons x xs)
  let ?s = "\<lparr>st_todo = (x # xs) @ ys, st_sending = None, st_channel = ch, st_known = True, st_taken = [], st_returned = False\<rparr>"
  let ?t = "\<lparr>st_todo = xs @ ys, st_sending = Some x, st_channel = ch, st_known = True, st_taken = [], st_returned = False\<rparr>"
  let ?u = "\<lparr>st_todo = xs @ ys, st_sending = None, st_channel = ch @ [x], st_known = True, st_taken = [], st_returned = False\<rparr>"
  have "stream_step ?s ?t" using stream_step.lookup [of ?s x "xs @ ys"] Cons.prems(1) by simp
  moreover have "stream_step ?t ?u" using stream_step.send [of ?t x] Cons.prems(2) by simp
  moreover have "stream_step\<^sup>*\<^sup>* ?u \<lparr>st_todo = ys, st_sending = None, st_channel = ch @ (x # xs), st_known = True, st_taken = [], st_returned = False\<rparr>"
    using Cons.IH [of "ch @ [x]"] Cons.prems by simp
  ultimately show ?case by (meson converse_rtranclp_into_rtranclp)
qed simp

definition stuck :: "stream \<Rightarrow> bool" where
  "stuck s \<longleftrightarrow> st_returned s \<and> st_sending s \<noteq> None \<and> \<not> length (st_channel s) < resultCapacity"

lemma stuck_step: "stream_step s s' \<Longrightarrow> stuck s \<Longrightarrow> stuck s'"
  by (erule stream_stepE) (auto simp: stuck_def)

interpretation stuck_states: kept_by_steps stream_step stuck
  by unfold_locales (rule stuck_step)

text \<open>C32: a request with more than 64 chunks can stop the poller for good. When the channel is full, the poller is in its send of the next
  chunk and the caller leaves its loop (its context ends, or its session), nobody takes from the channel any more: the send never
  completes, whatever happens next.\<close>

theorem stream_poller_stuck:
  assumes "chunked events" "length events > resultCapacity"
  shows "\<exists>s. stream_step\<^sup>*\<^sup>* (stream_init events) s \<and> (\<forall>s'. stream_step\<^sup>*\<^sup>* s s' \<longrightarrow> st_sending s' \<noteq> None)"
proof -
  let ?xs = "take resultCapacity events"
  obtain e ys where ys: "drop resultCapacity events = e # ys" using assms(2) by (cases "drop resultCapacity events") auto
  have events: "events = ?xs @ e # ys" using ys by (metis append_take_drop_id)
  have "\<not> ev_Done x" if "x \<in> set ?xs" for x
    using assms(1) that events unfolding chunked_def by (metis butlast_append list.distinct(1) UnI1 set_append)
  then have fill: "stream_step\<^sup>*\<^sup>* (stream_init events)
      \<lparr>st_todo = e # ys, st_sending = None, st_channel = ?xs, st_known = True, st_taken = [], st_returned = False\<rparr>"
    using fill_channel [of ?xs "[]" "e # ys"] events by (simp add: stream_init_def)
  let ?s = "\<lparr>st_todo = ys, st_sending = Some e, st_channel = ?xs, st_known = \<not> ev_Done e, st_taken = [], st_returned = False\<rparr>"
  let ?t = "?s\<lparr>st_returned := True, st_known := False\<rparr>"
  have "stream_step \<lparr>st_todo = e # ys, st_sending = None, st_channel = ?xs, st_known = True, st_taken = [], st_returned = False\<rparr> ?s"
    using stream_step.lookup [of "\<lparr>st_todo = e # ys, st_sending = None, st_channel = ?xs, st_known = True, st_taken = [], st_returned = False\<rparr>" e ys]
    by simp
  moreover have "stream_step ?s ?t" using stream_step.give_up [of ?s] by simp
  ultimately have run: "stream_step\<^sup>*\<^sup>* (stream_init events) ?t" using fill by (meson rtranclp.rtrancl_into_rtrancl)
  have "stuck ?t" using assms(2) by (simp add: stuck_def)
  then have "st_sending s' \<noteq> None" if "stream_step\<^sup>*\<^sup>* ?t s'" for s' using stuck_states.run_good [OF that] by (simp add: stuck_def)
  with run show ?thesis by blast
qed

theorem stream_poller_stuck_witness:
  "\<exists>s. stream_step\<^sup>*\<^sup>* (stream_init (replicate 64 zeroEvent @ [zeroEvent\<lparr>ev_Done := True\<rparr>])) s \<and> st_sending s \<noteq> None"
proof -
  have "chunked (replicate 64 zeroEvent @ [zeroEvent\<lparr>ev_Done := True\<rparr>])"
    by (simp add: chunked_def butlast_append zeroEvent_def)
  from stream_poller_stuck [OF this] show ?thesis by (auto simp: resultCapacity_def)
qed

end
