(* ===== verification/Actor_Worker.thy ===== *)
theory Actor_Worker
  imports Pump_Routing
begin

text \<open>
  The worker goroutine of an actor in \<^verbatim>\<open>internal/pump/pump.go\<close>: the \<open>invoke\<close> functions that call a handler and turn its errors and
  panics into wire errors, and \<open>actorWorker.run\<close>. A handler is user code: a record of functions, with the optional interfaces as
  options, whose results may be a value, an error or a panic. What a worker does is a list of effects in order; the answers of
  \<open>submitInternal\<close> and of \<open>failHTTP\<close> are functions of the command. The functions \<open>quote\<close> stand for the verb \<open>%q\<close> of package
  \<^verbatim>\<open>fmt\<close>.
\<close>

section \<open>Handlers\<close>

text \<open>An error as \<open>errors.As\<close> and \<open>errors.Is\<close> see it: the \<open>HandlerError\<close> it holds, whether it is a cancellation or a shutdown, its text.\<close>

record user_error =
  ue_handlerError :: "(string \<times> string) option"
  ue_canceled :: bool
  ue_shuttingDown :: bool
  ue_text :: string

datatype 'a outcome = Panicked string | Failed user_error | Returned 'a

record ActionResult =
  ar_Output :: "bytes option"
  ar_ConnectionState :: "bytes option"

record 's connectionHandler =
  ch_Preflight :: "Event \<Rightarrow> 's \<Rightarrow> bytes option outcome"
  ch_Open :: "Event \<Rightarrow> 's \<Rightarrow> bytes option outcome"
  ch_Close :: "Event \<Rightarrow> 's \<Rightarrow> bytes option outcome"
  ch_State :: "string \<Rightarrow> 's \<Rightarrow> (bytes option \<times> bool) outcome"

record 's webSocketHandler =
  wh_Open :: "Event \<Rightarrow> 's \<Rightarrow> unit outcome"
  wh_Message :: "Event \<Rightarrow> 's \<Rightarrow> unit outcome"
  wh_Close :: "Event \<Rightarrow> 's \<Rightarrow> unit outcome"

record 's actorHandler =
  ah_Start :: "Event \<Rightarrow> 's outcome"
  ah_Stop :: "Event \<Rightarrow> 's \<Rightarrow> unit outcome"
  ah_Action :: "(Event \<Rightarrow> 's \<Rightarrow> ActionResult outcome) option"
  ah_RunEnabled :: bool
  ah_Run :: "('s \<Rightarrow> unit outcome) option"
  ah_Connection :: "'s connectionHandler option"
  ah_Alarm :: "(Event \<Rightarrow> 's \<Rightarrow> unit outcome) option"
  ah_Fetch :: "(Event \<Rightarrow> 's \<Rightarrow> unit outcome) option"
  ah_WebSocket :: "'s webSocketHandler option"

definition wireError :: "string \<Rightarrow> string \<Rightarrow> WireError" where
  "wireError code message = \<lparr>we_Code = code, we_Message = message, we_SQLiteCode = None, we_StatementIndex = None\<rparr>"

definition handlerWireError :: "string \<Rightarrow> user_error \<Rightarrow> WireError" where
  "handlerWireError operation err =
     (case ue_handlerError err of
        Some (code, message) \<Rightarrow> wireError code message
      | None \<Rightarrow> wireError ''handler_error'' (operation @ '' failed: '' @ ue_text err))"

definition panicError :: "string \<Rightarrow> string \<Rightarrow> WireError" where
  "panicError what recovered = wireError ''handler_panic'' (what @ '' panicked: '' @ recovered)"

text \<open>The common shape of the \<open>invoke\<close> functions: recover, then translate the error.\<close>

definition recovering :: "string \<Rightarrow> string \<Rightarrow> 'a outcome \<Rightarrow> WireError + 'a" where
  "recovering what operation result =
     (case result of
        Panicked recovered \<Rightarrow> Inl (panicError what recovered)
      | Failed err \<Rightarrow> Inl (handlerWireError operation err)
      | Returned a \<Rightarrow> Inr a)"

definition invokeStart :: "(string \<Rightarrow> string) \<Rightarrow> 's actorHandler option \<Rightarrow> Event \<Rightarrow> WireError + 's" where
  "invokeStart quote handler event =
     (case handler of
        None \<Rightarrow> Inl (wireError ''actor_not_registered'' (''actor type '' @ quote (ev_Name event) @ '' is not registered''))
      | Some h \<Rightarrow> recovering ''OnStart'' ''OnStart'' (ah_Start h event))"

definition invokeStop :: "'s actorHandler option \<Rightarrow> Event \<Rightarrow> 's \<Rightarrow> WireError + unit" where
  "invokeStop handler event state =
     (case handler of
        None \<Rightarrow> Inl (wireError ''actor_not_registered'' (''actor handler is unavailable during stop''))
      | Some h \<Rightarrow> recovering ''OnStop'' ''OnStop'' (ah_Stop h event state))"

definition invokeAlarm :: "'s actorHandler \<Rightarrow> Event \<Rightarrow> 's \<Rightarrow> WireError + unit" where
  "invokeAlarm handler event state =
     (case ah_Alarm handler of
        None \<Rightarrow> Inl (wireError ''callback_not_found'' (''actor has no OnAlarm handler''))
      | Some alarm \<Rightarrow> recovering ''OnAlarm'' ''OnAlarm'' (alarm event state))"

definition invokeAction :: "(string \<Rightarrow> string) \<Rightarrow> 's actorHandler \<Rightarrow> Event \<Rightarrow> 's \<Rightarrow> WireError + ActionResult" where
  "invokeAction quote handler event state =
     (case ah_Action handler of
        None \<Rightarrow> Inl (wireError ''action_not_found'' (''action '' @ quote (ev_Action event) @ '' is not registered''))
      | Some action \<Rightarrow>
          recovering (''action '' @ quote (ev_Action event)) (''action '' @ ev_Action event) (action event state))"

definition invokeRun :: "'s actorHandler \<Rightarrow> 's \<Rightarrow> WireError option" where
  "invokeRun handler state =
     (case ah_Run handler of
        None \<Rightarrow> None
      | Some run \<Rightarrow>
          (case run state of
             Failed err \<Rightarrow> if ue_canceled err \<or> ue_shuttingDown err then None else Some (handlerWireError ''Run'' err)
           | Panicked recovered \<Rightarrow> Some (panicError ''Run'' recovered)
           | Returned _ \<Rightarrow> None))"

definition invokeConnectionLifecycle :: "'s actorHandler \<Rightarrow> Event \<Rightarrow> 's \<Rightarrow> WireError + bytes option" where
  "invokeConnectionLifecycle handler event state =
     (let kind = eventKindString (ev_Kind event) in
      case ah_Connection handler of
        None \<Rightarrow> Inr (Some [])
      | Some h \<Rightarrow>
          (case ev_Kind event of
             EventConnectionPreflight \<Rightarrow> recovering kind kind (ch_Preflight h event state)
           | EventConnectionOpen \<Rightarrow> recovering kind kind (ch_Open h event state)
           | EventConnectionClose \<Rightarrow> recovering kind kind (ch_Close h event state)
           | _ \<Rightarrow> Inl (wireError ''handler_error'' (''unknown connection lifecycle event''))))"

definition invokeConnectionState :: "'s actorHandler \<Rightarrow> string \<Rightarrow> 's \<Rightarrow> WireError + (bytes option \<times> bool)" where
  "invokeConnectionState handler connectionID state =
     (case ah_Connection handler of
        None \<Rightarrow> Inr (None, False)
      | Some h \<Rightarrow> recovering ''encode connection state'' ''encode connection state'' (ch_State h connectionID state))"

definition byteSlicePointer :: "bytes option \<Rightarrow> bytes option" where
  "byteSlicePointer data = Some (the_bytes data)"

definition invokeFetch :: "'s actorHandler \<Rightarrow> Event \<Rightarrow> 's \<Rightarrow> WireError + unit" where
  "invokeFetch handler event state =
     (case ah_Fetch handler of
        None \<Rightarrow> Inl (wireError ''handler_error'' (''actor has no OnFetch handler''))
      | Some fetch \<Rightarrow> recovering ''OnFetch'' ''OnFetch'' (fetch event state))"

definition invokeWebSocketOpen :: "'s actorHandler \<Rightarrow> Event \<Rightarrow> 's \<Rightarrow> WireError + unit" where
  "invokeWebSocketOpen handler event state =
     (case ah_WebSocket handler of
        None \<Rightarrow> Inl (wireError ''callback_not_found'' (''actor has no OnConnect handler''))
      | Some h \<Rightarrow> recovering ''OnConnect'' ''OnConnect'' (wh_Open h event state))"

definition invokeWebSocketMessage :: "'s actorHandler \<Rightarrow> Event \<Rightarrow> 's \<Rightarrow> WireError + unit" where
  "invokeWebSocketMessage handler event state =
     (case ah_WebSocket handler of
        None \<Rightarrow> Inl (wireError ''callback_not_found'' (''actor has no OnMessage handler''))
      | Some h \<Rightarrow> recovering ''OnMessage'' ''OnMessage'' (wh_Message h event state))"

definition invokeWebSocketClose :: "'s actorHandler \<Rightarrow> Event \<Rightarrow> 's \<Rightarrow> WireError + unit" where
  "invokeWebSocketClose handler event state =
     (case ah_WebSocket handler of
        None \<Rightarrow> Inr ()
      | Some h \<Rightarrow> recovering ''OnDisconnect'' ''OnDisconnect'' (wh_Close h event state))"


section \<open>The worker\<close>

datatype worker_effect =
    Submitted Command
  | FailedHTTP Command
  | FinishedHTTP u64
  | RemovedSocket string
  | CloseGracefully
  | CancelRun
  | StartRun
  | CloseWebSockets string
  | ReportSubmit string submit_error
  | ReportHTTP go_error
  | ReportUnexpected EventKind

record worker_env =
  wv_quote :: "string \<Rightarrow> string"
  wv_submit :: "Command \<Rightarrow> submit_error option"
  wv_failHTTP :: "Command \<Rightarrow> go_error option"
  wv_canHibernate :: "string \<Rightarrow> bool"
  wv_runStops :: bool

definition leftError :: "WireError + 'a \<Rightarrow> WireError option" where
  "leftError r = (case r of Inl e \<Rightarrow> Some e | Inr _ \<Rightarrow> None)"

definition isPanic :: "WireError option \<Rightarrow> bool" where
  "isPanic e = (case e of Some w \<Rightarrow> we_Code w = ''handler_panic'' | None \<Rightarrow> False)"

text \<open>A submission whose failure is reported and ends the worker; otherwise \<open>next\<close> says whether it goes on, and with what.\<close>

definition submitOrReport :: "worker_env \<Rightarrow> string \<Rightarrow> Command \<Rightarrow> bool \<times> worker_effect list \<Rightarrow> bool \<times> worker_effect list" where
  "submitOrReport env what command rest =
     (case wv_submit env command of
        Some e \<Rightarrow> (False, [Submitted command, ReportSubmit what e])
      | None \<Rightarrow> (fst rest, Submitted command # snd rest))"

definition requestErrorStop :: "worker_env \<Rightarrow> ActorSession \<Rightarrow> worker_effect list" where
  "requestErrorStop env s =
     (let command = zeroCommand\<lparr>cmd_Kind := CommandStopIntent, cmd_AID := ai_aid (ss_identity s)\<rparr> in
      Submitted command # (case wv_submit env command of Some e \<Rightarrow> [ReportSubmit ''submit WebSocket panic StopIntent'' e] | None \<Rightarrow> []))"

definition stopIfPanic :: "worker_env \<Rightarrow> ActorSession \<Rightarrow> WireError option \<Rightarrow> bool \<times> worker_effect list" where
  "stopIfPanic env s e = (True, if isPanic e then requestErrorStop env s else [])"

text \<open>The result of an action call: exactly what the run loop submits for it.\<close>

definition actionCommand :: "worker_env \<Rightarrow> 's actorHandler \<Rightarrow> Event \<Rightarrow> 's \<Rightarrow> Command" where
  "actionCommand env handler event state =
     (let result = invokeAction (wv_quote env) handler event state;
          output = (case result of Inr r \<Rightarrow> (case ar_Output r of None \<Rightarrow> Some [] | Some data \<Rightarrow> Some data) | Inl _ \<Rightarrow> None);
          connectionState = (case result of Inr r \<Rightarrow> ar_ConnectionState r | Inl _ \<Rightarrow> None);
          command = zeroCommand\<lparr>cmd_Kind := CommandActionResult, cmd_CallID := ev_CallID event\<rparr>
      in case (result, connectionState, ev_ConnID event, ah_Connection handler) of
           (Inr _, None, Some connID, Some _) \<Rightarrow>
             (case invokeConnectionState handler connID state of
                Inl e \<Rightarrow> command\<lparr>cmd_Error := Some e\<rparr>
              | Inr (encoded, tracked) \<Rightarrow>
                  command\<lparr>cmd_Output := output, cmd_ConnectionState := if tracked then byteSlicePointer encoded else None\<rparr>)
         | _ \<Rightarrow> command\<lparr>cmd_Output := output, cmd_ConnectionState := connectionState, cmd_Error := leftError result\<rparr>)"

definition connectionEvent :: "worker_env \<Rightarrow> ActorSession \<Rightarrow> 's actorHandler \<Rightarrow> 's \<Rightarrow> Event \<Rightarrow> bool \<times> worker_effect list" where
  "connectionEvent env s handler state event =
     (let result = invokeConnectionLifecycle handler event state in
      submitOrReport env ''submit ConnectionResult''
        (zeroCommand\<lparr>cmd_Kind := CommandConnectionResult, cmd_OperationID := ev_OperationID event, cmd_Error := leftError result,
           cmd_ConnectionState := (case result of Inr data \<Rightarrow> byteSlicePointer data | Inl _ \<Rightarrow> None)\<rparr>)
        (stopIfPanic env s (leftError result)))"

definition stopCommand :: "ActorSession \<Rightarrow> WireError option \<Rightarrow> Command" where
  "stopCommand s e =
     zeroCommand\<lparr>cmd_Kind := CommandActorStopResult, cmd_AID := ai_aid (ss_identity s), cmd_Generation := ai_generation (ss_identity s), cmd_Error := e\<rparr>"

definition runStopTimeout :: WireError where
  "runStopTimeout = wireError ''run_shutdown_timeout'' (''Run did not stop within 8s'')"

text \<open>One event of the mailbox: whether the worker goes on, and its effects. \<open>hasRun\<close>: the actor has a \<open>Run\<close> goroutine.\<close>

definition run_event :: "worker_env \<Rightarrow> ActorSession \<Rightarrow> 's actorHandler \<Rightarrow> bool \<Rightarrow> 's \<Rightarrow> Event \<Rightarrow> bool \<times> worker_effect list" where
  "run_event env s handler hasRun state event =
     (case ev_Kind event of
        EventActionCall \<Rightarrow>
          let command = actionCommand env handler event state in
          submitOrReport env ''submit ActionResult'' command (\<not> isPanic (cmd_Error command), [])
      | EventConnectionPreflight \<Rightarrow> connectionEvent env s handler state event
      | EventConnectionOpen \<Rightarrow> connectionEvent env s handler state event
      | EventConnectionClose \<Rightarrow> connectionEvent env s handler state event
      | EventActorAlarm \<Rightarrow>
          let e = leftError (invokeAlarm handler event state) in
          submitOrReport env ''submit AlarmHandled''
            (zeroCommand\<lparr>cmd_Kind := CommandAlarmHandled, cmd_AID := ai_aid (ss_identity s), cmd_Generation := ai_generation (ss_identity s),
               cmd_Error := e\<rparr>) (stopIfPanic env s e)
      | EventHTTPRequest \<Rightarrow>
          (case leftError (invokeFetch handler event state) of
             None \<Rightarrow> (True, [FinishedHTTP (ev_RequestID event)])
           | Some e \<Rightarrow>
               let command = failHTTP id (ev_RequestID event) (Some e) in
               (case wv_failHTTP env command of
                  Some err \<Rightarrow> (False, [FailedHTTP command, ReportHTTP err])
                | None \<Rightarrow> (\<not> isPanic (Some e), [FailedHTTP command, FinishedHTTP (ev_RequestID event)])))
      | EventWSOpen \<Rightarrow>
          let e = leftError (invokeWebSocketOpen handler event state) in
          submitOrReport env ''submit WsOpenResult''
            (zeroCommand\<lparr>cmd_Kind := CommandWSOpenResult, cmd_WSID := ev_WSID event, cmd_Accept := (e = None), cmd_Error := e\<rparr>)
            (True, (if e \<noteq> None then [RemovedSocket (ev_WSID event)] else []) @ snd (stopIfPanic env s e))
      | EventWSMessage \<Rightarrow>
          let needsAcknowledgement = wv_canHibernate env (ev_WSID event);
              e = leftError (invokeWebSocketMessage handler event state) in
          if needsAcknowledgement then
            submitOrReport env ''submit WsMessageAck''
              (zeroCommand\<lparr>cmd_Kind := CommandWSMessageAck, cmd_WSID := ev_WSID event, cmd_MessageIndex := ev_MessageIndex event\<rparr>)
              (stopIfPanic env s e)
          else stopIfPanic env s e
      | EventWSClose \<Rightarrow> stopIfPanic env s (leftError (invokeWebSocketClose handler event state))
      | EventActorStop \<Rightarrow>
          let e = (if hasRun \<and> \<not> wv_runStops env then Some runStopTimeout else leftError (invokeStop (Some handler) event state)) in
          (False, (if hasRun then [CancelRun] else []) @ [CloseGracefully] @ snd (submitOrReport env ''submit ActorStopResult'' (stopCommand s e) (False, [])))
      | kind \<Rightarrow> (False, [ReportUnexpected kind]))"

fun run_events :: "worker_env \<Rightarrow> ActorSession \<Rightarrow> 's actorHandler \<Rightarrow> bool \<Rightarrow> 's \<Rightarrow> Event list \<Rightarrow> bool \<times> worker_effect list" where
  "run_events env s handler hasRun state [] = (True, [])"
| "run_events env s handler hasRun state (event # events) =
     (case run_event env s handler hasRun state event of
        (False, effects) \<Rightarrow> (False, effects)
      | (True, effects) \<Rightarrow> apsnd (append effects) (run_events env s handler hasRun state events))"

definition startCommand :: "ActorSession \<Rightarrow> WireError option \<Rightarrow> bool \<Rightarrow> Command" where
  "startCommand s e hasRun =
     zeroCommand\<lparr>cmd_Kind := CommandActorStartResult, cmd_AID := ai_aid (ss_identity s), cmd_Generation := ai_generation (ss_identity s),
       cmd_OK := (e = None), cmd_Run := (e = None \<and> hasRun), cmd_Error := e\<rparr>"

text \<open>\<open>run\<close> on the events its mailbox delivers; the deferred close of the handler's WebSockets takes the reason of the stop.\<close>

definition stopReason :: "Event list \<Rightarrow> string" where
  "stopReason events = (case filter (\<lambda>e. ev_Kind e = EventActorStop) events of [] \<Rightarrow> ''actor worker stopped'' | e # _ \<Rightarrow> ev_Reason e)"

definition worker_run :: "worker_env \<Rightarrow> ActorSession \<Rightarrow> 's actorHandler option \<Rightarrow> Event \<Rightarrow> Event list \<Rightarrow> bool \<times> worker_effect list" where
  "worker_run env s handler start events =
     (let started = invokeStart (wv_quote env) handler start;
          hasRun = (case handler of Some h \<Rightarrow> ah_Run h \<noteq> None \<and> ah_RunEnabled h | None \<Rightarrow> False)
      in submitOrReport env ''submit ActorStartResult'' (startCommand s (leftError started) hasRun)
           (case (started, handler) of
              (Inr state, Some h) \<Rightarrow>
                (case run_events env s h hasRun state events of
                   (go, effects) \<Rightarrow>
                     (go, (if hasRun then [StartRun] else []) @ effects @
                          (if \<not> go \<and> ah_WebSocket h \<noteq> None then [CloseWebSockets (stopReason events)] else [])))
            | _ \<Rightarrow> (False, [])))"

text \<open>The goroutine of \<open>Run\<close>: what it submits, and whether the failure of the submission is reported.\<close>

definition runResultCommand :: "ActorSession \<Rightarrow> 's actorHandler \<Rightarrow> 's \<Rightarrow> Command" where
  "runResultCommand s handler state =
     zeroCommand\<lparr>cmd_Kind := CommandActorRunResult, cmd_AID := ai_aid (ss_identity s), cmd_Generation := ai_generation (ss_identity s),
       cmd_Error := invokeRun handler state\<rparr>"

definition run_goroutine :: "worker_env \<Rightarrow> ActorSession \<Rightarrow> 's actorHandler \<Rightarrow> 's \<Rightarrow> worker_effect list" where
  "run_goroutine env s handler state =
     (let command = runResultCommand s handler state in
      Submitted command #
      (case wv_submit env command of
         Some e \<Rightarrow> if e = SubmitContext CtxCanceled \<or> e = SubmitShuttingDown then [] else [ReportSubmit ''submit ActorRunResult'' e]
       | None \<Rightarrow> []))"


section \<open>Every event is answered\<close>

text \<open>The commands a list of effects submits, without the stop intents after a panic.\<close>

definition answers :: "worker_effect list \<Rightarrow> Command list" where
  "answers effects =
     concat (map (\<lambda>x. case x of Submitted c \<Rightarrow> if cmd_Kind c = CommandStopIntent then [] else [c] | FailedHTTP c \<Rightarrow> [c] | _ \<Rightarrow> []) effects)"

definition reports :: "worker_effect list \<Rightarrow> worker_effect list" where
  "reports effects =
     filter (\<lambda>x. case x of ReportSubmit _ _ \<Rightarrow> True | ReportHTTP _ \<Rightarrow> True | ReportUnexpected _ \<Rightarrow> True | _ \<Rightarrow> False) effects"

lemma answers_simps [simp]:
  "answers [] = []" "answers (xs @ ys) = answers xs @ answers ys"
  "answers (Submitted c # xs) = (if cmd_Kind c = CommandStopIntent then [] else [c]) @ answers xs"
  "answers (FailedHTTP c # xs) = c # answers xs" "answers (FinishedHTTP i # xs) = answers xs" "answers (RemovedSocket w # xs) = answers xs"
  "answers (CloseGracefully # xs) = answers xs" "answers (CancelRun # xs) = answers xs" "answers (ReportSubmit w e # xs) = answers xs"
  "answers (ReportHTTP g # xs) = answers xs" "answers (ReportUnexpected k # xs) = answers xs"
  by (simp_all add: answers_def)

lemma reports_simps [simp]:
  "reports [] = []" "reports (xs @ ys) = reports xs @ reports ys" "reports (Submitted c # xs) = reports xs"
  "reports (FailedHTTP c # xs) = reports xs" "reports (FinishedHTTP i # xs) = reports xs" "reports (RemovedSocket w # xs) = reports xs"
  "reports (CloseGracefully # xs) = reports xs" "reports (CancelRun # xs) = reports xs" "reports (ReportSubmit w e # xs) = ReportSubmit w e # reports xs"
  "reports (ReportHTTP g # xs) = ReportHTTP g # reports xs" "reports (ReportUnexpected k # xs) = ReportUnexpected k # reports xs"
  by (simp_all add: reports_def)

lemma stopIfPanic_simps [simp]: "fst (stopIfPanic env s e)" "answers (snd (stopIfPanic env s e)) = []"
  by (simp_all add: stopIfPanic_def requestErrorStop_def Let_def split: option.splits)

lemma submitOrReport_answers:
  assumes "answers (snd rest) = []" "cmd_Kind command \<noteq> CommandStopIntent"
  shows "answers (snd (submitOrReport env what command rest)) = [command]"
  using assms by (simp add: submitOrReport_def split: option.splits)

definition worker_kinds :: "EventKind set" where
  "worker_kinds =
     {EventActionCall, EventConnectionPreflight, EventConnectionOpen, EventConnectionClose, EventActorAlarm, EventHTTPRequest, EventWSOpen,
      EventWSMessage, EventWSClose, EventActorStop}"

text \<open>What the runner expects of the answer to an event.\<close>

definition answer_ok :: "ActorSession \<Rightarrow> Event \<Rightarrow> Command \<Rightarrow> bool" where
  "answer_ok s event c \<longleftrightarrow>
     (case ev_Kind event of
        EventActionCall \<Rightarrow>
          cmd_Kind c = CommandActionResult \<and> cmd_CallID c = ev_CallID event \<and> (cmd_Output c = None) \<noteq> (cmd_Error c = None) \<and>
          (cmd_Error c \<noteq> None \<longrightarrow> cmd_ConnectionState c = None)
      | EventActorAlarm \<Rightarrow>
          cmd_Kind c = CommandAlarmHandled \<and> cmd_AID c = ai_aid (ss_identity s) \<and> cmd_Generation c = ai_generation (ss_identity s)
      | EventHTTPRequest \<Rightarrow>
          cmd_Kind c = CommandHTTPResponseStart \<and> cmd_RequestID c = ev_RequestID event \<and> cmd_Error c \<noteq> None
      | EventWSOpen \<Rightarrow> cmd_Kind c = CommandWSOpenResult \<and> cmd_WSID c = ev_WSID event \<and> (cmd_Accept c \<longleftrightarrow> cmd_Error c = None)
      | EventWSMessage \<Rightarrow> cmd_Kind c = CommandWSMessageAck \<and> cmd_WSID c = ev_WSID event \<and> cmd_MessageIndex c = ev_MessageIndex event
      | EventActorStop \<Rightarrow>
          cmd_Kind c = CommandActorStopResult \<and> cmd_AID c = ai_aid (ss_identity s) \<and> cmd_Generation c = ai_generation (ss_identity s)
      | EventWSClose \<Rightarrow> False
      | _ \<Rightarrow> cmd_Kind c = CommandConnectionResult \<and> cmd_OperationID c = ev_OperationID event \<and>
             (cmd_ConnectionState c = None) \<noteq> (cmd_Error c = None))"

lemma zeroCommand_fields [simp]:
  "cmd_Output zeroCommand = None" "cmd_Error zeroCommand = None" "cmd_ConnectionState zeroCommand = None"
  by (simp_all add: zeroCommand_def)

lemma actionCommand_ok: "ev_Kind event = EventActionCall \<Longrightarrow> answer_ok s event (actionCommand env handler event state)"
  by (auto simp: answer_ok_def actionCommand_def leftError_def Let_def split: sum.splits option.splits prod.splits)

text \<open>How many answers an event has: every event has one, but for a close, a request whose handler succeeded and answered itself, and a
  message on a WebSocket that cannot hibernate.\<close>

definition answered :: "worker_env \<Rightarrow> 's actorHandler \<Rightarrow> 's \<Rightarrow> Event \<Rightarrow> bool" where
  "answered env handler state event \<longleftrightarrow>
     ev_Kind event \<noteq> EventWSClose \<and>
     (ev_Kind event = EventHTTPRequest \<longrightarrow> isl (invokeFetch handler event state)) \<and>
     (ev_Kind event = EventWSMessage \<longrightarrow> wv_canHibernate env (ev_WSID event))"

lemma run_event_answers:
  assumes "ev_Kind event \<in> worker_kinds"
  shows "if answered env handler state event
    then \<exists>c. answers (snd (run_event env s handler hasRun state event)) = [c] \<and> answer_ok s event c
    else answers (snd (run_event env s handler hasRun state event)) = []"
proof -
  have action: "cmd_Kind (actionCommand env handler event state) = CommandActionResult"
    by (simp add: actionCommand_def Let_def split: sum.splits option.splits prod.splits)
  have "ev_Kind event = EventActionCall \<or> ev_Kind event = EventHTTPRequest \<or> ev_Kind event = EventWSMessage \<or> ev_Kind event = EventWSClose \<or>
      ev_Kind event \<in> {EventConnectionPreflight, EventConnectionOpen, EventConnectionClose, EventActorAlarm, EventWSOpen, EventActorStop}"
    using assms by (auto simp: worker_kinds_def)
  then show ?thesis
  proof (elim disjE)
    assume "ev_Kind event = EventActionCall"
    with actionCommand_ok [OF this] action show ?thesis
      by (simp add: run_event_def answered_def submitOrReport_answers Let_def)
  next
    assume "ev_Kind event = EventHTTPRequest"
    then show ?thesis
      by (cases "invokeFetch handler event state")
        (auto simp: run_event_def answered_def answer_ok_def leftError_def failHTTP_def Let_def split: option.splits)
  next
    assume "ev_Kind event = EventWSMessage"
    then show ?thesis by (auto simp: run_event_def answered_def answer_ok_def submitOrReport_answers Let_def)
  next
    assume "ev_Kind event = EventWSClose"
    then show ?thesis by (simp add: run_event_def answered_def)
  next
    assume "ev_Kind event \<in> {EventConnectionPreflight, EventConnectionOpen, EventConnectionClose, EventActorAlarm, EventWSOpen, EventActorStop}"
    then show ?thesis
      by (auto simp: run_event_def connectionEvent_def answered_def answer_ok_def submitOrReport_answers leftError_def byteSlicePointer_def
          stopCommand_def Let_def split: sum.splits)
  qed
qed


text \<open>A handler that panics in every call.\<close>

definition panicking :: "nat actorHandler" where
  "panicking =
     \<lparr>ah_Start = (\<lambda>_. Returned 0), ah_Stop = (\<lambda>_ _. Panicked ''x''), ah_Action = Some (\<lambda>_ _. Panicked ''x''), ah_RunEnabled = True,
      ah_Run = Some (\<lambda>_. Panicked ''x''), ah_Connection = None, ah_Alarm = None, ah_Fetch = Some (\<lambda>_ _. Panicked ''x''), ah_WebSocket = None\<rparr>"

definition env1 :: worker_env where
  "env1 = \<lparr>wv_quote = id, wv_submit = (\<lambda>_. None), wv_failHTTP = (\<lambda>_. None), wv_canHibernate = (\<lambda>_. False), wv_runStops = True\<rparr>"

definition action_event :: Event where
  "action_event = zeroEvent\<lparr>ev_Kind := EventActionCall, ev_CallID := 5, ev_Action := ''f''\<rparr>"



section \<open>What reaches the pump as an error\<close>

lemma stopIfPanic_reports: "\<forall>c. wv_submit env c = None \<Longrightarrow> reports (snd (stopIfPanic env s e)) = []"
  by (simp add: stopIfPanic_def requestErrorStop_def Let_def)

lemma submitOrReport_reports: "\<forall>c. wv_submit env c = None \<Longrightarrow> snd (submitOrReport env what command rest) = Submitted command # snd rest"
  by (simp add: submitOrReport_def)

lemma run_event_reports:
  assumes "\<forall>c. wv_submit env c = None" "\<forall>c. wv_failHTTP env c = None" "ev_Kind event \<in> worker_kinds"
  shows "reports (snd (run_event env s handler hasRun state event)) = []"
  using assms(3) unfolding worker_kinds_def
  by (elim insertE)
    (simp_all add: assms(2) run_event_def connectionEvent_def Let_def stopIfPanic_reports [OF assms(1)] submitOrReport_reports [OF assms(1)]
      split: option.splits)

lemma run_events_reports:
  assumes "\<forall>c. wv_submit env c = None" "\<forall>c. wv_failHTTP env c = None" "\<forall>e \<in> set events. ev_Kind e \<in> worker_kinds"
  shows "reports (snd (run_events env s handler hasRun state events)) = []"
  using assms(3)
proof (induction events)
  case (Cons e events)
  then have "reports (snd (run_event env s handler hasRun state e)) = []" by (simp add: run_event_reports [OF assms(1,2)])
  with Cons show ?case by (auto split: prod.splits bool.splits)
qed simp

text \<open>C14: nothing a handler does ends the shared pump. As long as the runner takes the worker's commands, a worker reports no error to the
  pump, whatever its handler returns or panics with at start, in any event, in \<open>Run\<close> or at stop, and also when no handler is
  registered for its actor.\<close>

theorem worker_contains_failures:
  assumes "\<forall>c. wv_submit env c = None" "\<forall>c. wv_failHTTP env c = None" "\<forall>e \<in> set events. ev_Kind e \<in> worker_kinds"
  shows "reports (snd (worker_run env s handler start events)) = [] \<and> reports (run_goroutine env s h state) = []"
proof -
  have events: "reports effects = []" if "run_events env s handler hasRun state events = (go, effects)" for handler hasRun state go effects
    using run_events_reports [OF assms, of s handler hasRun state] that by simp
  have rest: "reports (StartRun # xs) = reports xs" "reports (CloseWebSockets r # xs) = reports xs" for r xs by (simp_all add: reports_def)
  show ?thesis using assms(1)
    by (auto simp: worker_run_def run_goroutine_def submitOrReport_reports Let_def rest dest: events split: sum.splits option.splits prod.splits)
qed

theorem worker_contains_failures_witness:
  "reports (snd (worker_run env1 session0 (Some panicking) zeroEvent [action_event])) = []"
  using worker_contains_failures [of env1 "[action_event]" session0 "Some panicking" zeroEvent panicking 0]
  by (simp add: env1_def action_event_def worker_kinds_def)


section \<open>What a mailbox holds\<close>

definition mailbox_ok :: "('h, 'u) pump \<Rightarrow> bool" where
  "mailbox_ok p \<longleftrightarrow> (\<forall>w \<in> ran (pm_actors p). \<forall>e \<in> set (mb_queue (wk_mailbox w)). ev_Kind e \<in> worker_kinds)"

lemma mailbox_okD: "mailbox_ok p \<Longrightarrow> pm_actors p i = Some w \<Longrightarrow> e \<in> set (mb_queue (wk_mailbox w)) \<Longrightarrow> ev_Kind e \<in> worker_kinds"
  by (auto simp: mailbox_ok_def ran_def)

lemma mailbox_ok_update:
  assumes "mailbox_ok p" "\<And>e. e \<in> set (mb_queue (wk_mailbox w)) \<Longrightarrow> ev_Kind e \<in> worker_kinds"
  shows "mailbox_ok (p\<lparr>pm_actors := (pm_actors p)(i \<mapsto> w)\<rparr>)" "mailbox_ok (setWorker p w)"
  using assms by (auto simp: mailbox_ok_def ran_def setWorker_def split: if_splits)

lemma mailbox_ok_put:
  "mailbox_ok p \<Longrightarrow> pm_actors p i = Some w \<Longrightarrow> ev_Kind e \<in> worker_kinds \<Longrightarrow> mailbox_ok (mailboxPut p w e)"
  unfolding mailboxPut_def by (rule mailbox_ok_update(2)) (auto dest: mailbox_okD)

lemma mailbox_ok_putAll:
  "mailbox_ok p \<Longrightarrow> \<forall>e \<in> set es. ev_Kind e \<in> worker_kinds \<Longrightarrow> mailbox_ok (mailboxPutAll p i es)"
  by (induction p i es rule: mailboxPutAll.induct) (auto simp: mailbox_ok_put split: option.splits)

lemma mailbox_ok_frame: "pm_actors p' = pm_actors p \<Longrightarrow> mailbox_ok p' = mailbox_ok p"
  by (simp add: mailbox_ok_def)

lemma mailbox_ok_stop:
  assumes "mailbox_ok p" "handleActorStop submit event p = (r, p')" "ev_Kind event = EventActorStop"
  shows "mailbox_ok p'"
proof -
  have "mailbox_ok q \<and> (\<forall>e \<in> set closing. ev_Kind e = EventWSClose)"
    if "detachActorWebSockets p i h reason = (closing, sleeping, q)" for i h reason closing sleeping q
    using that assms(1) by (auto simp: detachActorWebSockets_def Let_def mailbox_ok_def)
  with assms show ?thesis
    by (auto simp: handleActorStop_def unknownActor_def Let_def worker_kinds_def split: option.splits prod.splits if_splits intro!: mailbox_ok_putAll)
qed

lemma mailbox_ok_saved:
  assumes "mailbox_ok p" "handleStatePersisted event p = (r, p')"
  shows "mailbox_ok p'"
proof -
  have session: "mailbox_ok (setWorker p (w\<lparr>wk_session := ses\<rparr>))" if "actor p a g = Some w" for a g w ses
    using that mailbox_okD [OF assms(1)] by (intro mailbox_ok_update(2) [OF assms(1)]) (auto simp: actor_def)
  have late: "mailbox_ok q' = mailbox_ok q" if "lateSave q event e = (r', q')" for q q' e r'
    using lateSave_result [OF that] mailbox_ok_frame by blast
  show ?thesis using assms session
    by (auto simp: handleStatePersisted_def Let_def mailbox_ok_frame [of "_\<lparr>pm_sent := _\<rparr>"] mailbox_ok_frame [of "_\<lparr>pm_lateSaves := _\<rparr>"]
        dest!: late split: option.splits prod.splits if_splits)
qed

lemma mailbox_ok_start:
  assumes "mailbox_ok p" "handleActorStart event p = (r, p')"
  shows "mailbox_ok p'"
proof -
  have "mailbox_ok (setWorker p w)" if "wk_mailbox w = newActorMailbox" for w
    using that by (intro mailbox_ok_update(2) [OF assms(1)]) (simp add: newActorMailbox_def)
  with assms show ?thesis
    by (auto simp: handleActorStart_def Let_def mailbox_ok_frame [of "_\<lparr>pm_nextRef := _, pm_spawned := _\<rparr>"] split: if_splits)
qed

lemma mailbox_ok_event:
  assumes "mailbox_ok p" "handleInternalEvent submit event p = (r, p')"
  shows "mailbox_ok p'"
proof (cases "ev_Kind event \<in> {EventActorStop, EventStatePersisted, EventActorStart}")
  case True
  with assms show ?thesis by (auto simp: handleInternalEvent_def dest: mailbox_ok_stop mailbox_ok_saved mailbox_ok_start)
next
  case False
  have put: "mailbox_ok (mailboxPut q w event)" if "pm_actors q = pm_actors p" "pm_actors p i = Some w" "ev_Kind event \<in> worker_kinds" for q i w
    using mailbox_ok_put [of q i w event] mailbox_ok_frame [OF that(1)] that assms(1) by simp
  show ?thesis using False assms
    by (cases "ev_Kind event")
      (auto simp: handleInternalEvent_def toActor_def unknownActor_def handleIntentResult_def handleKVResult_def handleSQLiteResult_def
        handleHTTPRequest_def handleHTTPRequestChunk_def handleHTTPRequestAbort_def handleWSOpen_def handleWSMessage_def handleWSClose_def
        removeWebSocket_def websocketActor_def actor_def takeWaiter_def Let_def worker_kinds_def mailbox_ok_frame [of "sendTo _ _ _"]
        mailbox_ok_frame [of "_\<lparr>pm_kv := _\<rparr>"] mailbox_ok_frame [of "_\<lparr>pm_intents := _\<rparr>"] mailbox_ok_frame [of "_\<lparr>pm_sqlite := _\<rparr>"]
        mailbox_ok_frame [of "_\<lparr>pm_http := _\<rparr>"] mailbox_ok_frame [of "_\<lparr>pm_websockets := _\<rparr>"]
        split: option.splits if_splits intro!: put)
qed

lemma abortSession_mailbox:
  assumes "mailbox_ok p"
  shows "mailbox_ok (abortSession p i)"
proof -
  let ?q = "snd (abortHTTPForActor p i CauseShuttingDown)"
  have q: "pm_actors ?q = pm_actors p" by (simp add: abortHTTPForActor_def)
  then have ok: "mailbox_ok ?q" using assms mailbox_ok_frame by blast
  have "mailbox_ok (?q\<lparr>pm_actors := (pm_actors ?q)(i \<mapsto> w\<lparr>wk_session := ses\<rparr>)\<rparr>)" if "pm_actors ?q i = Some w" for w ses
    using that by (intro mailbox_ok_update(1) [OF ok]) (auto dest: mailbox_okD [OF ok])
  with ok show ?thesis by (auto simp: abortSession_def Let_def split: option.splits)
qed

lemma cancelActorWorkers_mailbox: "mailbox_ok p \<Longrightarrow> mailbox_ok (cancelActorWorkers p is)"
proof (induction p "is" rule: cancelActorWorkers.induct)
  case (2 p i "is")
  have "mailbox_ok (p\<lparr>pm_actors := (pm_actors p)(i \<mapsto> w\<lparr>wk_cancelled := True\<rparr>)\<rparr>)" if "pm_actors p i = Some w" for w
    using that 2(3) by (intro mailbox_ok_update(1)) (auto dest: mailbox_okD)
  with 2 abortSession_mailbox show ?case by (auto split: option.splits)
qed simp

lemma removeActor_mailbox: "mailbox_ok p \<Longrightarrow> mailbox_ok (removeActor p i ref)"
  by (auto simp: removeActor_def detachActorWebSockets_def Let_def mailbox_ok_def ran_def split: if_splits)

lemma mailbox_ok_step: "pump_step p p' \<Longrightarrow> mailbox_ok p \<Longrightarrow> mailbox_ok p'"
proof (erule pump_stepE)
  fix i w s assume "mailbox_ok p" "pm_actors p i = Some w" "p' = setWorker p (w\<lparr>wk_session := s\<rparr>)"
  then show "mailbox_ok p'" by (auto intro!: mailbox_ok_update(2) dest: mailbox_okD)
next
  fix i w event m assume "mailbox_ok p" "pm_actors p i = Some w" "mailbox_take (wk_mailbox w) = Some (event, m)"
    "p' = setWorker p (w\<lparr>wk_mailbox := m\<rparr>)"
  then show "mailbox_ok p'" by (auto simp: mailbox_take_def split: list.splits intro!: mailbox_ok_update(2) dest: mailbox_okD)
qed (simp_all add: mailbox_ok_event abortSession_mailbox cancelActorWorkers_mailbox removeActor_mailbox,
    auto simp: finishHTTPRequest_def removeWebSocket_def mailbox_ok_def)

interpretation mailbox_kinds: kept_by_steps pump_step mailbox_ok
  by unfold_locales (rule mailbox_ok_step)

text \<open>C16: the pump and its workers agree on the kinds of events: in every state the pump can reach, the event a worker takes from its mailbox
  is one that the worker's loop handles, so that no worker ever ends the pump over an unexpected event.\<close>

theorem mailbox_events_expected:
  assumes "pump_step\<^sup>*\<^sup>* (newPump transport handlers) p" "pm_actors p i = Some w" "mailbox_take (wk_mailbox w) = Some (event, m)"
  shows "ReportUnexpected kind \<notin> set (snd (run_event env s handler hasRun state event))"
proof -
  have "mailbox_ok p" by (rule mailbox_kinds.run_good [OF assms(1)]) (simp add: mailbox_ok_def newPump_def)
  moreover have "event \<in> set (mb_queue (wk_mailbox w))" using assms(3) by (auto simp: mailbox_take_def split: list.splits)
  ultimately have "ev_Kind event \<in> worker_kinds" using assms(2) by (blast dest: mailbox_okD)
  then show ?thesis unfolding worker_kinds_def
    by (elim insertE) (auto simp: run_event_def connectionEvent_def submitOrReport_def stopIfPanic_def requestErrorStop_def Let_def split: option.splits if_splits)
qed

theorem mailbox_events_expected_witness:
  "ReportUnexpected EventWSOpen \<notin> set (snd (run_event env1 session0 panicking False 0 open_event))"
proof -
  obtain w where w: "pm_actors pump1 \<lparr>ai_aid = ''a'', ai_generation = 1\<rparr> = Some w" "wk_mailbox w = newActorMailbox"
    "ss_identity (wk_session w) = \<lparr>ai_aid = ''a'', ai_generation = 1\<rparr>" using pump1_actor by blast
  then have "pm_actors pump2 \<lparr>ai_aid = ''a'', ai_generation = 1\<rparr> = Some (w\<lparr>wk_mailbox := mailbox_put newActorMailbox open_event\<rparr>)"
    using pump1_sockets
    by (simp add: pump2_def handleInternalEvent_def handleWSOpen_def open_event_def actor_def mailboxPut_def setWorker_def)
  moreover have "mailbox_take (wk_mailbox (w\<lparr>wk_mailbox := mailbox_put newActorMailbox open_event\<rparr>)) =
      Some (open_event, (mailbox_put newActorMailbox open_event)\<lparr>mb_queue := []\<rparr>)"
    by (simp add: mailbox_take_def newActorMailbox_def)
  ultimately show ?thesis by (rule mailbox_events_expected [OF pump2_reachable(2)])
qed

end
