(* ===== verification/Socket_Client.thy ===== *)
theory Socket_Client
  imports Bare_Codec Session_Store
begin

text \<open>
  The client of the SQLite socket (\<open>internal/sqlitesocket/client.go\<close>): framing, the requests and their select loop, the read
  loop and the closing of the client. The first part has one function per Go function, with what the connection and the select
  statements do as arguments. The second part runs any number of requests, the read loop and \<open>Close\<close> against each other, one
  critical section or channel operation at a time.
\<close>

section \<open>Frames\<close>

datatype socket_error =
    ClientNil
  | SocketContextNil
  | SocketContext ctx_error
  | EncodeError bare_error
  | ResponseError WireError
  | FrameTooLong
  | SocketClosed
  | SetDeadlineError string
  | ClearDeadlineError string
  | ConnError string
  | ShortWrite
  | ReadEOF
  | ReadUnexpectedEOF
  | FrameLimit nat nat
  | DialError string
  | DecodeError bare_error

record socketResult =
  so_Columns :: "string list"
  so_Values :: "SQLiteValue list"
  so_RowsAffected :: i64
  so_LastInsertID :: "i64 option"

text \<open>
  One call of \<open>Write\<close> takes some bytes and may return an error. \<open>writeAll\<close> returns what has been taken, and no result while a call
  is still blocked.
\<close>

type_synonym write_result = "nat \<times> string option"

fun writeAll :: "write_result list \<Rightarrow> bytes \<Rightarrow> socket_error option option \<times> bytes" where
  "writeAll results [] = (Some None, [])"
| "writeAll [] data = (None, [])"
| "writeAll ((written, err) # results) data =
     (case err of
        Some e \<Rightarrow> (Some (Some (ConnError e)), take written data)
      | None \<Rightarrow>
          if written = 0 then (Some (Some ShortWrite), [])
          else case writeAll results (drop written data) of (r, out) \<Rightarrow> (r, take written data @ out))"

definition frame :: "bytes \<Rightarrow> bytes" where
  "frame payload = be_bytes 4 (length payload) @ payload"

datatype sem_arm = SemAcquired | SemContext ctx_error | SemClosed

record write_world =
  ww_sem :: sem_arm
  ww_ctxErr :: "ctx_error option"
  ww_setDeadline :: "string option"
  ww_header :: "write_result list"
  ww_payload :: "write_result list"
  ww_ctxAfter :: "ctx_error option"
  ww_clearDeadline :: "string option"

definition writeErr :: "write_world \<Rightarrow> socket_error \<Rightarrow> socket_error" where
  "writeErr world err = (case ww_ctxAfter world of Some c \<Rightarrow> SocketContext c | None \<Rightarrow> err)"

definition writeFrame :: "write_world \<Rightarrow> bytes \<Rightarrow> (bool \<times> socket_error option) option \<times> bytes" where
  "writeFrame world payload =
     (if length payload > 2 ^ 32 - 1 then (Some (False, Some FrameTooLong), [])
      else case ww_sem world of
        SemContext c \<Rightarrow> (Some (False, Some (SocketContext c)), [])
      | SemClosed \<Rightarrow> (Some (False, Some SocketClosed), [])
      | SemAcquired \<Rightarrow>
          (case ww_ctxErr world of
             Some c \<Rightarrow> (Some (False, Some (SocketContext c)), [])
           | None \<Rightarrow>
               (case ww_setDeadline world of
                  Some e \<Rightarrow> (Some (True, Some (SetDeadlineError e)), [])
                | None \<Rightarrow>
                    (case writeAll (ww_header world) (be_bytes 4 (length payload)) of
                       (None, out) \<Rightarrow> (None, out)
                     | (Some (Some e), out) \<Rightarrow> (Some (True, Some (writeErr world e)), out)
                     | (Some None, out) \<Rightarrow>
                         (case writeAll (ww_payload world) payload of
                            (None, out') \<Rightarrow> (None, out @ out')
                          | (Some (Some e), out') \<Rightarrow> (Some (True, Some (writeErr world e)), out @ out')
                          | (Some None, out') \<Rightarrow>
                              (Some (True, map_option ClearDeadlineError (ww_clearDeadline world)), out @ out'))))))"

text \<open>What is left in a reader, and the error that \<open>Read\<close> returns after it: \<open>None\<close> for the end of the stream.\<close>

record reader =
  rd_bytes :: bytes
  rd_err :: "string option"

definition readFull :: "reader \<Rightarrow> nat \<Rightarrow> socket_error + (bytes \<times> reader)" where
  "readFull r n =
     (if n \<le> length (rd_bytes r) then Inr (take n (rd_bytes r), r\<lparr>rd_bytes := drop n (rd_bytes r)\<rparr>)
      else Inl (case rd_err r of
             Some e \<Rightarrow> ConnError e
           | None \<Rightarrow> if rd_bytes r = [] then ReadEOF else ReadUnexpectedEOF))"

definition readFrame :: "reader \<Rightarrow> u32 \<Rightarrow> socket_error + (bytes \<times> reader)" where
  "readFrame r maxFrame =
     bindR (readFull r 4) (\<lambda>(header, r).
       let length' = nat_be header in
       bindR (checkR (length' > unat maxFrame) (FrameLimit length' (unat maxFrame))) (\<lambda>_. readFull r length'))"

record read_world =
  rw_setDeadline :: "string option"
  rw_ctxAfter :: "ctx_error option"
  rw_clearDeadline :: "string option"

definition readFrameContext :: "read_world \<Rightarrow> reader \<Rightarrow> u32 \<Rightarrow> socket_error + (bytes \<times> reader)" where
  "readFrameContext world r maxFrame =
     (case rw_setDeadline world of
        Some e \<Rightarrow> Inl (SetDeadlineError e)
      | None \<Rightarrow>
          (case readFrame r maxFrame of
             Inl e \<Rightarrow> Inl (case rw_ctxAfter world of Some c \<Rightarrow> SocketContext c | None \<Rightarrow> e)
           | Inr x \<Rightarrow> (case rw_clearDeadline world of Some e \<Rightarrow> Inl (ClearDeadlineError e) | None \<Rightarrow> Inr x)))"


section \<open>The client\<close>

record 'w Client =
  cl_maxFrame :: u32
  cl_pending :: "(u32, 'w) waiters"

text \<open>
  \<open>Dial\<close> up to the start of the read loop: the connection, the exchange of hello frames and the limit it settles. It also returns
  what it wrote and whether the connection stays open.
\<close>

definition Dial ::
  "go_context option \<Rightarrow> string option \<Rightarrow> write_world \<Rightarrow> read_world \<Rightarrow> reader \<Rightarrow>
   ((socket_error + ('w Client \<times> reader)) \<times> bytes \<times> bool) option" where
  "Dial ctx dialErr ww rw r =
     (case ctx of
        None \<Rightarrow> Some (Inl SocketContextNil, [], False)
      | Some _ \<Rightarrow>
          (case dialErr of
             Some e \<Rightarrow> Some (Inl (DialError e), [], False)
           | None \<Rightarrow>
               (case writeFrame ww encodeHello of
                  (None, _) \<Rightarrow> None
                | (Some (_, Some e), out) \<Rightarrow> Some (Inl e, out, False)
                | (Some (_, None), out) \<Rightarrow>
                    (case readFrameContext rw r defaultMaxFrame of
                       Inl e \<Rightarrow> Some (Inl e, out, False)
                     | Inr (payload, r) \<Rightarrow>
                         (case decodeHello payload of
                            Inl e \<Rightarrow> Some (Inl (DecodeError e), out, False)
                          | Inr maxFrame \<Rightarrow> Some (Inr (\<lparr>cl_maxFrame = maxFrame, cl_pending = noWaiters\<rparr>, r), out, True))))))"

text \<open>What arrives on the result channel of a request: a response, or the error of \<open>failPending\<close>.\<close>

datatype delivery = Delivered response | ClosedDelivery

datatype socket_signal = SocketResponse delivery | SocketContextDone ctx_error | SocketClosedSignal

definition delivered :: "delivery \<Rightarrow> socket_error + socketResult" where
  "delivered d =
     (case d of
        ClosedDelivery \<Rightarrow> Inl SocketClosed
      | Delivered value \<Rightarrow>
          (case rs_err value of
             Some e \<Rightarrow> Inl (ResponseError e)
           | None \<Rightarrow> Inr \<lparr>so_Columns = rs_columns value, so_Values = rs_values value, so_RowsAffected = rs_changes value,
                        so_LastInsertID = rs_lastInsertID value\<rparr>))"

text \<open>The select loop of \<open>request\<close>: the result, and whether the request abandons its entry.\<close>

fun socketLoop :: "bool \<Rightarrow> ctx_error option \<Rightarrow> socket_signal list \<Rightarrow> ((socket_error + socketResult) \<times> bool) option" where
  "socketLoop write cancellationErr [] = None"
| "socketLoop write cancellationErr (SocketResponse d # signals) =
     Some (case (delivered d, cancellationErr) of
             (Inl _, Some c) \<Rightarrow> Inl (SocketContext c)
           | (r, _) \<Rightarrow> r, False)"
| "socketLoop write cancellationErr (SocketContextDone c # signals) =
     (if cancellationErr \<noteq> None then socketLoop write cancellationErr signals
      else if \<not> write then Some (Inl (SocketContext c), True)
      else socketLoop write (Some c) signals)"
| "socketLoop write cancellationErr (SocketClosedSignal # signals) = Some (Inl SocketClosed, False)"

definition requestTooLarge :: WireError where
  "requestTooLarge = sqliteErr ''sqlite_request_too_large'' ''SQLite request exceeds Actor Runtime Socket maxFrameBytes''"

definition requestMayWrite :: "request \<Rightarrow> bool" where
  "requestMayWrite value \<longleftrightarrow> rq_kind value \<noteq> requestQuery \<or> \<not> DefinitelyReadOnly (rq_sql value)"

text \<open>
  \<open>request\<close> returns its result, the table it leaves, what it wrote and whether it closes the client. \<open>later\<close> is the table when
  the request comes back to it.
\<close>

record 'w request_world =
  rq_write :: write_world
  rq_signals :: "socket_signal list"
  rq_later :: "(u32, 'w) waiters"

definition socketExchange ::
  "'w Client \<Rightarrow> request \<Rightarrow> 'w request_world \<Rightarrow> ((socket_error + socketResult) \<times> (u32, 'w) waiters \<times> bytes \<times> bool) option" where
  "socketExchange c value world =
     (let later = rq_later world; removed = removePending later (rq_id value) in
      case encodeRequest value of
        Inl e \<Rightarrow> Some (Inl (EncodeError e), removed, [], False)
      | Inr payload \<Rightarrow>
          if length payload > unat (cl_maxFrame c) then Some (Inl (ResponseError requestTooLarge), removed, [], False)
          else (case writeFrame (rq_write world) payload of
             (None, _) \<Rightarrow> None
           | (Some (started, Some e), out) \<Rightarrow> Some (Inl e, removed, out, started)
           | (Some (_, None), out) \<Rightarrow>
               map_option
                 (\<lambda>(r, abandons). (r, if abandons then abandonPending later (rq_id value) else later, out, False))
                 (socketLoop (requestMayWrite value) None (rq_signals world))))"

definition socket_request ::
  "'w Client option \<Rightarrow> go_context option \<Rightarrow> 'w \<Rightarrow> request \<Rightarrow> 'w request_world \<Rightarrow>
   ((socket_error + socketResult) \<times> (u32, 'w) waiters \<times> bytes \<times> bool) option" where
  "socket_request client ctx result value world =
     (case client of
        None \<Rightarrow> Some (Inl ClientNil, rq_later world, [], False)
      | Some c \<Rightarrow>
          (case ctx of
             None \<Rightarrow> Some (Inl SocketContextNil, cl_pending c, [], False)
           | Some x \<Rightarrow>
               (case gc_err x of
                  Some e \<Rightarrow> Some (Inl (SocketContext e), cl_pending c, [], False)
                | None \<Rightarrow>
                    (case addPending (cl_pending c) result of
                       None \<Rightarrow> None
                     | Some (i, _) \<Rightarrow> socketExchange c (value\<lparr>rq_id := i\<rparr>) world))))"

type_synonym socket_call = "request \<Rightarrow> socket_error + socketResult"

definition zeroRequest :: request where
  "zeroRequest = \<lparr>rq_id = 0, rq_kind = requestExec, rq_sql = [], rq_args = [], rq_leaseKey = None, rq_timeoutMS = None\<rparr>"

definition Client_Exec :: "socket_call \<Rightarrow> string \<Rightarrow> SQLiteValue list \<Rightarrow> string option \<Rightarrow> socket_error + socketResult" where
  "Client_Exec call sql args leaseKey =
     call (zeroRequest\<lparr>rq_kind := requestQuery, rq_sql := sql, rq_args := args, rq_leaseKey := leaseKey\<rparr>)"

definition Client_Query :: "socket_call \<Rightarrow> string \<Rightarrow> SQLiteValue list \<Rightarrow> string option \<Rightarrow> socket_error + socketResult" where
  "Client_Query call sql args leaseKey =
     call (zeroRequest\<lparr>rq_kind := requestQuery, rq_sql := sql, rq_args := args, rq_leaseKey := leaseKey\<rparr>)"

text \<open>\<open>Milliseconds\<close> truncates towards zero and the conversion to \<open>uint64\<close> wraps.\<close>

definition timeoutMillis :: "int \<Rightarrow> u64" where
  "timeoutMillis timeout =
     (let ms = word_of_int (sgn timeout * (\<bar>timeout\<bar> div millisecond))
      in if timeout > 0 \<and> timeout mod millisecond \<noteq> 0 then ms + 1 else ms)"

definition Client_Begin :: "socket_call \<Rightarrow> string \<Rightarrow> int \<Rightarrow> socket_error + unit" where
  "Client_Begin call leaseKey timeout =
     bindR (call (zeroRequest\<lparr>rq_kind := requestBegin, rq_leaseKey := Some leaseKey,
       rq_timeoutMS := Some (timeoutMillis timeout)\<rparr>)) (\<lambda>_. Inr ())"

definition Client_Commit :: "socket_call \<Rightarrow> string \<Rightarrow> socket_error + unit" where
  "Client_Commit call leaseKey =
     bindR (call (zeroRequest\<lparr>rq_kind := requestCommit, rq_leaseKey := Some leaseKey\<rparr>)) (\<lambda>_. Inr ())"

definition Client_Rollback :: "socket_call \<Rightarrow> string \<Rightarrow> socket_error + unit" where
  "Client_Rollback call leaseKey =
     bindR (call (zeroRequest\<lparr>rq_kind := requestRollback, rq_leaseKey := Some leaseKey\<rparr>)) (\<lambda>_. Inr ())"

text \<open>
  A round of \<open>readLoop\<close>: no result when the loop closes the client and returns, otherwise the response, the request to hand it to,
  the rest of the stream and the table.
\<close>

definition readLoop_round ::
  "reader \<Rightarrow> u32 \<Rightarrow> (u32, 'w) waiters \<Rightarrow> (response \<times> 'w option \<times> reader \<times> (u32, 'w) waiters) option" where
  "readLoop_round r maxFrame table =
     (case readFrame r maxFrame of
        Inl _ \<Rightarrow> None
      | Inr (payload, r) \<Rightarrow>
          (case decodeResponse payload of
             Inl _ \<Rightarrow> None
           | Inr value \<Rightarrow> (case takeWaiter table (rs_id value) True of (waiter, table) \<Rightarrow> Some (value, waiter, r, table))))"


section \<open>Requests, read loop and \<open>Close\<close> at once\<close>

text \<open>
  Where a request stands, with its id once it has one: \<open>WriteFailed\<close> is between the return of \<open>writeFrame\<close>, which has released the
  write semaphore, and the removal of the entry; \<open>Closing\<close> is the call of \<open>Close\<close> after it.
\<close>

datatype phase = Idle | Registered u32 | Writing u32 | WriteFailed u32 | Closing u32 | Waiting u32 | Returned u32

fun phase_id :: "phase \<Rightarrow> u32 option" where
  "phase_id Idle = None"
| "phase_id (Registered i) = Some i"
| "phase_id (Writing i) = Some i"
| "phase_id (WriteFailed i) = Some i"
| "phase_id (Closing i) = Some i"
| "phase_id (Waiting i) = Some i"
| "phase_id (Returned i) = Some i"

text \<open>
  \<open>sk_sem\<close> is the holder of the write semaphore with its payload and what it has yet to write; \<open>sk_reader\<close> the response whose send
  \<open>readLoop\<close> is in; \<open>sk_failing\<close> the waiters \<open>failPending\<close> has yet to answer. \<open>sk_out\<close>, \<open>sk_sent\<close>, \<open>sk_broken\<close> and \<open>sk_got\<close> record what
  was written, the payloads written to their end, whether a write has failed and what requests have received.
\<close>

record sock =
  sk_table :: "(u32, nat) waiters"
  sk_phase :: "nat \<Rightarrow> phase"
  sk_chan :: "nat \<Rightarrow> delivery list"
  sk_sem :: "(nat \<times> bytes \<times> bytes) option"
  sk_out :: bytes
  sk_sent :: "bytes list"
  sk_broken :: bool
  sk_connClosed :: bool
  sk_closed :: bool
  sk_swept :: bool
  sk_failing :: "nat list"
  sk_reader :: "(nat \<times> response) option"
  sk_got :: "nat \<Rightarrow> delivery option"

definition newSock :: sock where
  "newSock = \<lparr>sk_table = noWaiters, sk_phase = \<lambda>_. Idle, sk_chan = \<lambda>_. [], sk_sem = None, sk_out = [], sk_sent = [],
     sk_broken = False, sk_connClosed = False, sk_closed = False, sk_swept = False, sk_failing = [], sk_reader = None,
     sk_got = \<lambda>_. None\<rparr>"

inductive sock_step :: "u32 \<Rightarrow> (nat \<Rightarrow> request) \<Rightarrow> sock \<Rightarrow> sock \<Rightarrow> bool" for maxFrame reqs where
  register: "sk_phase s k = Idle \<Longrightarrow> addPending (sk_table s) k = Some (i, t) \<Longrightarrow>
    sock_step maxFrame reqs s (s\<lparr>sk_table := t, sk_phase := (sk_phase s)(k := Registered i)\<rparr>)"
| reject: "sk_phase s k = Registered i \<Longrightarrow>
    sock_step maxFrame reqs s (s\<lparr>sk_table := removePending (sk_table s) i, sk_phase := (sk_phase s)(k := Returned i)\<rparr>)"
| acquire: "sk_phase s k = Registered i \<Longrightarrow> sk_sem s = None \<Longrightarrow> encodeRequest ((reqs k)\<lparr>rq_id := i\<rparr>) = Inr payload \<Longrightarrow>
    length payload \<le> unat maxFrame \<Longrightarrow>
    sock_step maxFrame reqs s (s\<lparr>sk_sem := Some (k, payload, frame payload), sk_phase := (sk_phase s)(k := Writing i)\<rparr>)"
| put_bytes: "sk_sem s = Some (k, payload, left) \<Longrightarrow> \<not> sk_connClosed s \<Longrightarrow>
    sock_step maxFrame reqs s (s\<lparr>sk_sem := Some (k, payload, drop n left), sk_out := sk_out s @ take n left\<rparr>)"
| written: "sk_sem s = Some (k, payload, []) \<Longrightarrow> sk_phase s k = Writing i \<Longrightarrow>
    sock_step maxFrame reqs s (s\<lparr>sk_sem := None, sk_sent := sk_sent s @ [payload], sk_phase := (sk_phase s)(k := Waiting i)\<rparr>)"
| write_fails: "sk_sem s = Some (k, payload, left) \<Longrightarrow> sk_phase s k = Writing i \<Longrightarrow>
    sock_step maxFrame reqs s (s\<lparr>sk_sem := None, sk_broken := True, sk_phase := (sk_phase s)(k := WriteFailed i)\<rparr>)"
| remove: "sk_phase s k = WriteFailed i \<Longrightarrow>
    sock_step maxFrame reqs s (s\<lparr>sk_table := removePending (sk_table s) i, sk_phase := (sk_phase s)(k := Closing i)\<rparr>)"
| close_returns: "sk_phase s k = Closing i \<Longrightarrow> sk_swept s \<Longrightarrow> sk_failing s = [] \<Longrightarrow>
    sock_step maxFrame reqs s (s\<lparr>sk_phase := (sk_phase s)(k := Returned i)\<rparr>)"
| close_conn: "sock_step maxFrame reqs s (s\<lparr>sk_connClosed := True\<rparr>)"
| close_signal: "sk_connClosed s \<Longrightarrow> sock_step maxFrame reqs s (s\<lparr>sk_closed := True\<rparr>)"
| sweep: "sk_closed s \<Longrightarrow> \<not> sk_swept s \<Longrightarrow> distinct ks \<Longrightarrow> set ks = {k. \<exists>i. wt_pending (sk_table s) i = Some (Some k)} \<Longrightarrow>
    sock_step maxFrame reqs s (s\<lparr>sk_swept := True, sk_failing := ks, sk_table := failWaiters (sk_table s)\<rparr>)"
| fail: "sk_failing s = k # ks \<Longrightarrow> sk_chan s k = [] \<Longrightarrow>
    sock_step maxFrame reqs s (s\<lparr>sk_failing := ks, sk_chan := (sk_chan s)(k := [ClosedDelivery])\<rparr>)"
| read: "sk_reader s = None \<Longrightarrow> takeWaiter (sk_table s) (rs_id value) True = (waiter, t) \<Longrightarrow>
    sock_step maxFrame reqs s (s\<lparr>sk_table := t, sk_reader := map_option (\<lambda>k. (k, value)) waiter\<rparr>)"
| deliver: "sk_reader s = Some (k, value) \<Longrightarrow> sk_chan s k = [] \<Longrightarrow>
    sock_step maxFrame reqs s (s\<lparr>sk_reader := None, sk_chan := (sk_chan s)(k := [Delivered value])\<rparr>)"
| receive: "sk_phase s k = Waiting i \<Longrightarrow> sk_chan s k = [d] \<Longrightarrow>
    sock_step maxFrame reqs s
      (s\<lparr>sk_chan := (sk_chan s)(k := []), sk_got := (sk_got s)(k \<mapsto> d), sk_phase := (sk_phase s)(k := Returned i)\<rparr>)"
| abandon: "sk_phase s k = Waiting i \<Longrightarrow> \<not> requestMayWrite (reqs k) \<Longrightarrow>
    sock_step maxFrame reqs s (s\<lparr>sk_table := abandonPending (sk_table s) i, sk_phase := (sk_phase s)(k := Returned i)\<rparr>)"
| see_closed: "sk_phase s k = Waiting i \<Longrightarrow> sk_closed s \<Longrightarrow>
    sock_step maxFrame reqs s (s\<lparr>sk_phase := (sk_phase s)(k := Returned i)\<rparr>)"

inductive_cases sock_stepE: "sock_step maxFrame reqs s s'"


section \<open>Answers\<close>

text \<open>
  Every request owns one answer at most: it is promised by the table, held by the read loop or by \<open>failPending\<close>, in the channel,
  or received.
\<close>

definition promised :: "sock \<Rightarrow> nat \<Rightarrow> u32 \<Rightarrow> bool" where
  "promised s k i \<longleftrightarrow> wt_pending (sk_table s) i = Some (Some k)"

definition held :: "sock \<Rightarrow> nat \<Rightarrow> bool" where
  "held s k \<longleftrightarrow> k \<in> set (sk_failing s) \<or> (\<exists>v. sk_reader s = Some (k, v))"

definition answer_ok :: "sock \<Rightarrow> nat \<Rightarrow> bool" where
  "answer_ok s k \<longleftrightarrow>
     (\<forall>i. promised s k i \<longrightarrow> phase_id (sk_phase s k) = Some i \<and> \<not> held s k \<and> sk_chan s k = [] \<and> sk_got s k = None) \<and>
     (held s k \<longrightarrow> phase_id (sk_phase s k) \<noteq> None \<and> sk_chan s k = [] \<and> sk_got s k = None) \<and>
     (\<forall>v. sk_reader s = Some (k, v) \<longrightarrow> k \<notin> set (sk_failing s) \<and> phase_id (sk_phase s k) = Some (rs_id v)) \<and>
     (sk_chan s k = [] \<or> phase_id (sk_phase s k) \<noteq> None \<and> sk_got s k = None \<and> (\<exists>d. sk_chan s k = [d])) \<and>
     (\<forall>v. Delivered v \<in> set (sk_chan s k) \<longrightarrow> phase_id (sk_phase s k) = Some (rs_id v)) \<and>
     (\<forall>v. sk_got s k = Some (Delivered v) \<longrightarrow> phase_id (sk_phase s k) = Some (rs_id v)) \<and>
     (phase_id (sk_phase s k) = None \<longrightarrow> sk_got s k = None)"

definition answers_inv :: "sock \<Rightarrow> bool" where
  "answers_inv s \<longleftrightarrow> distinct (sk_failing s) \<and> (sk_failing s = [] \<or> sk_swept s) \<and> (\<forall>k. answer_ok s k)"

text \<open>A request that a step gives no answer keeps its own.\<close>

lemma answer_ok_same:
  assumes "answer_ok s k" "\<And>i. promised s' k i \<Longrightarrow> promised s k i"
    and "k \<in> set (sk_failing s') \<longleftrightarrow> k \<in> set (sk_failing s)" "\<And>v. sk_reader s' = Some (k, v) \<longleftrightarrow> sk_reader s = Some (k, v)"
    and "sk_chan s' k = sk_chan s k" "sk_got s' k = sk_got s k" "phase_id (sk_phase s' k) = phase_id (sk_phase s k)"
  shows "answer_ok s' k"
proof -
  have held: "held s' k = held s k" using assms(3,4) by (simp add: held_def)
  have "\<forall>i. promised s' k i \<longrightarrow> phase_id (sk_phase s k) = Some i \<and> \<not> held s k \<and> sk_chan s k = [] \<and> sk_got s k = None"
    using conjunct1 [OF assms(1) [unfolded answer_ok_def]] by (auto dest!: assms(2))
  with assms(1) show ?thesis unfolding answer_ok_def held assms(3-7) by (elim conjE, intro conjI)
qed

lemma answers_kept:
  assumes "answers_inv s" "\<And>k i. promised s' k i \<Longrightarrow> promised s k i"
    and "sk_failing s' = sk_failing s" "sk_swept s' = sk_swept s" "sk_reader s' = sk_reader s"
    and "sk_chan s' = sk_chan s" "sk_got s' = sk_got s" "\<And>k. phase_id (sk_phase s' k) = phase_id (sk_phase s k)"
  shows "answers_inv s'"
proof -
  have "answer_ok s' k" for k
    by (rule answer_ok_same [OF _ assms(2)]) (use assms(1) in \<open>simp_all add: answers_inv_def assms(3-8)\<close>)
  with assms(1,3,4) show ?thesis by (simp add: answers_inv_def)
qed

lemma promised_table:
  "promised (s\<lparr>sk_table := removePending (sk_table s) i, sk_phase := ph\<rparr>) k j \<Longrightarrow> promised s k j"
  "promised (s\<lparr>sk_table := abandonPending (sk_table s) i, sk_phase := ph\<rparr>) k j \<Longrightarrow> promised s k j"
  by (simp_all add: promised_def socket_waiters.remove_look socket_waiters.abandon_look split: if_splits)

lemma answers_step:
  assumes "sock_step maxFrame reqs s s'" "answers_inv s"
  shows "answers_inv s'"
proof -
  have ok: "answer_ok s k" for k using assms(2) by (simp add: answers_inv_def)
  have failing: "distinct (sk_failing s)" "sk_failing s = [] \<or> sk_swept s" using assms(2) by (simp_all add: answers_inv_def)
  from assms(1) show ?thesis
  proof cases
    case (register k i t)
    note look = socket_waiters.add_look [OF register(3)]
    have "answer_ok s' k'" for k'
    proof (cases "k' = k")
      case True
      then show ?thesis using ok [of k] look register(2) by (auto simp: register(1) answer_ok_def promised_def held_def)
    next
      case False
      then show ?thesis using look by (intro answer_ok_same [OF ok [of k']]) (auto simp: register(1) promised_def split: if_splits)
    qed
    with failing show ?thesis by (simp add: answers_inv_def register(1))
  next
    case (reject k i)
    show ?thesis unfolding reject(1)
      by (rule answers_kept [OF assms(2)]) (use reject(2) in \<open>auto dest: promised_table\<close>)
  next
    case (remove k i)
    show ?thesis unfolding remove(1)
      by (rule answers_kept [OF assms(2)]) (use remove(2) in \<open>auto dest: promised_table\<close>)
  next
    case (abandon k i)
    show ?thesis unfolding abandon(1)
      by (rule answers_kept [OF assms(2)]) (use abandon(2) in \<open>auto dest: promised_table\<close>)
  next
    case (sweep ks)
    have "answer_ok s' k" for k
      using ok [of k] sweep(5) failing(2) sweep(3) by (auto simp: sweep(1) answer_ok_def promised_def held_def failWaiters_def)
    with sweep(4) show ?thesis by (simp add: answers_inv_def sweep(1))
  next
    case (fail k ks)
    have "answer_ok s' k'" for k'
    proof (cases "k' = k")
      case True
      then show ?thesis using ok [of k] fail(2) failing(1) by (auto simp: fail(1) answer_ok_def promised_def held_def)
    next
      case False
      then show ?thesis using fail(2) by (intro answer_ok_same [OF ok [of k']]) (auto simp: fail(1) promised_def)
    qed
    with failing fail(2) show ?thesis by (auto simp: answers_inv_def fail(1))
  next
    case (read v waiter t)
    note look = socket_waiters.complete_look [OF read(3)]
    have "answer_ok s' k" for k
    proof (cases "waiter = Some k")
      case True
      with look have "promised s k (rs_id v)" by (cases "wt_pending (sk_table s) (rs_id v)") (simp_all add: promised_def)
      then have k: "phase_id (sk_phase s k) = Some (rs_id v)" "k \<notin> set (sk_failing s)" "sk_chan s k = []" "sk_got s k = None"
        using ok [of k] unfolding answer_ok_def held_def by blast+
      have "\<not> promised s' k i" for i
        using ok [of k] k(1) look by (auto simp: read(1) answer_ok_def promised_def)
      with k True show ?thesis by (simp add: read(1) answer_ok_def held_def)
    next
      case False
      then show ?thesis using read(2) look
        by (intro answer_ok_same [OF ok [of k]]) (auto simp: read(1) promised_def split: if_splits)
    qed
    with failing show ?thesis by (simp add: answers_inv_def read(1))
  next
    case (deliver k v)
    have "answer_ok s' k'" for k'
    proof (cases "k' = k")
      case True
      then show ?thesis using ok [of k] deliver(2) by (auto simp: deliver(1) answer_ok_def promised_def held_def)
    next
      case False
      then show ?thesis using deliver(2) by (intro answer_ok_same [OF ok [of k']]) (auto simp: deliver(1) promised_def)
    qed
    with failing show ?thesis by (simp add: answers_inv_def deliver(1))
  next
    case (receive k i d)
    have "answer_ok s' k'" for k'
    proof (cases "k' = k")
      case True
      then show ?thesis using ok [of k] receive(2,3) by (auto simp: receive(1) answer_ok_def promised_def held_def)
    next
      case False
      then show ?thesis by (intro answer_ok_same [OF ok [of k']]) (auto simp: receive(1) promised_def)
    qed
    with failing show ?thesis by (simp add: answers_inv_def receive(1))
  qed (auto intro!: answers_kept [OF assms(2)] simp: promised_def)
qed

interpretation answers: kept_by_steps "sock_step maxFrame reqs" answers_inv for maxFrame reqs
  by unfold_locales (rule answers_step)

lemma answers_start: "answers_inv newSock"
  by (simp add: answers_inv_def answer_ok_def newSock_def promised_def held_def noWaiters_def)

text \<open>C6: over every interleaving of requests, read loop and \<open>Close\<close>, each request receives at most one answer, a response it
  receives carries the id the request was sent under, and neither the read loop nor \<open>failPending\<close> ever blocks: the channel they are
  about to send on is empty.\<close>

theorem socket_one_answer:
  assumes "(sock_step maxFrame reqs)\<^sup>*\<^sup>* newSock s"
  shows "(\<forall>k v. sk_reader s = Some (k, v) \<longrightarrow> sk_chan s k = []) \<and> (\<forall>k \<in> set (sk_failing s). sk_chan s k = []) \<and>
    (\<forall>k d. sk_got s k = Some d \<longrightarrow> sk_chan s k = [] \<and> \<not> held s k \<and> (\<forall>i. \<not> promised s k i)) \<and>
    (\<forall>k v. sk_got s k = Some (Delivered v) \<longrightarrow> phase_id (sk_phase s k) = Some (rs_id v))"
proof -
  have ok: "answer_ok s k" for k
    using answers.run_good [OF assms answers_start] by (simp add: answers_inv_def)
  have "sk_got s k = Some d \<Longrightarrow> sk_chan s k = [] \<and> \<not> held s k \<and> (\<forall>i. \<not> promised s k i)" for k d
    using ok [of k] by (auto simp: answer_ok_def)
  moreover have "held s k \<Longrightarrow> sk_chan s k = []" for k
    using ok [of k] by (simp add: answer_ok_def)
  moreover have "sk_got s k = Some (Delivered v) \<Longrightarrow> phase_id (sk_phase s k) = Some (rs_id v)" for k v
    using ok [of k] by (simp add: answer_ok_def)
  ultimately show ?thesis by (simp add: held_def)
qed

section \<open>What the peer reads\<close>

function frames_in :: "u32 \<Rightarrow> bytes \<Rightarrow> bytes list" where
  "frames_in maxFrame bs =
     (case readFrame \<lparr>rd_bytes = bs, rd_err = None\<rparr> maxFrame of
        Inl _ \<Rightarrow> []
      | Inr (payload, r) \<Rightarrow> payload # frames_in maxFrame (rd_bytes r))"
  by pat_completeness auto
termination
  by (relation "measure (\<lambda>(_, bs). length bs)")
    (auto simp: readFrame_def readFull_def Let_def bindR_eq_Inr split: if_splits)

declare frames_in.simps [simp del]

lemma readFrame_frame:
  assumes "length payload \<le> unat maxFrame"
  shows "readFrame \<lparr>rd_bytes = frame payload @ bs, rd_err = e\<rparr> maxFrame = Inr (payload, \<lparr>rd_bytes = bs, rd_err = e\<rparr>)"
proof -
  have "length payload < 2 ^ 32"
    using assms unsigned_less [of maxFrame, where 'a = nat] by simp
  with assms show ?thesis
    by (simp add: readFrame_def readFull_def frame_def Let_def nat_be_be_bytes)
qed

lemma readFrame_prefix:
  assumes "w @ left = frame payload" "left \<noteq> []" "length payload \<le> unat maxFrame"
  shows "\<exists>e. readFrame \<lparr>rd_bytes = w, rd_err = None\<rparr> maxFrame = Inl e"
proof (cases "length w < 4")
  case True
  then show ?thesis by (simp add: readFrame_def readFull_def)
next
  case False
  have "length payload < 2 ^ 32"
    using assms(3) unsigned_less [of maxFrame, where 'a = nat] by simp
  moreover have "take 4 w = be_bytes 4 (length payload)"
    using False arg_cong [OF assms(1), of "take 4"] by (simp add: frame_def)
  moreover have "length w < 4 + length payload"
    using assms(2) arg_cong [OF assms(1), of length] by (cases left) (simp_all add: frame_def)
  ultimately show ?thesis using False by (auto simp: readFrame_def readFull_def Let_def nat_be_be_bytes)
qed

lemma frames_in_frames:
  "list_all (\<lambda>p. length p \<le> unat maxFrame) ps \<Longrightarrow> frames_in maxFrame (concat (map frame ps) @ bs) = ps @ frames_in maxFrame bs"
proof (induction ps)
  case (Cons p ps)
  then show ?case by (subst frames_in.simps) (simp add: readFrame_frame)
qed simp

lemma frames_in_end [simp]: "frames_in maxFrame [] = []"
  by (subst frames_in.simps) (simp add: readFrame_def readFull_def)

lemma frames_in_partial:
  assumes "w @ left = frame payload" "length payload \<le> unat maxFrame"
  shows "frames_in maxFrame w = (if left = [] then [payload] else [])"
proof (cases "left = []")
  case True
  with assms frames_in_frames [of maxFrame "[payload]" "[]"] show ?thesis by simp
next
  case False
  with readFrame_prefix [OF assms(1) False assms(2)] show ?thesis by (subst frames_in.simps) auto
qed

definition frames_inv :: "u32 \<Rightarrow> sock \<Rightarrow> bool" where
  "frames_inv maxFrame s \<longleftrightarrow>
     sk_broken s \<or>
     list_all (\<lambda>p. length p \<le> unat maxFrame) (sk_sent s) \<and>
     (case sk_sem s of
        None \<Rightarrow> sk_out s = concat (map frame (sk_sent s))
      | Some (k, payload, left) \<Rightarrow>
          length payload \<le> unat maxFrame \<and> (\<exists>w. w @ left = frame payload \<and> sk_out s = concat (map frame (sk_sent s)) @ w))"

lemma frames_step:
  assumes "sock_step maxFrame reqs s s'" "frames_inv maxFrame s"
  shows "frames_inv maxFrame s'"
  using assms
proof cases
  case (put_bytes k payload left n)
  then show ?thesis
    using assms(2) by (auto simp: frames_inv_def intro!: exI [where x = "w @ take n left" for w])
qed (auto simp: frames_inv_def split: option.splits)

interpretation frames: kept_by_steps "sock_step maxFrame reqs" "frames_inv maxFrame" for maxFrame reqs
  by unfold_locales (rule frames_step)

text \<open>C22: while no write has failed, the peer reads exactly the payloads that requests have written, whole, each once and in the
  order of the writes, whatever requests write at the same time and however the connection cuts their frames.\<close>

theorem socket_frames_whole:
  assumes "(sock_step maxFrame reqs)\<^sup>*\<^sup>* newSock s" "\<not> sk_broken s"
  shows "frames_in maxFrame (sk_out s) =
    sk_sent s @ (case sk_sem s of Some (k, payload, []) \<Rightarrow> [payload] | _ \<Rightarrow> [])"
proof -
  have inv: "frames_inv maxFrame s"
    by (rule frames.run_good [OF assms(1)]) (simp add: frames_inv_def newSock_def)
  show ?thesis
  proof (cases "sk_sem s")
    case None
    then show ?thesis
      using inv assms(2) frames_in_frames [of maxFrame "sk_sent s" "[]"]
      by (simp add: frames_inv_def frames_in_end)
  next
    case (Some x)
    obtain k payload left where x: "x = (k, payload, left)" by (cases x)
    obtain w where w: "w @ left = frame payload" "length payload \<le> unat maxFrame"
      "frames_in maxFrame (sk_out s) = sk_sent s @ frames_in maxFrame w"
      using inv assms(2) Some x by (auto simp: frames_inv_def frames_in_frames)
    then show ?thesis
      using Some x frames_in_partial [OF w(1,2)] by (cases left) auto
  qed
qed

section \<open>A write that starts before the client is closed\<close>

lemma addPending_next:
  assumes "wt_next t + 1 \<noteq> 0" "wt_pending t (wt_next t + 1) = None"
  shows "addPending t w =
    Some (wt_next t + 1, \<lparr>wt_next = wt_next t + 1, wt_pending = (wt_pending t)(wt_next t + 1 \<mapsto> Some w)\<rparr>)"
  using assms by (simp add: addPending_def addWaiter_def nextFreeID.simps [of "wt_next t"])

definition blobArg :: "bytes \<Rightarrow> SQLiteValue" where
  "blobArg b = sqlNull\<lparr>sv_Kind := ''blob'', sv_Blob := Some b\<rparr>"

definition insertRequest :: "bytes \<Rightarrow> request" where
  "insertRequest b = zeroRequest\<lparr>rq_id := 1, rq_kind := requestQuery, rq_sql := ''q'', rq_args := [blobArg b]\<rparr>"

definition rollbackRequest :: request where
  "rollbackRequest = zeroRequest\<lparr>rq_id := 2, rq_kind := requestRollback, rq_leaseKey := Some ''a''\<rparr>"

definition race_reqs :: "nat \<Rightarrow> request" where
  "race_reqs k = (if k = 0 then insertRequest (replicate 15 7) else rollbackRequest)"

definition race_head :: bytes where
  "race_head = [1, 0, 0, 1, 0, 0, 0, 0, 1, 1, 113, 1, 4, 15]"

definition race_rollback :: bytes where
  "race_rollback = [1, 0, 0, 2, 0, 0, 0, 0, 4, 1, 97]"

lemma le_bytes_4: "le_bytes 4 v = [word_of_nat (v mod 256), word_of_nat (v div 256 mod 256), word_of_nat (v div 256 div 256 mod 256),
    word_of_nat (v div 256 div 256 div 256 mod 256)]"
proof -
  have "(4 :: nat) = Suc (Suc (Suc (Suc 0)))" by simp
  then show ?thesis by (simp only: le_bytes.simps)
qed

lemma insert_encoding:
  assumes "length b = 15"
  shows "encodeRequest (insertRequest b) = Inr (race_head @ b)"
  using assms encodeRequest_schema' [of "insertRequest b"]
  by (simp add: go_request_def insertRequest_def zeroRequest_def request_msg_def blobArg_def sqlNull_def schema_value_def
      maxParameters_def maxValueBytes_def bare_request_def bare_optional_def bare_list_def bare_data_def bare_str_def
      uint_bytes.simps race_head_def le_bytes_4 string_bytes_def)

lemma rollback_encoding: "encodeRequest rollbackRequest = Inr race_rollback"
  using encodeRequest_schema' [of rollbackRequest]
  by (simp add: go_request_def rollbackRequest_def zeroRequest_def request_msg_def maxParameters_def bare_request_def
      bare_optional_def bare_str_def uint_bytes.simps race_rollback_def le_bytes_4 string_bytes_def)

abbreviation race_step :: "sock \<Rightarrow> sock \<Rightarrow> bool" where
  "race_step \<equiv> sock_step defaultMaxFrame race_reqs"

definition race_insert :: bytes where
  "race_insert = race_head @ replicate 15 7"

lemma race_fits: "length race_insert \<le> unat defaultMaxFrame" "length race_rollback \<le> unat defaultMaxFrame"
    "length (race_head @ frame race_rollback) \<le> unat defaultMaxFrame"
  by (simp_all add: race_insert_def race_head_def race_rollback_def frame_def defaultMaxFrame_def)

lemma race_encoded:
  "encodeRequest ((race_reqs 0)\<lparr>rq_id := 1\<rparr>) = Inr race_insert"
  "encodeRequest ((race_reqs 1)\<lparr>rq_id := 2\<rparr>) = Inr race_rollback"
proof -
  have "(race_reqs 0)\<lparr>rq_id := 1\<rparr> = insertRequest (replicate 15 7)" "(race_reqs 1)\<lparr>rq_id := 2\<rparr> = rollbackRequest"
    by (simp_all add: race_reqs_def insertRequest_def rollbackRequest_def)
  then show "encodeRequest ((race_reqs 0)\<lparr>rq_id := 1\<rparr>) = Inr race_insert"
    "encodeRequest ((race_reqs 1)\<lparr>rq_id := 2\<rparr>) = Inr race_rollback"
    by (simp_all add: insert_encoding rollback_encoding race_insert_def)
qed

text \<open>Both requests are registered and the first holds the semaphore.\<close>

definition race_table :: "(u32, nat) waiters" where
  "race_table = \<lparr>wt_next = 2, wt_pending = [1 \<mapsto> Some 0, 2 \<mapsto> Some 1]\<rparr>"

definition race_start :: sock where
  "race_start = newSock\<lparr>sk_table := race_table, sk_phase := (\<lambda>_. Idle)(0 := Writing 1, 1 := Registered 2),
     sk_sem := Some (0, race_insert, frame race_insert)\<rparr>"

lemma race_starts: "race_step\<^sup>*\<^sup>* newSock race_start"
proof -
  define t :: "(u32, nat) waiters" where "t = \<lparr>wt_next = 1, wt_pending = [1 \<mapsto> Some 0]\<rparr>"
  define a where "a = newSock\<lparr>sk_table := t, sk_phase := (sk_phase newSock)(0 := Registered 1)\<rparr>"
  define b where "b = a\<lparr>sk_table := race_table, sk_phase := (sk_phase a)(1 := Registered 2)\<rparr>"
  have first: "addPending noWaiters (0 :: nat) = Some (1, t)"
    by (subst addPending_next) (simp_all add: noWaiters_def t_def)
  have second: "addPending t 1 = Some (2, race_table)"
    by (subst addPending_next) (simp_all add: t_def race_table_def)
  have "race_step newSock a"
    unfolding a_def by (rule sock_step.register) (simp_all add: newSock_def first)
  moreover have "race_step a b"
    unfolding b_def by (rule sock_step.register) (simp_all add: a_def newSock_def second [simplified])
  moreover have "race_step b (b\<lparr>sk_sem := Some (0, race_insert, frame race_insert), sk_phase := (sk_phase b)(0 := Writing 1)\<rparr>)"
    by (rule sock_step.acquire [where reqs = race_reqs and k = 0 and i = 1, OF _ _ race_encoded(1) race_fits(1)])
      (simp_all add: a_def b_def newSock_def)
  moreover have "b\<lparr>sk_sem := Some (0, race_insert, frame race_insert), sk_phase := (sk_phase b)(0 := Writing 1)\<rparr> = race_start"
    by (simp add: a_def b_def race_start_def newSock_def fun_upd_twist)
  ultimately show ?thesis
    by (simp add: converse_rtranclp_into_rtranclp)
qed

lemma race_lengths: "length race_insert = 29" "length (frame race_insert) = 33" "length (frame race_rollback) = 15"
  by (simp_all add: frame_def race_insert_def race_head_def race_rollback_def)

lemma frame_race: "frame (race_head @ frame race_rollback) = take 18 (frame race_insert) @ frame race_rollback"
  by (simp add: frame_def race_insert_def race_head_def race_rollback_def)

text \<open>C33: \<open>writeFrame\<close> releases the write semaphore before its caller closes the client, so another request can write in between. Here
  an \<open>INSERT\<close> fails after part of its frame and a \<open>ROLLBACK\<close> is written next: the peer reads one whole frame, which is the
  encoding of an \<open>INSERT\<close> of bytes that no caller passed.\<close>

theorem socket_torn_frame:
  "\<exists>s b. (sock_step defaultMaxFrame race_reqs)\<^sup>*\<^sup>* newSock s \<and> sk_sent s = [] \<and> \<not> sk_closed s \<and>
     race_reqs 0 = insertRequest (replicate 15 7) \<and> b \<noteq> replicate 15 7 \<and>
     map Inr (frames_in defaultMaxFrame (sk_out s)) = [encodeRequest (insertRequest b)]"
proof -
  define a where "a = race_start\<lparr>sk_sem := Some (0, race_insert, drop 18 (frame race_insert)),
    sk_out := sk_out race_start @ take 18 (frame race_insert)\<rparr>"
  define b where "b = a\<lparr>sk_sem := None, sk_broken := True, sk_phase := (sk_phase a)(0 := WriteFailed 1)\<rparr>"
  define c where "c = b\<lparr>sk_sem := Some (1, race_rollback, frame race_rollback), sk_phase := (sk_phase b)(1 := Writing 2)\<rparr>"
  define d where "d = c\<lparr>sk_sem := Some (1, race_rollback, drop 15 (frame race_rollback)),
    sk_out := sk_out c @ take 15 (frame race_rollback)\<rparr>"
  have "race_step race_start a"
    unfolding a_def by (rule sock_step.put_bytes) (simp_all add: race_start_def newSock_def)
  moreover have "race_step a b"
    unfolding b_def by (rule sock_step.write_fails) (simp_all add: a_def race_start_def)
  moreover have "race_step b c"
    unfolding c_def by (rule sock_step.acquire [where reqs = race_reqs and k = 1 and i = 2, OF _ _ race_encoded(2) race_fits(2)])
      (simp_all add: a_def b_def race_start_def)
  moreover have "race_step c d"
    unfolding d_def by (rule sock_step.put_bytes) (simp_all add: a_def b_def c_def race_start_def newSock_def)
  ultimately have "race_step\<^sup>*\<^sup>* race_start d"
    by (simp add: converse_rtranclp_into_rtranclp)
  with race_starts have run: "race_step\<^sup>*\<^sup>* newSock d" by (rule rtranclp_trans)
  have "sk_out d = frame (race_head @ frame race_rollback)"
    by (simp add: frame_race race_lengths a_def b_def c_def d_def race_start_def newSock_def)
  then have "frames_in defaultMaxFrame (sk_out d) = [race_head @ frame race_rollback]"
    using frames_in_partial [of "sk_out d" "[]" "race_head @ frame race_rollback" defaultMaxFrame] race_fits(3) by simp
  moreover have "encodeRequest (insertRequest (frame race_rollback)) = Inr (race_head @ frame race_rollback)"
    by (rule insert_encoding) (simp add: race_lengths)
  ultimately have read: "map Inr (frames_in defaultMaxFrame (sk_out d)) = [encodeRequest (insertRequest (frame race_rollback))]"
    by simp
  have other: "frame race_rollback \<noteq> replicate 15 7"
    by (rule notI, drule arg_cong [where f = last]) (simp add: frame_def race_rollback_def)
  have "sk_sent d = []" "\<not> sk_closed d" "race_reqs 0 = insertRequest (replicate 15 7)"
    by (simp_all add: a_def b_def c_def d_def race_start_def newSock_def race_reqs_def)
  with run read other show ?thesis
    by (intro exI [where x = d] exI [where x = "frame race_rollback"] conjI)
qed

section \<open>A request that is answered\<close>

definition race_written :: sock where
  "race_written = race_start\<lparr>sk_sem := None, sk_out := frame race_insert, sk_sent := [race_insert],
     sk_phase := (sk_phase race_start)(0 := Waiting 1)\<rparr>"

lemma race_writes: "race_step\<^sup>*\<^sup>* newSock race_written"
proof -
  define a where "a = race_start\<lparr>sk_sem := Some (0, race_insert, drop 33 (frame race_insert)),
    sk_out := sk_out race_start @ take 33 (frame race_insert)\<rparr>"
  have "race_step race_start a"
    unfolding a_def by (rule sock_step.put_bytes) (simp_all add: race_start_def newSock_def)
  moreover have "race_step a (a\<lparr>sk_sem := None, sk_sent := sk_sent a @ [race_insert], sk_phase := (sk_phase a)(0 := Waiting 1)\<rparr>)"
    by (rule sock_step.written) (simp_all add: a_def race_start_def race_lengths)
  moreover have "a\<lparr>sk_sem := None, sk_sent := sk_sent a @ [race_insert], sk_phase := (sk_phase a)(0 := Waiting 1)\<rparr> = race_written"
    by (simp add: a_def race_written_def race_start_def newSock_def race_lengths)
  ultimately have "race_step\<^sup>*\<^sup>* race_start race_written"
    by (simp add: converse_rtranclp_into_rtranclp)
  with race_starts show ?thesis by (rule rtranclp_trans)
qed

theorem socket_frames_whole_witness:
  "(sock_step defaultMaxFrame race_reqs)\<^sup>*\<^sup>* newSock race_written \<and> \<not> sk_broken race_written \<and>
   frames_in defaultMaxFrame (sk_out race_written) = [race_insert]"
proof -
  have s: "\<not> sk_broken race_written" "sk_sent race_written = [race_insert]" "sk_sem race_written = None"
    by (simp_all add: race_written_def race_start_def newSock_def)
  show ?thesis
    using race_writes s socket_frames_whole [OF race_writes s(1)] by simp
qed

lemma race_answers: "\<exists>s. race_step\<^sup>*\<^sup>* newSock s \<and> sk_got s 0 = Some (Delivered (emptyResponse 1))"
proof -
  define a where "a = race_written\<lparr>sk_table := removeWaiter race_table 1, sk_reader := map_option (\<lambda>k. (k, emptyResponse 1)) (Some 0)\<rparr>"
  define b where "b = a\<lparr>sk_reader := None, sk_chan := (sk_chan a)(0 := [Delivered (emptyResponse 1)])\<rparr>"
  define c where "c = b\<lparr>sk_chan := (sk_chan b)(0 := []), sk_got := (sk_got b)(0 \<mapsto> Delivered (emptyResponse 1)),
    sk_phase := (sk_phase b)(0 := Returned 1)\<rparr>"
  have "race_step race_written a"
    unfolding a_def by (rule sock_step.read)
      (simp_all add: race_written_def race_start_def newSock_def takeWaiter_def emptyResponse_def race_table_def)
  moreover have "race_step a b"
    unfolding b_def by (rule sock_step.deliver) (simp_all add: a_def race_written_def race_start_def newSock_def)
  moreover have "race_step b c"
    unfolding c_def by (rule sock_step.receive) (simp_all add: a_def b_def race_written_def race_start_def newSock_def)
  ultimately have "race_step\<^sup>*\<^sup>* race_written c"
    by (simp add: converse_rtranclp_into_rtranclp)
  with race_writes have "race_step\<^sup>*\<^sup>* newSock c" by (rule rtranclp_trans)
  moreover have "sk_got c 0 = Some (Delivered (emptyResponse 1))" by (simp add: c_def)
  ultimately show ?thesis by (intro exI [where x = c] conjI)
qed

theorem socket_one_answer_witness:
  "\<exists>s. (sock_step defaultMaxFrame race_reqs)\<^sup>*\<^sup>* newSock s \<and> sk_got s 0 = Some (Delivered (emptyResponse 1)) \<and>
     sk_chan s 0 = [] \<and> phase_id (sk_phase s 0) = Some (rs_id (emptyResponse 1))"
proof -
  obtain s where s: "race_step\<^sup>*\<^sup>* newSock s" "sk_got s 0 = Some (Delivered (emptyResponse 1))"
    using race_answers by (elim exE conjE)
  have "sk_chan s 0 = []" "phase_id (sk_phase s 0) = Some (rs_id (emptyResponse 1))"
    using socket_one_answer [OF s(1)] s(2) by blast+
  with s show ?thesis by (intro exI [where x = s] conjI)
qed

section \<open>The functions and the steps\<close>

text \<open>
  A call of \<open>writeFrame\<close> writes a prefix of the frame, and the whole of it exactly when both calls of \<open>writeAll\<close> succeed: the writes
  of a holder of the semaphore in the step relation above.
\<close>

lemma writeAll_prefix:
  "writeAll results data = (r, out) \<Longrightarrow> (\<exists>left. out @ left = data) \<and> (r = Some None \<longrightarrow> out = data)"
proof (induction results data arbitrary: r out rule: writeAll.induct)
  case (3 written err results b data)
  let ?data = "b # data"
  show ?case
  proof (cases "err = None \<and> written \<noteq> 0")
    case True
    then obtain out' where out: "writeAll results (drop written ?data) = (r, out')" "out = take written ?data @ out'"
      using 3(2) by (auto split: prod.splits)
    then obtain left where "out' @ left = drop written ?data" "r = Some None \<longrightarrow> out' = drop written ?data"
      using 3(1) True by blast
    then show ?thesis unfolding out(2) by (metis append.assoc append_take_drop_id)
  next
    case False
    then show ?thesis
      using 3(2) append_take_drop_id [of written ?data] by (cases err) auto
  qed
qed auto

lemma writeFrame_prefix:
  assumes "writeFrame world payload = (r, out)"
  shows "(\<exists>left. out @ left = frame payload) \<and>
    (r = Some (True, None) \<longrightarrow> out = frame payload) \<and> (\<forall>e. r = Some (False, e) \<longrightarrow> out = [] \<and> e \<noteq> None)"
proof -
  obtain r1 out1 where w1: "writeAll (ww_header world) (be_bytes 4 (length payload)) = (r1, out1)" by force
  obtain r2 out2 where w2: "writeAll (ww_payload world) payload = (r2, out2)" by force
  obtain left1 left2 where left: "out1 @ left1 = be_bytes 4 (length payload)" "out2 @ left2 = payload"
    using writeAll_prefix [OF w1] writeAll_prefix [OF w2] by blast
  have whole: "r1 = Some None \<longrightarrow> out1 = be_bytes 4 (length payload)" "r2 = Some None \<longrightarrow> out2 = payload"
    using writeAll_prefix [OF w1] writeAll_prefix [OF w2] by blast+
  have "out \<in> {[], out1} \<or> r1 = Some None \<and> out = out1 @ out2"
    using assms by (auto simp: writeFrame_def w1 w2 split: if_splits sem_arm.splits option.splits)
  moreover have "out1 @ left1 @ payload = frame payload" "r1 = Some None \<Longrightarrow> (out1 @ out2) @ left2 = frame payload"
    using left whole(1) unfolding frame_def by (metis append.assoc)+
  ultimately have "\<exists>left. out @ left = frame payload"
    by (elim disjE insertE emptyE conjE) auto
  moreover have "r = Some (True, None) \<longrightarrow> r1 = Some None \<and> r2 = Some None \<and> out = out1 @ out2"
    "\<forall>e. r = Some (False, e) \<longrightarrow> out = [] \<and> e \<noteq> None"
    using assms by (auto simp: writeFrame_def w1 w2 split: if_splits sem_arm.splits option.splits)
  ultimately show ?thesis using whole by (simp add: frame_def)
qed

text \<open>A request that may write and whose frame is out is settled by its answer or by the end of the client, never by its context alone.\<close>

lemma socketLoop_write:
  "socketLoop True c signals = Some (r, abandons) \<Longrightarrow>
   \<not> abandons \<and> (SocketClosedSignal \<in> set signals \<or> (\<exists>d. SocketResponse d \<in> set signals \<and> (isl r \<or> r = delivered d)))"
  by (induction True c signals rule: socketLoop.induct) (auto split: if_splits option.splits sum.splits)

end
