(* ===== verification/Db_Handle.thy ===== *)
theory Db_Handle
  imports Socket_Client
begin

text \<open>
  The database handle of an actor generation (\<open>rivet/sqlite.go\<close>): arguments and rows, the public errors, the two transports, and
  the lifecycle of \<open>DB\<close> with its operations, transactions and fences. The first part has one function per Go function and one per
  critical section of the lifecycle lock. The second part runs any number of operations against sleep and close.
\<close>

section \<open>Errors\<close>

record SQLiteError =
  se_Code :: string
  se_Message :: string
  se_SQLiteCode :: i32
  se_StatementIndex :: u32

definition sqliteFailure :: "string \<Rightarrow> string \<Rightarrow> SQLiteError" where
  "sqliteFailure code message = \<lparr>se_Code = code, se_Message = message, se_SQLiteCode = 0, se_StatementIndex = 0\<rparr>"

datatype db_error =
    DbContextNil
  | DbContext ctx_error
  | DbSQLite SQLiteError

definition SQLiteError_Error :: "SQLiteError option \<Rightarrow> string" where
  "SQLiteError_Error e =
     (case e of
        None \<Rightarrow> []
      | Some e \<Rightarrow> if se_Code e = [] then se_Message e else se_Code e @ '': '' @ se_Message e)"

text \<open>What \<open>errors.Is\<close>, \<open>errors.As\<close>, the type switch and \<open>Error()\<close> see of an error.\<close>

record go_err =
  ge_canceled :: bool
  ge_deadline :: bool
  ge_sqlite :: "SQLiteError option"
  ge_wire :: "WireError option"
  ge_text :: string

definition publicError :: "go_err \<Rightarrow> db_error" where
  "publicError e =
     (if ge_canceled e then DbContext CtxCanceled
      else if ge_deadline e then DbContext CtxDeadlineExceeded
      else case ge_sqlite e of
        Some s \<Rightarrow> DbSQLite s
      | None \<Rightarrow>
          (case ge_wire e of
             Some value \<Rightarrow> DbSQLite \<lparr>se_Code = we_Code value, se_Message = we_Message value,
               se_SQLiteCode = (case we_SQLiteCode value of Some c \<Rightarrow> c | None \<Rightarrow> 0),
               se_StatementIndex = (case we_StatementIndex value of Some i \<Rightarrow> i | None \<Rightarrow> 0)\<rparr>
           | None \<Rightarrow> DbSQLite (sqliteFailure ''sqlite_transport_error'' (ge_text e))))"

definition publicSQLiteError :: "go_err option \<Rightarrow> db_error option" where
  "publicSQLiteError err = map_option publicError err"

definition disabledFailure :: "string \<Rightarrow> string \<Rightarrow> SQLiteError" where
  "disabledFailure code message =
     sqliteFailure (if code = [] then ''sqlite_transport_not_configured'' else code)
       (if message = [] then ''set Database: true on the actor and ensure rivet.Config.SQLiteTransport is not disabled'' else message)"

definition sqliteUnavailableError :: db_error where
  "sqliteUnavailableError = DbSQLite (disabledFailure [] [])"

definition sqliteClosedError :: db_error where
  "sqliteClosedError = DbSQLite (sqliteFailure ''sqlite_endpoint_closed'' ''actor SQLite handle is closed for this generation'')"

definition terminalError :: db_error where
  "terminalError = DbSQLite (sqliteFailure ''invalid_lease_key'' ''SQLite transaction is terminal'')"

definition expectedCloseRollbackError :: "db_error option \<Rightarrow> bool" where
  "expectedCloseRollbackError err =
     (case err of
        None \<Rightarrow> True
      | Some (DbSQLite e) \<Rightarrow> se_Code e = ''transaction_expired'' \<or> se_Code e = ''invalid_lease_key''
      | Some _ \<Rightarrow> False)"

section \<open>Transports\<close>

type_synonym SQLiteTransport = string

definition SQLiteTransportFFI :: SQLiteTransport where "SQLiteTransportFFI = ''ffi''"
definition SQLiteTransportSocket :: SQLiteTransport where "SQLiteTransportSocket = ''socket''"
definition SQLiteTransportDisabled :: SQLiteTransport where "SQLiteTransportDisabled = ''disabled''"

lemmas transport_defs = SQLiteTransportFFI_def SQLiteTransportSocket_def SQLiteTransportDisabled_def

definition validateSQLiteTransport :: "SQLiteTransport \<Rightarrow> bool" where
  "validateSQLiteTransport transport \<longleftrightarrow>
     transport = SQLiteTransportFFI \<or> transport = SQLiteTransportSocket \<or> transport = SQLiteTransportDisabled"

definition wireSQLiteTransport :: "SQLiteTransport \<Rightarrow> string" where
  "wireSQLiteTransport transport = (if transport = SQLiteTransportDisabled then [] else transport)"

definition resolveSQLiteTransport :: "SQLiteTransport \<Rightarrow> string \<Rightarrow> SQLiteTransport" where
  "resolveSQLiteTransport configured envOverride =
     (let configured = (if envOverride \<noteq> [] then envOverride else configured)
      in if configured = [] then SQLiteTransportFFI else configured)"

datatype backend_kind = FfiBackend | SocketBackend | DisabledBackend

text \<open>The backend that \<open>newDB\<close> chooses. \<open>dial\<close> is the error of \<open>sqlitesocket.Dial\<close>, if any.\<close>

definition newDB :: "bool \<Rightarrow> bool \<Rightarrow> SQLiteTransport \<Rightarrow> string \<Rightarrow> string option \<Rightarrow> db_error + backend_kind" where
  "newDB session enabled transport socketPath dial =
     (if \<not> session \<or> \<not> enabled then Inr DisabledBackend
      else if transport = SQLiteTransportFFI then Inr FfiBackend
      else if transport = SQLiteTransportSocket then
        (if socketPath = [] then
           Inl (DbSQLite (sqliteFailure ''sqlite_socket_unavailable'' ''ActorStart did not include a socket endpoint''))
         else case dial of
           Some e \<Rightarrow> Inl (DbSQLite (sqliteFailure ''sqlite_socket_connect_failed'' e))
         | None \<Rightarrow> Inr SocketBackend)
      else Inr DisabledBackend)"


section \<open>Arguments and rows\<close>

definition maxSQLiteSQLBytes :: nat where "maxSQLiteSQLBytes = 2 ^ 20"
definition maxSQLiteArguments :: nat where "maxSQLiteArguments = 1024"
definition maxSQLiteValueBytes :: nat where "maxSQLiteValueBytes = 2 ^ 20"

definition validateSQLiteSQL :: "string \<Rightarrow> db_error + unit" where
  "validateSQLiteSQL sql =
     (if sql = [] then Inl (DbSQLite (sqliteFailure ''sqlite_sql_empty'' ''SQL must not be empty''))
      else if length sql > maxSQLiteSQLBytes then
        Inl (DbSQLite (sqliteFailure ''sqlite_sql_too_large'' ''SQL exceeds the 1 MiB limit''))
      else if \<not> utf8_valid (string_bytes sql) then
        Inl (DbSQLite (sqliteFailure ''sqlite_sql_invalid_utf8'' ''SQL must be valid UTF-8''))
      else Inr ())"

definition validateSQLiteContext :: "go_context option \<Rightarrow> db_error + unit" where
  "validateSQLiteContext ctx =
     (case ctx of
        None \<Rightarrow> Inl DbContextNil
      | Some c \<Rightarrow> (case gc_err c of Some e \<Rightarrow> Inl (DbContext e) | None \<Rightarrow> Inr ()))"

text \<open>A Go value of type \<open>any\<close>: a \<open>float64\<close> is its bits, a \<open>[]byte\<close> may be nil, and any other type is known by its name.\<close>

datatype any =
    AnyNil
  | AnyInt64 i64
  | AnyFloat64 u64
  | AnyString string
  | AnyBytes "bytes option"
  | AnyOther string

definition argumentError :: "string \<Rightarrow> nat \<Rightarrow> string \<Rightarrow> db_error" where
  "argumentError code index rest' = DbSQLite (sqliteFailure code (''argument '' @ decimal index @ rest'))"

definition encodeSQLiteArg :: "nat \<Rightarrow> any \<Rightarrow> db_error + SQLiteValue" where
  "encodeSQLiteArg index arg =
     (case arg of
        AnyNil \<Rightarrow> Inr sqlNull
      | AnyInt64 v \<Rightarrow> Inr (sqlNull\<lparr>sv_Kind := ''integer'', sv_Integer := Some v\<rparr>)
      | AnyFloat64 bits \<Rightarrow> Inr (sqlNull\<lparr>sv_Kind := ''real'', sv_Bits := Some bits\<rparr>)
      | AnyString v \<Rightarrow>
          if length v > maxSQLiteValueBytes then
            Inl (argumentError ''sqlite_argument_too_large'' index '' exceeds the 1 MiB value limit'')
          else if \<not> utf8_valid (string_bytes v) then
            Inl (argumentError ''sqlite_argument_invalid_utf8'' index '' text must be valid UTF-8'')
          else Inr (sqlNull\<lparr>sv_Kind := ''text'', sv_Text := Some v\<rparr>)
      | AnyBytes v \<Rightarrow>
          if blen v > maxSQLiteValueBytes then
            Inl (argumentError ''sqlite_argument_too_large'' index '' exceeds the 1 MiB value limit'')
          else Inr (sqlNull\<lparr>sv_Kind := ''blob'', sv_Blob := Some (the_bytes v)\<rparr>)
      | AnyOther t \<Rightarrow>
          Inl (argumentError ''sqlite_argument_type'' index
            ('' has unsupported Go type '' @ t @ ''; use nil, int64, float64, string, or []byte'')))"

fun encodeArgsFrom :: "nat \<Rightarrow> any list \<Rightarrow> db_error + SQLiteValue list" where
  "encodeArgsFrom index [] = Inr []"
| "encodeArgsFrom index (arg # args) =
     bindR (encodeSQLiteArg index arg) (\<lambda>v. bindR (encodeArgsFrom (Suc index) args) (\<lambda>vs. Inr (v # vs)))"

definition encodeSQLiteArgs :: "any list \<Rightarrow> db_error + SQLiteValue list" where
  "encodeSQLiteArgs args =
     (if length args > maxSQLiteArguments then
        Inl (DbSQLite (sqliteFailure ''sqlite_too_many_arguments'' ''SQLite arguments exceed the 1024-value limit''))
      else encodeArgsFrom 0 args)"

definition resultInvalid :: "string \<Rightarrow> db_error" where
  "resultInvalid message = DbSQLite (sqliteFailure ''sqlite_result_invalid'' message)"

text \<open>\<open>quote\<close> stands for the verb \<open>%q\<close> of package \<open>fmt\<close>. An empty blob is returned as a nil slice.\<close>

definition decodeSQLiteValue :: "(string \<Rightarrow> string) \<Rightarrow> SQLiteValue \<Rightarrow> db_error + any" where
  "decodeSQLiteValue quote value =
     (let invalid = Inl (resultInvalid (''invalid SQLite value kind '' @ quote (sv_Kind value))) in
      if sv_Kind value = ''null'' then Inr AnyNil
      else if sv_Kind value = ''integer'' then (case sv_Integer value of Some v \<Rightarrow> Inr (AnyInt64 v) | None \<Rightarrow> invalid)
      else if sv_Kind value = ''real'' then (case sv_Bits value of Some v \<Rightarrow> Inr (AnyFloat64 v) | None \<Rightarrow> invalid)
      else if sv_Kind value = ''text'' then (case sv_Text value of Some v \<Rightarrow> Inr (AnyString v) | None \<Rightarrow> invalid)
      else if sv_Kind value = ''blob'' then (case sv_Blob value of Some v \<Rightarrow> Inr (AnyBytes (appendNil (Some v))) | None \<Rightarrow> invalid)
      else invalid)"

fun decodeRow :: "(string \<Rightarrow> string) \<Rightarrow> SQLiteValue list \<Rightarrow> db_error + any list" where
  "decodeRow quote [] = Inr []"
| "decodeRow quote (v # vs) = bindR (decodeSQLiteValue quote v) (\<lambda>a. bindR (decodeRow quote vs) (\<lambda>as. Inr (a # as)))"

function decodeRowsFrom :: "(string \<Rightarrow> string) \<Rightarrow> nat \<Rightarrow> SQLiteValue list \<Rightarrow> db_error + any list list" where
  "decodeRowsFrom quote columns values =
     (if values = [] \<or> columns = 0 then Inr []
      else bindR (decodeRow quote (take columns values)) (\<lambda>row.
        bindR (decodeRowsFrom quote columns (drop columns values)) (\<lambda>rows. Inr (row # rows))))"
  by pat_completeness auto
termination
  by (relation "measure (\<lambda>(_, _, values). length values)") auto

declare decodeRowsFrom.simps [simp del]

record Rows =
  ro_Columns :: "string list"
  ro_Values :: "any list list"

definition decodeSQLiteRows :: "(string \<Rightarrow> string) \<Rightarrow> string list \<Rightarrow> SQLiteValue list \<Rightarrow> db_error + Rows" where
  "decodeSQLiteRows quote columns values =
     (if columns = [] then
        (if values \<noteq> [] then Inl (resultInvalid ''result has values without columns'')
         else Inr \<lparr>ro_Columns = [], ro_Values = []\<rparr>)
      else if length values mod length columns \<noteq> 0 then Inl (resultInvalid ''result is not rectangular'')
      else bindR (decodeRowsFrom quote (length columns) values) (\<lambda>rows. Inr \<lparr>ro_Columns = columns, ro_Values = rows\<rparr>))"

record db_result =
  dr_RowsAffected :: i64
  dr_LastInsertID :: i64

definition pointerValue :: "i64 option \<Rightarrow> i64" where
  "pointerValue value = (case value of Some v \<Rightarrow> v | None \<Rightarrow> 0)"


section \<open>Backends\<close>

text \<open>\<open>view\<close> is what the errors of the session, or of the socket client, look like to \<open>publicSQLiteError\<close>.\<close>

definition publicResult :: "('e \<Rightarrow> go_err) \<Rightarrow> 'e + 'a \<Rightarrow> db_error + 'a" where
  "publicResult view = mapErr (\<lambda>e. publicError (view e))"

definition ffi_exec :: "(go_error \<Rightarrow> go_err) \<Rightarrow> sqlite_call \<Rightarrow> string \<Rightarrow> SQLiteValue list \<Rightarrow> string option \<Rightarrow> db_error + db_result" where
  "ffi_exec view call sql args leaseKey =
     bindR (publicResult view (SQLiteExec call sql args leaseKey)) (\<lambda>response.
       Inr \<lparr>dr_RowsAffected = sr_RowsAffected response, dr_LastInsertID = pointerValue (sr_LastInsertID response)\<rparr>)"

definition ffi_query ::
  "(go_error \<Rightarrow> go_err) \<Rightarrow> (string \<Rightarrow> string) \<Rightarrow> sqlite_call \<Rightarrow> string \<Rightarrow> SQLiteValue list \<Rightarrow> string option \<Rightarrow> db_error + Rows" where
  "ffi_query view quote call sql args leaseKey =
     bindR (publicResult view (SQLiteQuery call sql args leaseKey)) (\<lambda>response.
       decodeSQLiteRows quote (sr_Columns response) (sr_Values response))"

definition ffi_begin :: "(go_error \<Rightarrow> go_err) \<Rightarrow> sqlite_call \<Rightarrow> string \<Rightarrow> int \<Rightarrow> db_error + unit" where
  "ffi_begin view call leaseKey timeout = publicResult view (SQLiteBegin call leaseKey timeout)"

definition ffi_commit :: "(go_error \<Rightarrow> go_err) \<Rightarrow> sqlite_call \<Rightarrow> string \<Rightarrow> db_error + unit" where
  "ffi_commit view call leaseKey = publicResult view (SQLiteCommit call leaseKey)"

definition ffi_rollback :: "(go_error \<Rightarrow> go_err) \<Rightarrow> sqlite_call \<Rightarrow> string \<Rightarrow> db_error + unit" where
  "ffi_rollback view call leaseKey = publicResult view (SQLiteRollback call leaseKey)"

definition socket_exec ::
  "(socket_error \<Rightarrow> go_err) \<Rightarrow> socket_call \<Rightarrow> string \<Rightarrow> SQLiteValue list \<Rightarrow> string option \<Rightarrow> db_error + db_result" where
  "socket_exec view call sql args leaseKey =
     bindR (publicResult view (Client_Exec call sql args leaseKey)) (\<lambda>response.
       Inr \<lparr>dr_RowsAffected = so_RowsAffected response, dr_LastInsertID = pointerValue (so_LastInsertID response)\<rparr>)"

definition socket_query ::
  "(socket_error \<Rightarrow> go_err) \<Rightarrow> (string \<Rightarrow> string) \<Rightarrow> socket_call \<Rightarrow> string \<Rightarrow> SQLiteValue list \<Rightarrow> string option \<Rightarrow> db_error + Rows" where
  "socket_query view quote call sql args leaseKey =
     bindR (publicResult view (Client_Query call sql args leaseKey)) (\<lambda>response.
       decodeSQLiteRows quote (so_Columns response) (so_Values response))"

definition socket_begin :: "(socket_error \<Rightarrow> go_err) \<Rightarrow> socket_call \<Rightarrow> string \<Rightarrow> int \<Rightarrow> db_error + unit" where
  "socket_begin view call leaseKey timeout = publicResult view (Client_Begin call leaseKey timeout)"

definition socket_commit :: "(socket_error \<Rightarrow> go_err) \<Rightarrow> socket_call \<Rightarrow> string \<Rightarrow> db_error + unit" where
  "socket_commit view call leaseKey = publicResult view (Client_Commit call leaseKey)"

definition socket_rollback :: "(socket_error \<Rightarrow> go_err) \<Rightarrow> socket_call \<Rightarrow> string \<Rightarrow> db_error + unit" where
  "socket_rollback view call leaseKey = publicResult view (Client_Rollback call leaseKey)"

section \<open>What arguments survive\<close>

text \<open>A nil and an empty \<open>[]byte\<close> are the same value to SQLite.\<close>

definition same_any :: "any \<Rightarrow> any" where
  "same_any a = (case a of AnyBytes v \<Rightarrow> AnyBytes (appendNil v) | _ \<Rightarrow> a)"

lemma encodeSQLiteArg_cases:
  assumes "encodeSQLiteArg index a = Inr v"
  obtains "a = AnyNil" "v = sqlNull"
  | n where "a = AnyInt64 n" "v = sqlNull\<lparr>sv_Kind := ''integer'', sv_Integer := Some n\<rparr>"
  | n where "a = AnyFloat64 n" "v = sqlNull\<lparr>sv_Kind := ''real'', sv_Bits := Some n\<rparr>"
  | t where "a = AnyString t" "length t \<le> maxSQLiteValueBytes" "v = sqlNull\<lparr>sv_Kind := ''text'', sv_Text := Some t\<rparr>"
  | b where "a = AnyBytes b" "blen b \<le> maxSQLiteValueBytes" "v = sqlNull\<lparr>sv_Kind := ''blob'', sv_Blob := Some (the_bytes b)\<rparr>"
  using assms by (cases a) (auto simp: encodeSQLiteArg_def not_less split: if_splits)

lemma encodeSQLiteArg_sound:
  assumes "encodeSQLiteArg index a = Inr v"
  shows "decodeSQLiteValue quote v = Inr (same_any a)" "schema_value v \<noteq> None"
proof -
  have limit: "maxSQLiteValueBytes = maxValueBytes" by (simp add: maxSQLiteValueBytes_def maxValueBytes_def)
  show "decodeSQLiteValue quote v = Inr (same_any a)"
    using assms by (cases rule: encodeSQLiteArg_cases)
      (simp_all add: decodeSQLiteValue_def same_any_def sqlNull_def appendNil_def the_bytes_def split: option.splits)
  show "schema_value v \<noteq> None"
    using assms by (cases rule: encodeSQLiteArg_cases)
      (simp_all add: schema_value_def sqlNull_def limit the_bytes_def blen_def split: option.splits)
qed

lemma encodeArgsFrom_sound:
  "encodeArgsFrom index args = Inr encoded \<Longrightarrow>
   length encoded = length args \<and> decodeRow quote encoded = Inr (map same_any args) \<and> those (map schema_value encoded) \<noteq> None"
proof (induction args arbitrary: index encoded)
  case (Cons a args)
  then obtain v vs where v: "encodeSQLiteArg index a = Inr v" "encodeArgsFrom (Suc index) args = Inr vs" "encoded = v # vs"
    by (auto simp: bindR_eq_Inr)
  with encodeSQLiteArg_sound [OF v(1)] Cons.IH [OF v(2)] show ?case by auto
qed simp



end
