(* ===== verification/Db_Lifecycle.thy ===== *)
theory Db_Lifecycle
  imports Db_Handle
begin

text \<open>
  The lifecycle of \<open>DB\<close> in \<open>rivet/sqlite.go\<close>. A transaction is known by the number its lease key is made of. Each critical section
  under \<open>lifecycleMu\<close> is a function on the record \<open>DB\<close>, which also holds the \<open>terminal\<close> flags of the transactions. The methods of
  \<open>DB\<close> and of its transactions are composed from these sections; the step relation interleaves them with the fences for sleep,
  stop and destroy and with a core that grants, ends and expires leases.
\<close>

section \<open>Critical sections\<close>

record DB =
  db_closing :: bool
  db_sleepPrepared :: bool
  db_active :: int
  db_beginning :: bool
  db_transactions :: "nat set"
  db_terminal :: "nat set"

definition makeDB :: DB where
  "makeDB = \<lparr>db_closing = False, db_sleepPrepared = False, db_active = 0, db_beginning = False, db_transactions = {}, db_terminal = {}\<rparr>"

definition fenced :: "DB \<Rightarrow> bool" where
  "fenced d \<longleftrightarrow> db_closing d \<or> db_sleepPrepared d"

definition beginOperation :: "DB option \<Rightarrow> db_error + DB" where
  "beginOperation d =
     (case d of
        None \<Rightarrow> Inl sqliteUnavailableError
      | Some d \<Rightarrow> if fenced d then Inl sqliteClosedError else Inr (d\<lparr>db_active := db_active d + 1\<rparr>))"

text \<open>\<open>finishOperation\<close> also says whether it wakes the drains that wait for the last operation.\<close>

definition finishOperation :: "DB \<Rightarrow> DB \<times> bool" where
  "finishOperation d = (let d = d\<lparr>db_active := db_active d - 1\<rparr> in (d, db_active d = 0))"

definition unregisterTransaction :: "nat \<Rightarrow> DB \<Rightarrow> DB" where
  "unregisterTransaction l d = d\<lparr>db_transactions := db_transactions d - {l}\<rparr>"

definition claimBeginning :: "DB \<Rightarrow> db_error + DB" where
  "claimBeginning d =
     (if db_beginning d \<or> db_transactions d \<noteq> {} then
        Inl (DbSQLite (sqliteFailure ''transaction_already_open'' ''actor SQLite database already has an open transaction''))
      else Inr (d\<lparr>db_beginning := True\<rparr>))"

definition endBeginning :: "DB \<Rightarrow> DB" where
  "endBeginning d = d\<lparr>db_beginning := False\<rparr>"

definition registerTransaction :: "nat \<Rightarrow> DB \<Rightarrow> DB option" where
  "registerTransaction l d = (if fenced d then None else Some (d\<lparr>db_transactions := insert l (db_transactions d)\<rparr>))"

text \<open>\<open>terminal.CompareAndSwap(false, true)\<close>.\<close>

definition claimTerminal :: "nat \<Rightarrow> DB \<Rightarrow> DB option" where
  "claimTerminal l d = (if l \<in> db_terminal d then None else Some (d\<lparr>db_terminal := insert l (db_terminal d)\<rparr>))"

text \<open>The first part of \<open>prepareForSleep\<close>: no result when the database is fenced for sleep already.\<close>

definition fenceForSleep :: "DB \<Rightarrow> db_error + (DB \<times> nat set) option" where
  "fenceForSleep d =
     (if db_closing d then Inl sqliteClosedError
      else if db_sleepPrepared d then Inr None
      else Inr (Some (d\<lparr>db_sleepPrepared := True\<rparr>, db_transactions d)))"

definition resumeAfterSleepFailure :: "DB \<Rightarrow> DB" where
  "resumeAfterSleepFailure d = (if db_closing d then d else d\<lparr>db_sleepPrepared := False\<rparr>)"

definition fenceForClose :: "DB \<Rightarrow> DB \<times> nat set" where
  "fenceForClose d = (d\<lparr>db_closing := True\<rparr>, db_transactions d)"

lemmas db_sections = beginOperation_def finishOperation_def unregisterTransaction_def claimBeginning_def endBeginning_def
  registerTransaction_def claimTerminal_def fenceForSleep_def resumeAfterSleepFailure_def fenceForClose_def Let_def


section \<open>Methods\<close>

text \<open>
  A call of the backend is a function of the handle when it starts; it returns the handle when it ends, with what other goroutines
  have done to it in between.
\<close>

type_synonym 'r db_call = "DB \<Rightarrow> (db_error + 'r) \<times> DB"

definition operation :: "'r db_call \<Rightarrow> DB option \<Rightarrow> (db_error + 'r) \<times> DB option" where
  "operation body d =
     (case beginOperation d of
        Inl e \<Rightarrow> (Inl e, d)
      | Inr d \<Rightarrow> (case body d of (r, d) \<Rightarrow> (r, Some (fst (finishOperation d)))))"

definition checkedArgs :: "go_context option \<Rightarrow> string \<Rightarrow> any list \<Rightarrow> db_error + SQLiteValue list" where
  "checkedArgs ctx sql args =
     bindR (validateSQLiteContext ctx) (\<lambda>_. bindR (validateSQLiteSQL sql) (\<lambda>_. encodeSQLiteArgs args))"

definition DB_Exec ::
  "(string \<Rightarrow> SQLiteValue list \<Rightarrow> string option \<Rightarrow> db_result db_call) \<Rightarrow> DB option \<Rightarrow> go_context option \<Rightarrow> string \<Rightarrow> any list \<Rightarrow>
   (db_error + db_result) \<times> DB option" where
  "DB_Exec exec d ctx sql args =
     (if d = None then (Inl sqliteUnavailableError, d)
      else case checkedArgs ctx sql args of
        Inl e \<Rightarrow> (Inl e, d)
      | Inr encoded \<Rightarrow> operation (exec sql encoded None) d)"

definition DB_Query ::
  "(string \<Rightarrow> SQLiteValue list \<Rightarrow> string option \<Rightarrow> Rows db_call) \<Rightarrow> DB option \<Rightarrow> go_context option \<Rightarrow> string \<Rightarrow> any list \<Rightarrow>
   (db_error + Rows) \<times> DB option" where
  "DB_Query query d ctx sql args =
     (if d = None then (Inl sqliteUnavailableError, d)
      else case checkedArgs ctx sql args of
        Inl e \<Rightarrow> (Inl e, d)
      | Inr encoded \<Rightarrow> operation (query sql encoded None) d)"

definition hexDigit :: "nat \<Rightarrow> char" where
  "hexDigit n = char_of (if n < 10 then 48 + n else 87 + n)"

fun hexDigits :: "nat \<Rightarrow> nat \<Rightarrow> string" where
  "hexDigits 0 n = []"
| "hexDigits (Suc k) n = hexDigits k (n div 16) @ [hexDigit (n mod 16)]"

definition leaseKey :: "nat \<Rightarrow> string" where
  "leaseKey l = ''go-'' @ hexDigits 16 l"

definition defaultSQLiteLeaseTimeout :: int where
  "defaultSQLiteLeaseTimeout = 60000 * millisecond"

text \<open>\<open>Begin\<close> after its checks, with the next number of the lease sequence.\<close>

definition beginTransaction ::
  "nat \<Rightarrow> (string \<Rightarrow> int \<Rightarrow> unit db_call) \<Rightarrow> (string \<Rightarrow> unit db_call) \<Rightarrow> int \<Rightarrow> nat db_call" where
  "beginTransaction l begin' rollback timeout d =
     (case claimBeginning d of
        Inl e \<Rightarrow> (Inl e, d)
      | Inr d \<Rightarrow>
          (case begin' (leaseKey l) timeout d of
             (Inl e, d) \<Rightarrow> (Inl e, endBeginning d)
           | (Inr _, d) \<Rightarrow>
               (case registerTransaction l d of
                  Some d \<Rightarrow> (Inr l, endBeginning d)
                | None \<Rightarrow>
                    (case rollback (leaseKey l) d of
                       (_, d) \<Rightarrow> (Inl sqliteClosedError, endBeginning (d\<lparr>db_terminal := insert l (db_terminal d)\<rparr>))))))"

definition DB_Begin ::
  "nat \<Rightarrow> (string \<Rightarrow> int \<Rightarrow> unit db_call) \<Rightarrow> (string \<Rightarrow> unit db_call) \<Rightarrow> DB option \<Rightarrow> go_context option \<Rightarrow>
   (db_error + nat) \<times> DB option" where
  "DB_Begin l begin' rollback d ctx =
     (if d = None then (Inl sqliteUnavailableError, d)
      else case validateSQLiteContext ctx of
        Inl e \<Rightarrow> (Inl e, d)
      | Inr _ \<Rightarrow>
          let timeout = (case ctx of Some c \<Rightarrow> (case gc_remaining c of Some t \<Rightarrow> t | None \<Rightarrow> defaultSQLiteLeaseTimeout)
                                   | None \<Rightarrow> defaultSQLiteLeaseTimeout)
          in if timeout \<le> 0 then (Inl (DbContext CtxDeadlineExceeded), d)
             else operation (beginTransaction l begin' rollback timeout) d)"

text \<open>A transaction handle may be nil; its methods share the admission of its database.\<close>

definition Tx_Exec ::
  "nat option \<Rightarrow> (string \<Rightarrow> SQLiteValue list \<Rightarrow> string option \<Rightarrow> db_result db_call) \<Rightarrow> DB option \<Rightarrow> go_context option \<Rightarrow> string \<Rightarrow>
   any list \<Rightarrow> (db_error + db_result) \<times> DB option" where
  "Tx_Exec tx exec d ctx sql args =
     (case tx of
        None \<Rightarrow> (Inl terminalError, d)
      | Some l \<Rightarrow>
          (case checkedArgs ctx sql args of
             Inl e \<Rightarrow> (Inl e, d)
           | Inr encoded \<Rightarrow>
               operation (\<lambda>d. if l \<in> db_terminal d then (Inl terminalError, d) else exec sql encoded (Some (leaseKey l)) d) d))"

definition Tx_Query ::
  "nat option \<Rightarrow> (string \<Rightarrow> SQLiteValue list \<Rightarrow> string option \<Rightarrow> Rows db_call) \<Rightarrow> DB option \<Rightarrow> go_context option \<Rightarrow> string \<Rightarrow>
   any list \<Rightarrow> (db_error + Rows) \<times> DB option" where
  "Tx_Query tx query d ctx sql args =
     (case tx of
        None \<Rightarrow> (Inl terminalError, d)
      | Some l \<Rightarrow>
          (case checkedArgs ctx sql args of
             Inl e \<Rightarrow> (Inl e, d)
           | Inr encoded \<Rightarrow>
               operation (\<lambda>d. if l \<in> db_terminal d then (Inl terminalError, d) else query sql encoded (Some (leaseKey l)) d) d))"

definition endTransaction :: "nat \<Rightarrow> (string \<Rightarrow> unit db_call) \<Rightarrow> unit db_call" where
  "endTransaction l finish d =
     (case claimTerminal l d of
        None \<Rightarrow> (Inl terminalError, d)
      | Some d \<Rightarrow> (case finish (leaseKey l) d of (r, d) \<Rightarrow> (r, unregisterTransaction l d)))"

definition Tx_Commit :: "nat option \<Rightarrow> (string \<Rightarrow> unit db_call) \<Rightarrow> DB option \<Rightarrow> go_context option \<Rightarrow> (db_error + unit) \<times> DB option" where
  "Tx_Commit tx commit d ctx =
     (case tx of
        None \<Rightarrow> (Inl terminalError, d)
      | Some l \<Rightarrow>
          (case validateSQLiteContext ctx of Inl e \<Rightarrow> (Inl e, d) | Inr _ \<Rightarrow> operation (endTransaction l commit) d))"

definition Tx_Rollback :: "nat option \<Rightarrow> (string \<Rightarrow> unit db_call) \<Rightarrow> DB option \<Rightarrow> go_context option \<Rightarrow> (db_error + unit) \<times> DB option" where
  "Tx_Rollback tx rollback d ctx =
     (case tx of
        None \<Rightarrow> (Inl terminalError, d)
      | Some l \<Rightarrow>
          (case validateSQLiteContext ctx of Inl e \<Rightarrow> (Inl e, d) | Inr _ \<Rightarrow> operation (endTransaction l rollback) d))"

section \<open>Fences\<close>

fun drainTransactions :: "(string \<Rightarrow> unit db_call) \<Rightarrow> nat list \<Rightarrow> DB \<Rightarrow> db_error list \<times> DB" where
  "drainTransactions rollback [] d = ([], d)"
| "drainTransactions rollback (l # ls) d =
     (case claimTerminal l d of
        None \<Rightarrow> drainTransactions rollback ls d
      | Some d \<Rightarrow>
          (case rollback (leaseKey l) d of
             (r, d) \<Rightarrow>
               (case drainTransactions rollback ls (unregisterTransaction l d) of
                  (es, d) \<Rightarrow> ((case r of Inl e \<Rightarrow> if expectedCloseRollbackError (Some e) then es else e # es | Inr _ \<Rightarrow> es), d))))"

text \<open>\<open>quiet\<close> is the handle when the wait for the last operation ends. The order of the map of transactions is that of \<open>list\<close>.\<close>

definition drainOperations :: "(string \<Rightarrow> unit db_call) \<Rightarrow> (DB \<Rightarrow> DB) \<Rightarrow> nat list \<Rightarrow> DB \<Rightarrow> db_error list \<times> DB" where
  "drainOperations rollback quiet ls d = (case drainTransactions rollback ls d of (es, d) \<Rightarrow> (es, quiet d))"

definition prepareForSleep ::
  "(string \<Rightarrow> unit db_call) \<Rightarrow> (DB \<Rightarrow> DB) \<Rightarrow> (nat set \<Rightarrow> nat list) \<Rightarrow> DB option \<Rightarrow> (bool \<times> db_error list) \<times> DB option" where
  "prepareForSleep rollback quiet list d =
     (case d of
        None \<Rightarrow> ((False, []), None)
      | Some d \<Rightarrow>
          (case fenceForSleep d of
             Inl e \<Rightarrow> ((False, [e]), Some d)
           | Inr None \<Rightarrow> ((False, []), Some d)
           | Inr (Some (d, transactions)) \<Rightarrow>
               (case drainOperations rollback quiet (list transactions) d of
                  (es, d) \<Rightarrow> ((True, es), Some (if es \<noteq> [] then resumeAfterSleepFailure d else d)))))"

definition closeTransport ::
  "(string \<Rightarrow> unit db_call) \<Rightarrow> (DB \<Rightarrow> DB) \<Rightarrow> (nat set \<Rightarrow> nat list) \<Rightarrow> db_error option \<Rightarrow> DB \<Rightarrow> db_error list \<times> DB" where
  "closeTransport rollback quiet list closeErr d =
     (case fenceForClose d of
        (d, transactions) \<Rightarrow>
          (case drainOperations rollback quiet (list transactions) d of
             (es, d) \<Rightarrow> (es @ (case closeErr of Some e \<Rightarrow> [e] | None \<Rightarrow> []), d)))"

text \<open>\<open>Context.Sleep\<close> and \<open>Context.Destroy\<close> fence the database before they ask core (\<open>rivet/actor.go\<close>).\<close>

datatype 'e sleep_error = PrepareFailed "db_error list" | SleepRejected 'e

definition fenceSQLiteAndRequestSleep ::
  "(string \<Rightarrow> unit db_call) \<Rightarrow> (DB \<Rightarrow> DB) \<Rightarrow> (nat set \<Rightarrow> nat list) \<Rightarrow> 'e option \<Rightarrow> DB option \<Rightarrow> 'e sleep_error option \<times> DB option" where
  "fenceSQLiteAndRequestSleep rollback quiet list requestSleep d =
     (case d of
        None \<Rightarrow> (map_option SleepRejected requestSleep, None)
      | Some _ \<Rightarrow>
          (case prepareForSleep rollback quiet list d of
             ((preparedNow, es), d) \<Rightarrow>
               if es \<noteq> [] then (Some (PrepareFailed es), d)
               else (case requestSleep of
                 None \<Rightarrow> (None, d)
               | Some e \<Rightarrow> (Some (SleepRejected e), if preparedNow then map_option resumeAfterSleepFailure d else d))))"

definition closeSQLiteAndRequestDestroy ::
  "(string \<Rightarrow> unit db_call) \<Rightarrow> (DB \<Rightarrow> DB) \<Rightarrow> (nat set \<Rightarrow> nat list) \<Rightarrow> db_error option \<Rightarrow> 'e option \<Rightarrow> DB option \<Rightarrow>
   (bool \<times> db_error list \<times> 'e option) \<times> DB option" where
  "closeSQLiteAndRequestDestroy rollback quiet list closeErr requestDestroy d =
     (case d of
        None \<Rightarrow> ((requestDestroy = None, [], requestDestroy), None)
      | Some d \<Rightarrow>
          (case closeTransport rollback quiet list closeErr d of
             (es, d) \<Rightarrow> ((requestDestroy = None, es, requestDestroy), Some d)))"


section \<open>Operations and fences at once\<close>

text \<open>
  Where an operation stands: \<open>Granted\<close> holds a lease that is not registered yet, \<open>Undoing\<close> rolls back a lease that came too late,
  \<open>Ending\<close> and \<open>Ended\<close> are \<open>Commit\<close> or \<open>Rollback\<close> before and after the call of the backend.
\<close>

datatype op_phase =
    NoOp
  | Admitted
  | Beginning
  | Granted nat
  | Undoing nat
  | BeginReturns
  | Ending nat
  | Ended nat
  | Finishing

text \<open>A drain, with whether a rollback has failed: \<open>Rolling\<close> has claimed a transaction and rolls it back.\<close>

datatype drain = NoDrain | Draining "nat list" bool | Rolling nat "nat list" bool | Drained bool

datatype drainer = Sleeper | Closer

text \<open>
  \<open>ds_leases\<close> are the leases that core holds open, \<open>ds_next\<close> the lease sequence, and \<open>ds_leaked\<close> the leases for which a call of the backend has
  returned an error although core kept them.
\<close>

record db_sys =
  ds_db :: DB
  ds_ops :: "nat \<Rightarrow> op_phase"
  ds_drain :: "drainer \<Rightarrow> drain"
  ds_leases :: "nat set"
  ds_leaked :: "nat set"
  ds_next :: nat

definition newSys :: db_sys where
  "newSys = \<lparr>ds_db = makeDB, ds_ops = \<lambda>_. NoOp, ds_drain = \<lambda>_. NoDrain, ds_leases = {}, ds_leaked = {}, ds_next = 0\<rparr>"

text \<open>The outcome of a call that ends a lease: core drops it, or keeps it and the call reports an error.\<close>

definition dropLease :: "nat \<Rightarrow> bool \<Rightarrow> db_sys \<Rightarrow> db_sys" where
  "dropLease l kept s = (if kept then s\<lparr>ds_leaked := insert l (ds_leaked s)\<rparr> else s\<lparr>ds_leases := ds_leases s - {l}\<rparr>)"

inductive db_step :: "db_sys \<Rightarrow> db_sys \<Rightarrow> bool" where
  admit: "ds_ops s o' = NoOp \<Longrightarrow> beginOperation (Some (ds_db s)) = Inr d \<Longrightarrow>
    db_step s (s\<lparr>ds_db := d, ds_ops := (ds_ops s)(o' := Admitted)\<rparr>)"
| statement: "ds_ops s o' = Admitted \<Longrightarrow> db_step s (s\<lparr>ds_ops := (ds_ops s)(o' := Finishing)\<rparr>)"
| begins: "ds_ops s o' = Admitted \<Longrightarrow> claimBeginning (ds_db s) = Inr d \<Longrightarrow>
    db_step s (s\<lparr>ds_db := d, ds_ops := (ds_ops s)(o' := Beginning)\<rparr>)"
| granted: "ds_ops s o' = Beginning \<Longrightarrow>
    db_step s (s\<lparr>ds_leases := insert (ds_next s) (ds_leases s), ds_next := ds_next s + 1,
      ds_ops := (ds_ops s)(o' := Granted (ds_next s))\<rparr>)"
| begin_fails: "ds_ops s o' = Beginning \<Longrightarrow>
    db_step s (s\<lparr>ds_leases := (if kept then insert (ds_next s) (ds_leases s) else ds_leases s),
      ds_leaked := (if kept then insert (ds_next s) (ds_leaked s) else ds_leaked s), ds_next := ds_next s + 1,
      ds_ops := (ds_ops s)(o' := BeginReturns)\<rparr>)"
| registers: "ds_ops s o' = Granted l \<Longrightarrow> registerTransaction l (ds_db s) = Some d \<Longrightarrow>
    db_step s (s\<lparr>ds_db := d, ds_ops := (ds_ops s)(o' := BeginReturns)\<rparr>)"
| too_late: "ds_ops s o' = Granted l \<Longrightarrow> registerTransaction l (ds_db s) = None \<Longrightarrow>
    db_step s (s\<lparr>ds_ops := (ds_ops s)(o' := Undoing l)\<rparr>)"
| undone: "ds_ops s o' = Undoing l \<Longrightarrow>
    db_step s ((dropLease l kept s)\<lparr>ds_db := (ds_db s)\<lparr>db_terminal := insert l (db_terminal (ds_db s))\<rparr>,
      ds_ops := (ds_ops s)(o' := BeginReturns)\<rparr>)"
| begin_returns: "ds_ops s o' = BeginReturns \<Longrightarrow>
    db_step s (s\<lparr>ds_db := endBeginning (ds_db s), ds_ops := (ds_ops s)(o' := Finishing)\<rparr>)"
| ends: "ds_ops s o' = Admitted \<Longrightarrow> l \<in> db_transactions (ds_db s) \<Longrightarrow> claimTerminal l (ds_db s) = Some d \<Longrightarrow>
    db_step s (s\<lparr>ds_db := d, ds_ops := (ds_ops s)(o' := Ending l)\<rparr>)"
| ended: "ds_ops s o' = Ending l \<Longrightarrow> db_step s ((dropLease l kept s)\<lparr>ds_ops := (ds_ops s)(o' := Ended l)\<rparr>)"
| unregisters: "ds_ops s o' = Ended l \<Longrightarrow>
    db_step s (s\<lparr>ds_db := unregisterTransaction l (ds_db s), ds_ops := (ds_ops s)(o' := Finishing)\<rparr>)"
| finishes: "ds_ops s o' = Finishing \<Longrightarrow>
    db_step s (s\<lparr>ds_db := fst (finishOperation (ds_db s)), ds_ops := (ds_ops s)(o' := NoOp)\<rparr>)"
| expires: "db_step s (s\<lparr>ds_leases := ds_leases s - {l}\<rparr>)"
| sleeps: "ds_drain s Sleeper = NoDrain \<Longrightarrow> fenceForSleep (ds_db s) = Inr (Some (d, set ls)) \<Longrightarrow>
    db_step s (s\<lparr>ds_db := d, ds_drain := (ds_drain s)(Sleeper := Draining ls False)\<rparr>)"
| closes: "ds_drain s Closer = NoDrain \<Longrightarrow> fenceForClose (ds_db s) = (d, set ls) \<Longrightarrow>
    db_step s (s\<lparr>ds_db := d, ds_drain := (ds_drain s)(Closer := Draining ls False)\<rparr>)"
| skips: "ds_drain s w = Draining (l # ls) failed \<Longrightarrow> claimTerminal l (ds_db s) = None \<Longrightarrow>
    db_step s (s\<lparr>ds_drain := (ds_drain s)(w := Draining ls failed)\<rparr>)"
| claims: "ds_drain s w = Draining (l # ls) failed \<Longrightarrow> claimTerminal l (ds_db s) = Some d \<Longrightarrow>
    db_step s (s\<lparr>ds_db := d, ds_drain := (ds_drain s)(w := Rolling l ls failed)\<rparr>)"
| rolled: "ds_drain s w = Rolling l ls failed \<Longrightarrow> (kept \<longrightarrow> err) \<Longrightarrow>
    db_step s ((dropLease l kept s)\<lparr>ds_db := unregisterTransaction l (ds_db s),
      ds_drain := (ds_drain s)(w := Draining ls (failed \<or> err))\<rparr>)"
| drained: "ds_drain s w = Draining [] failed \<Longrightarrow> db_active (ds_db s) = 0 \<Longrightarrow>
    db_step s (s\<lparr>ds_drain := (ds_drain s)(w := Drained failed)\<rparr>)"
| resumes: "ds_drain s Sleeper = Drained failed \<Longrightarrow>
    db_step s (s\<lparr>ds_db := resumeAfterSleepFailure (ds_db s), ds_drain := (ds_drain s)(Sleeper := NoDrain)\<rparr>)"

inductive_cases db_stepE: "db_step s s'"

section \<open>Invariants\<close>

definition begins_op :: "op_phase \<Rightarrow> bool" where
  "begins_op p \<longleftrightarrow> p = Beginning \<or> p = BeginReturns \<or> (\<exists>l. p = Granted l \<or> p = Undoing l)"

text \<open>A lease that its \<open>Begin\<close> has not registered.\<close>

definition unregistered :: "(nat \<Rightarrow> op_phase) \<Rightarrow> nat \<Rightarrow> bool" where
  "unregistered ops l \<longleftrightarrow> (\<exists>p. ops p = Granted l \<or> ops p = Undoing l)"

text \<open>Who is ending a transaction, and which transactions a drain has yet to look at.\<close>

definition ends_op :: "(nat \<Rightarrow> op_phase) \<Rightarrow> nat \<Rightarrow> bool" where
  "ends_op ops l \<longleftrightarrow> (\<exists>p. ops p = Ending l \<or> ops p = Ended l)"

definition rolls_back :: "(drainer \<Rightarrow> drain) \<Rightarrow> nat \<Rightarrow> bool" where
  "rolls_back drains l \<longleftrightarrow> (\<exists>w ls failed. drains w = Rolling l ls failed)"

definition ended_by :: "db_sys \<Rightarrow> nat \<Rightarrow> bool" where
  "ended_by s l \<longleftrightarrow> ends_op (ds_ops s) l \<or> rolls_back (ds_drain s) l"

fun todo :: "drain \<Rightarrow> nat set" where
  "todo (Draining ls failed) = set ls"
| "todo (Rolling l ls failed) = set ls"
| "todo _ = {}"

definition counts_inv :: "db_sys \<Rightarrow> bool" where
  "counts_inv s \<longleftrightarrow> finite {o'. ds_ops s o' \<noteq> NoOp} \<and> db_active (ds_db s) = int (card {o'. ds_ops s o' \<noteq> NoOp})"

definition begin_inv :: "db_sys \<Rightarrow> bool" where
  "begin_inv s \<longleftrightarrow>
     (\<forall>o'. begins_op (ds_ops s o') \<longrightarrow> db_beginning (ds_db s)) \<and>
     (\<forall>p q. begins_op (ds_ops s p) \<longrightarrow> begins_op (ds_ops s q) \<longrightarrow> p = q) \<and>
     (\<forall>o'. begins_op (ds_ops s o') \<longrightarrow> ds_ops s o' \<noteq> BeginReturns \<longrightarrow> db_transactions (ds_db s) = {}) \<and>
     (\<forall>l \<in> db_transactions (ds_db s). \<forall>l' \<in> db_transactions (ds_db s). l = l')"

definition lease_inv :: "db_sys \<Rightarrow> bool" where
  "lease_inv s \<longleftrightarrow>
     (\<forall>l \<in> ds_leases s. l < ds_next s) \<and>
     (\<forall>l \<in> ds_leases s. l \<notin> ds_leaked s \<longrightarrow> l \<in> db_transactions (ds_db s) \<or> unregistered (ds_ops s) l) \<and>
     (\<forall>p l. ds_ops s p = Ended l \<longrightarrow> l < ds_next s \<and> (l \<in> ds_leases s \<longrightarrow> l \<in> ds_leaked s)) \<and>
     (\<forall>p l. ds_ops s p = Ending l \<longrightarrow> l < ds_next s) \<and>
     (\<forall>l. unregistered (ds_ops s) l \<longrightarrow> l < ds_next s) \<and>
     (\<forall>l \<in> db_transactions (ds_db s). l < ds_next s)"

definition fence_inv :: "db_sys \<Rightarrow> bool" where
  "fence_inv s \<longleftrightarrow>
     (\<forall>l \<in> db_transactions (ds_db s). l \<in> db_terminal (ds_db s) \<longrightarrow> ended_by s l) \<and>
     (fenced (ds_db s) \<longrightarrow> (\<forall>l \<in> db_transactions (ds_db s). ended_by s l \<or> (\<exists>w. l \<in> todo (ds_drain s w))))"

definition fresh_inv :: "db_sys \<Rightarrow> bool" where
  "fresh_inv s \<longleftrightarrow>
     (\<forall>l \<in> db_terminal (ds_db s). l < ds_next s) \<and> (\<forall>w. \<forall>l \<in> todo (ds_drain s w). l < ds_next s) \<and>
     (\<forall>p l. ds_ops s p = Granted l \<longrightarrow> l \<notin> db_terminal (ds_db s) \<and> (\<forall>w. l \<notin> todo (ds_drain s w)))"

definition drain_inv :: "db_sys \<Rightarrow> bool" where
  "drain_inv s \<longleftrightarrow>
     (ds_drain s Sleeper \<noteq> NoDrain \<longrightarrow> db_sleepPrepared (ds_db s)) \<and> (ds_drain s Closer \<noteq> NoDrain \<longrightarrow> db_closing (ds_db s)) \<and>
     (\<forall>w failed. ds_drain s w = Drained failed \<longrightarrow> db_active (ds_db s) = 0)"

definition db_inv :: "db_sys \<Rightarrow> bool" where
  "db_inv s \<longleftrightarrow> counts_inv s \<and> begin_inv s \<and> lease_inv s \<and> fresh_inv s \<and> fence_inv s \<and> drain_inv s"

lemma counts_kept:
  assumes "counts_inv s" "db_active (ds_db s') = db_active (ds_db s)" "\<And>p. ds_ops s' p = NoOp \<longleftrightarrow> ds_ops s p = NoOp"
  shows "counts_inv s'"
  using assms by (simp add: counts_inv_def)

lemma dropLease_simps [simp]:
  "ds_db (dropLease l kept s) = ds_db s" "ds_ops (dropLease l kept s) = ds_ops s" "ds_drain (dropLease l kept s) = ds_drain s"
  "ds_next (dropLease l kept s) = ds_next s"
  "ds_leases (dropLease l kept s) = (if kept then ds_leases s else ds_leases s - {l})"
  "ds_leaked (dropLease l kept s) = (if kept then insert l (ds_leaked s) else ds_leaked s)"
  by (simp_all add: dropLease_def)

lemma counts_step:
  assumes "db_step s s'" "counts_inv s"
  shows "counts_inv s'"
  using assms(1)
proof cases
  case (admit p d)
  have "{q. ((ds_ops s)(p := Admitted)) q \<noteq> NoOp} = insert p {q. ds_ops s q \<noteq> NoOp}" by auto
  then show ?thesis
    using assms(2) admit(2,3) by (auto simp: admit(1) counts_inv_def beginOperation_def card_insert_if split: if_splits)
next
  case (finishes p)
  have "{q. ((ds_ops s)(p := NoOp)) q \<noteq> NoOp} = {q. ds_ops s q \<noteq> NoOp} - {p}" by auto
  moreover have "card {q. ds_ops s q \<noteq> NoOp} > 0"
    using assms(2) finishes(2) by (auto simp: counts_inv_def card_gt_0_iff intro: exI [where x = p])
  ultimately show ?thesis
    using assms(2) finishes(2) by (simp add: finishes(1) counts_inv_def finishOperation_def Let_def card_Diff_singleton_if)
qed (auto intro!: counts_kept [OF assms(2)] simp: db_sections split: if_splits)

text \<open>A step that starts no transaction.\<close>

lemma begin_kept:
  assumes "begin_inv s" "\<And>p. begins_op (ds_ops s' p) \<Longrightarrow> begins_op (ds_ops s p)"
    and "\<And>p. begins_op (ds_ops s' p) \<Longrightarrow> ds_ops s' p \<noteq> BeginReturns \<Longrightarrow> ds_ops s p \<noteq> BeginReturns"
    and "db_beginning (ds_db s') = db_beginning (ds_db s)" "db_transactions (ds_db s') \<subseteq> db_transactions (ds_db s)"
  shows "begin_inv s'"
  unfolding begin_inv_def
proof (intro conjI allI impI ballI)
  fix p q assume "begins_op (ds_ops s' p)" "begins_op (ds_ops s' q)"
  then show "p = q" using assms(1) assms(2) [of p] assms(2) [of q] by (simp add: begin_inv_def)
next
  fix p assume "begins_op (ds_ops s' p)" "ds_ops s' p \<noteq> BeginReturns"
  then show "db_transactions (ds_db s') = {}"
    using assms(1,5) assms(2,3) [of p] by (simp add: begin_inv_def)
next
  fix p assume "begins_op (ds_ops s' p)"
  then show "db_beginning (ds_db s')" using assms(1,4) assms(2) [of p] by (auto simp: begin_inv_def)
next
  fix l l' assume "l \<in> db_transactions (ds_db s')" "l' \<in> db_transactions (ds_db s')"
  with assms(5) have "l \<in> db_transactions (ds_db s)" "l' \<in> db_transactions (ds_db s)" by auto
  with assms(1) show "l = l'" unfolding begin_inv_def by blast
qed

lemma begins_op_simps [simp]:
  "begins_op Beginning" "begins_op BeginReturns" "begins_op (Granted l)" "begins_op (Undoing l)" "\<not> begins_op NoOp"
  "\<not> begins_op Admitted" "\<not> begins_op (Ending l)" "\<not> begins_op (Ended l)" "\<not> begins_op Finishing"
  by (simp_all add: begins_op_def)

lemma begin_invD:
  assumes "begin_inv s"
  shows "begins_op (ds_ops s p) \<Longrightarrow> db_beginning (ds_db s)"
    and "begins_op (ds_ops s p) \<Longrightarrow> begins_op (ds_ops s q) \<Longrightarrow> p = q"
    and "begins_op (ds_ops s p) \<Longrightarrow> ds_ops s p \<noteq> BeginReturns \<Longrightarrow> db_transactions (ds_db s) = {}"
  using assms unfolding begin_inv_def by blast+

lemma begin_step:
  assumes "db_step s s'" "begin_inv s"
  shows "begin_inv s'"
  using assms(1)
proof cases
  case (begins p d)
  then have "\<not> begins_op (ds_ops s q)" for q
    using begin_invD(1) [OF assms(2), of q] by (auto simp: claimBeginning_def split: if_splits)
  with begins show ?thesis by (auto simp: begin_inv_def claimBeginning_def split: if_splits)
next
  case (registers p l d)
  then have "q \<noteq> p \<Longrightarrow> \<not> begins_op (ds_ops s q)" for q
    using begin_invD(2) [OF assms(2), of p q] by auto
  moreover have "db_beginning (ds_db s)" "db_transactions (ds_db s) = {}"
    using registers begin_invD(1,3) [OF assms(2), of p] by simp_all
  ultimately show ?thesis using registers by (auto simp: begin_inv_def registerTransaction_def split: if_splits)
next
  case (begin_returns p)
  then have "q \<noteq> p \<Longrightarrow> \<not> begins_op (ds_ops s q)" for q
    using begin_invD(2) [OF assms(2), of p q] by auto
  then have "\<not> begins_op (ds_ops s' q)" for q by (simp add: begin_returns(1))
  with assms(2) show ?thesis by (simp add: begin_inv_def begin_returns(1) endBeginning_def)
qed (rule begin_kept [OF assms(2)]; auto simp: db_sections split: if_splits)+


lemma unregistered_upd [simp]:
  "ph \<noteq> NoOp \<Longrightarrow> unregistered (ops(p := ph)) l \<longleftrightarrow> ph = Granted l \<or> ph = Undoing l \<or> unregistered (ops(p := NoOp)) l"
  by (auto simp: unregistered_def)

lemma unregistered_keep: "unregistered ops l \<Longrightarrow> ops p \<noteq> Granted l \<Longrightarrow> ops p \<noteq> Undoing l \<Longrightarrow> unregistered (ops(p := NoOp)) l"
  by (auto simp: unregistered_def)

lemma unregistered_drop: "unregistered (ops(p := NoOp)) l \<Longrightarrow> unregistered ops l"
  by (auto simp: unregistered_def split: if_splits)

lemma unregistered_at: "ops p = Granted l \<or> ops p = Undoing l \<Longrightarrow> unregistered ops l"
  by (auto simp: unregistered_def)

lemma lease_invI:
  assumes "\<And>l. l \<in> ds_leases s \<Longrightarrow> l < ds_next s"
    and "\<And>l. l \<in> ds_leases s \<Longrightarrow> l \<notin> ds_leaked s \<Longrightarrow> l \<in> db_transactions (ds_db s) \<or> unregistered (ds_ops s) l"
    and "\<And>p l. ds_ops s p = Ended l \<Longrightarrow> l < ds_next s \<and> (l \<in> ds_leases s \<longrightarrow> l \<in> ds_leaked s)"
    and "\<And>p l. ds_ops s p = Ending l \<Longrightarrow> l < ds_next s"
    and "\<And>l. unregistered (ds_ops s) l \<Longrightarrow> l < ds_next s"
    and "\<And>l. l \<in> db_transactions (ds_db s) \<Longrightarrow> l < ds_next s"
  shows "lease_inv s"
  using assms by (simp add: lease_inv_def)

lemma lease_invD:
  assumes "lease_inv s"
  shows "l \<in> ds_leases s \<Longrightarrow> l < ds_next s"
    and "l \<in> ds_leases s \<Longrightarrow> l \<notin> ds_leaked s \<Longrightarrow> l \<in> db_transactions (ds_db s) \<or> unregistered (ds_ops s) l"
    and "ds_ops s p = Ended l \<Longrightarrow> l < ds_next s \<and> (l \<in> ds_leases s \<longrightarrow> l \<in> ds_leaked s)"
    and "ds_ops s p = Ending l \<Longrightarrow> l < ds_next s"
    and "unregistered (ds_ops s) l \<Longrightarrow> l < ds_next s"
    and "l \<in> db_transactions (ds_db s) \<Longrightarrow> l < ds_next s"
  using assms by (auto simp: lease_inv_def)

lemma unregistered_split:
  "unregistered ops m \<longleftrightarrow> ops p = Granted m \<or> ops p = Undoing m \<or> unregistered (ops(p := NoOp)) m"
  by (auto simp: unregistered_def split: if_splits)

lemma unregistered_same:
  assumes "\<And>m. ops p = Granted m \<or> ops p = Undoing m \<longleftrightarrow> ph = Granted m \<or> ph = Undoing m"
  shows "unregistered (ops(p := ph)) = unregistered ops"
proof (rule ext)
  fix m
  show "unregistered (ops(p := ph)) m = unregistered ops m"
    using unregistered_split [of "ops(p := ph)" m p] unregistered_split [of ops m p] assms [of m]
    by (simp del: unregistered_upd, blast)
qed

text \<open>A step that neither grants nor ends a lease.\<close>

lemma lease_kept:
  assumes "lease_inv s" "ds_leases s' = ds_leases s" "ds_leaked s' = ds_leaked s" "ds_next s' = ds_next s"
    and "db_transactions (ds_db s') = db_transactions (ds_db s)" "unregistered (ds_ops s') = unregistered (ds_ops s)"
    and "\<And>p l. ds_ops s' p = Ended l \<Longrightarrow> ds_ops s p = Ended l"
    and "\<And>p l. ds_ops s' p = Ending l \<Longrightarrow> ds_ops s p = Ending l \<or> l \<in> db_transactions (ds_db s)"
  shows "lease_inv s'"
  unfolding lease_inv_def assms(2-6)
proof (intro conjI allI impI ballI)
  fix p l assume "ds_ops s' p = Ended l"
  from lease_invD(3) [OF assms(1) assms(7) [OF this]]
  show "l < ds_next s" "l \<in> ds_leases s \<Longrightarrow> l \<in> ds_leaked s" by simp_all
next
  fix p l assume "ds_ops s' p = Ending l"
  from assms(8) [OF this] show "l < ds_next s" by (auto dest: lease_invD(4,6) [OF assms(1)])
qed (use lease_invD(1,2,5,6) [OF assms(1)] in blast)+

lemma lease_step:
  assumes "db_step s s'" "lease_inv s"
  shows "lease_inv s'"
  using assms(1)
proof cases
  case (granted p)
  then show ?thesis
    by (intro lease_invI)
      (auto dest: lease_invD [OF assms(2)] unregistered_drop simp: less_Suc_eq split: if_splits intro: unregistered_keep)
next
  case (begin_fails p kept)
  then have same: "unregistered (ds_ops s') = unregistered (ds_ops s)" by (simp add: unregistered_same)
  show ?thesis
    by (rule lease_invI)
      (use same in \<open>auto dest: lease_invD [OF assms(2)] simp: begin_fails(1) less_Suc_eq simp del: unregistered_upd split: if_splits\<close>)
next
  case (registers p l d)
  then have before: "unregistered (ds_ops s) m \<longleftrightarrow> m = l \<or> unregistered ((ds_ops s)(p := NoOp)) m" for m
    using unregistered_split [of "ds_ops s" m p] by auto
  from registers have d: "d = (ds_db s)\<lparr>db_transactions := insert l (db_transactions (ds_db s))\<rparr>"
    by (simp add: registerTransaction_def split: if_splits)
  have below: "unregistered (ds_ops s) m \<Longrightarrow> m < ds_next s" "m = l \<Longrightarrow> m < ds_next s" for m
    using lease_invD(5) [OF assms(2), of m] before [of m] by auto
  show ?thesis
  proof (rule lease_invI)
    fix m assume "m \<in> ds_leases s'" "m \<notin> ds_leaked s'"
    then show "m \<in> db_transactions (ds_db s') \<or> unregistered (ds_ops s') m"
      using lease_invD(2) [OF assms(2), of m] before [of m] by (auto simp: registers(1) d)
  next
    fix m assume "unregistered (ds_ops s') m"
    then show "m < ds_next s'" using below(1) [of m] before [of m] by (simp add: registers(1))
  qed (use below(2) in \<open>auto simp: registers(1) d split: if_splits dest: lease_invD(1,3,4,6) [OF assms(2)]\<close>)
next
  case (undone p l kept)
  then show ?thesis
    by (intro lease_invI) (auto dest: lease_invD [OF assms(2)] unregistered_drop split: if_splits intro: unregistered_keep)
next
  case (ended p l kept)
  then show ?thesis
    by (intro lease_invI) (auto dest: lease_invD [OF assms(2)] unregistered_drop split: if_splits intro: unregistered_keep)
next
  case (unregisters p l)
  then show ?thesis
    by (intro lease_invI)
      (auto simp: unregisterTransaction_def dest: lease_invD [OF assms(2)] unregistered_drop split: if_splits intro: unregistered_keep)
next
  case (rolled w l ls failed kept err)
  then show ?thesis
    by (intro lease_invI) (auto simp: unregisterTransaction_def dest: lease_invD [OF assms(2)] split: if_splits)
next
  case (expires l)
  then show ?thesis by (intro lease_invI) (auto dest: lease_invD [OF assms(2)])
qed (rule lease_kept [OF assms(2)]; auto simp: db_sections unregistered_same split: if_splits)+

text \<open>A lease that is not registered is new to the flags and to the drains.\<close>

lemma fresh_invI:
  assumes "\<And>l. l \<in> db_terminal (ds_db s) \<Longrightarrow> l < ds_next s" "\<And>w l. l \<in> todo (ds_drain s w) \<Longrightarrow> l < ds_next s"
    and "\<And>p l. ds_ops s p = Granted l \<Longrightarrow> l \<notin> db_terminal (ds_db s)"
    and "\<And>p l w. ds_ops s p = Granted l \<Longrightarrow> l \<notin> todo (ds_drain s w)"
  shows "fresh_inv s"
  using assms by (auto simp: fresh_inv_def)

lemma fresh_invD:
  assumes "fresh_inv s"
  shows "l \<in> db_terminal (ds_db s) \<Longrightarrow> l < ds_next s" "l \<in> todo (ds_drain s w) \<Longrightarrow> l < ds_next s"
    and "ds_ops s p = Granted l \<Longrightarrow> l \<notin> db_terminal (ds_db s)" "ds_ops s p = Granted l \<Longrightarrow> l \<notin> todo (ds_drain s w)"
  using assms by (auto simp: fresh_inv_def)

lemma fresh_kept:
  assumes "fresh_inv s" "db_terminal (ds_db s') = db_terminal (ds_db s)" "ds_next s' = ds_next s"
    and "\<And>w. todo (ds_drain s' w) \<subseteq> todo (ds_drain s w)" "\<And>p l. ds_ops s' p = Granted l \<Longrightarrow> ds_ops s p = Granted l"
  shows "fresh_inv s'"
proof (rule fresh_invI)
  fix w l assume "l \<in> todo (ds_drain s' w)"
  then show "l < ds_next s'" using fresh_invD(2) [OF assms(1), of l w] assms(3) assms(4) [of w] by auto
next
  fix p l w assume "ds_ops s' p = Granted l"
  then show "l \<notin> todo (ds_drain s' w)" using fresh_invD(4) [OF assms(1) assms(5), of p l w] assms(4) [of w] by auto
qed (auto simp: assms(2,3) dest: fresh_invD(1) [OF assms(1)] fresh_invD(3) [OF assms(1) assms(5)])

lemma fresh_step:
  assumes "db_step s s'" "fresh_inv s" "begin_inv s" "lease_inv s"
  shows "fresh_inv s'"
  using assms(1)
proof cases
  case (granted p)
  then show ?thesis
    by (intro fresh_invI) (auto split: if_splits dest: fresh_invD [OF assms(2)])
next
  case (begin_fails p kept)
  then show ?thesis
    by (intro fresh_invI) (auto split: if_splits dest: fresh_invD [OF assms(2)])
next
  case (undone p l kept)
  have "l < ds_next s" using lease_invD(5) [OF assms(4)] undone(2) by (auto simp: unregistered_def)
  moreover have "ds_ops s q = Granted m \<Longrightarrow> q = p" for q m
    using begin_invD(2) [OF assms(3), of q p] undone(2) by simp
  ultimately show ?thesis using undone(2)
    by (intro fresh_invI) (auto simp: undone(1) split: if_splits dest: fresh_invD [OF assms(2)])
next
  case (ends p l d)
  have "ds_ops s q \<noteq> Granted m" for q m
    using begin_invD(3) [OF assms(3), of q] ends(3) by auto
  then show ?thesis using ends lease_invD(6) [OF assms(4) ends(3)]
    by (intro fresh_invI) (auto simp: claimTerminal_def split: if_splits dest: fresh_invD [OF assms(2)])
next
  case (claims w l ls failed d)
  then have "l \<in> todo (ds_drain s w)" by simp
  then have l: "l < ds_next s" "ds_ops s q \<noteq> Granted l" for q
    using fresh_invD(2) [OF assms(2)] fresh_invD(4) [OF assms(2), of q l w] by blast+
  have sub: "m \<in> todo (ds_drain s' v) \<Longrightarrow> m \<in> todo (ds_drain s v)" for m v using claims(2) by (auto simp: claims(1) split: if_splits)
  have eqs: "db_terminal (ds_db s') = insert l (db_terminal (ds_db s))" "ds_next s' = ds_next s" "ds_ops s' = ds_ops s"
    using claims(3) by (auto simp: claims(1) claimTerminal_def split: if_splits)
  show ?thesis
    by (rule fresh_invI) (use l in \<open>auto simp: eqs dest: sub fresh_invD [OF assms(2)]\<close>)
next
  case (sleeps d ls)
  have "ds_ops s q = Granted m \<Longrightarrow> db_transactions (ds_db s) = {}" for q m
    using begin_invD(3) [OF assms(3), of q] by simp
  then show ?thesis using sleeps
    by (intro fresh_invI) (auto simp: fenceForSleep_def split: if_splits dest: fresh_invD [OF assms(2)] lease_invD(6) [OF assms(4)])
next
  case (closes d ls)
  have "ds_ops s q = Granted m \<Longrightarrow> db_transactions (ds_db s) = {}" for q m
    using begin_invD(3) [OF assms(3), of q] by simp
  then show ?thesis using closes
    by (intro fresh_invI) (auto simp: fenceForClose_def split: if_splits dest: fresh_invD [OF assms(2)] lease_invD(6) [OF assms(4)])
qed (rule fresh_kept [OF assms(2)]; auto simp: db_sections split: if_splits)+

text \<open>The fences.\<close>

lemma ends_op_upd: "ends_op (ops(p := ph)) l \<longleftrightarrow> ph = Ending l \<or> ph = Ended l \<or> (\<exists>q. q \<noteq> p \<and> (ops q = Ending l \<or> ops q = Ended l))"
  by (auto simp: ends_op_def)

lemma ends_op_keep: "ends_op ops l \<Longrightarrow> (ops p = Ending l \<or> ops p = Ended l \<Longrightarrow> ph = Ending l \<or> ph = Ended l) \<Longrightarrow> ends_op (ops(p := ph)) l"
  by (auto simp: ends_op_def) (metis fun_upd_apply)+

lemma rolls_back_keep: "rolls_back drains l \<Longrightarrow> (\<And>ls failed. drains w \<noteq> Rolling l ls failed) \<Longrightarrow> rolls_back (drains(w := x)) l"
  by (auto simp: rolls_back_def) (metis fun_upd_apply)

lemma fence_invI:
  assumes "\<And>l. l \<in> db_transactions (ds_db s) \<Longrightarrow> l \<in> db_terminal (ds_db s) \<Longrightarrow> ended_by s l"
    and "\<And>l. fenced (ds_db s) \<Longrightarrow> l \<in> db_transactions (ds_db s) \<Longrightarrow> \<not> ended_by s l \<Longrightarrow> \<exists>w. l \<in> todo (ds_drain s w)"
  shows "fence_inv s"
  using assms by (auto simp: fence_inv_def)

lemma fence_invD:
  assumes "fence_inv s" "l \<in> db_transactions (ds_db s)"
  shows "l \<in> db_terminal (ds_db s) \<Longrightarrow> ended_by s l"
    and "fenced (ds_db s) \<Longrightarrow> \<not> ended_by s l \<Longrightarrow> \<exists>w. l \<in> todo (ds_drain s w)"
  using assms by (auto simp: fence_inv_def)

text \<open>A step that registers no transaction, claims none that stays unattended, and raises no fence.\<close>

lemma fence_kept:
  assumes "fence_inv s" "db_transactions (ds_db s') \<subseteq> db_transactions (ds_db s)" "fenced (ds_db s') \<Longrightarrow> fenced (ds_db s)"
    and "\<And>l. l \<in> db_transactions (ds_db s') \<Longrightarrow> ended_by s l \<Longrightarrow> ended_by s' l"
    and "\<And>l. l \<in> db_transactions (ds_db s') \<Longrightarrow> l \<in> db_terminal (ds_db s') \<Longrightarrow> l \<in> db_terminal (ds_db s) \<or> ended_by s' l"
    and "\<And>w l. l \<in> db_transactions (ds_db s') \<Longrightarrow> l \<in> todo (ds_drain s w) \<Longrightarrow> l \<in> todo (ds_drain s' w) \<or> ended_by s' l"
  shows "fence_inv s'"
proof (rule fence_invI)
  fix l assume l: "l \<in> db_transactions (ds_db s')" "l \<in> db_terminal (ds_db s')"
  with assms(2) have "l \<in> db_transactions (ds_db s)" by blast
  then show "ended_by s' l" using assms(5) [OF l] assms(4) [OF l(1)] fence_invD(1) [OF assms(1)] by blast
next
  fix l assume l: "fenced (ds_db s')" "l \<in> db_transactions (ds_db s')" "\<not> ended_by s' l"
  with assms(2) have "l \<in> db_transactions (ds_db s)" by blast
  then obtain w where "l \<in> todo (ds_drain s w)"
    using fence_invD(2) [OF assms(1)] assms(3) [OF l(1)] assms(4) [OF l(2)] l(3) by blast
  then show "\<exists>w. l \<in> todo (ds_drain s' w)" using assms(6) [OF l(2)] l(3) by blast
qed

lemma ended_by_ops:
  "ended_by s l \<Longrightarrow> (ds_ops s p = Ending l \<or> ds_ops s p = Ended l \<Longrightarrow> ph = Ending l \<or> ph = Ended l) \<Longrightarrow>
   ds_ops s' = (ds_ops s)(p := ph) \<Longrightarrow> ds_drain s' = ds_drain s \<Longrightarrow> ended_by s' l"
  by (auto simp: ended_by_def intro: ends_op_keep)

lemma ended_by_drain:
  "ended_by s l \<Longrightarrow> (\<And>ls failed. ds_drain s w \<noteq> Rolling l ls failed) \<Longrightarrow>
   ds_drain s' = (ds_drain s)(w := x) \<Longrightarrow> ds_ops s' = ds_ops s \<Longrightarrow> ended_by s' l"
  using rolls_back_keep [of "ds_drain s" l w x] by (simp add: ended_by_def) blast

lemma fence_step:
  assumes "db_step s s'" "fence_inv s" "begin_inv s" "fresh_inv s"
  shows "fence_inv s'"
  using assms(1)
proof cases
  case (registers p l d)
  then have "\<not> fenced (ds_db s)" and d: "d = (ds_db s)\<lparr>db_transactions := insert l (db_transactions (ds_db s))\<rparr>"
    by (simp_all add: registerTransaction_def split: if_splits)
  moreover have "db_transactions (ds_db s) = {}" "l \<notin> db_terminal (ds_db s)"
    using begin_invD(3) [OF assms(3), of p] fresh_invD(3) [OF assms(4)] registers(2) by auto
  ultimately show ?thesis by (intro fence_invI) (auto simp: registers(1) fenced_def)
next
  case (undone p l kept)
  then have "db_transactions (ds_db s) = {}" using begin_invD(3) [OF assms(3), of p] by simp
  then show ?thesis by (intro fence_invI) (auto simp: undone(1))
next
  case (ends p l d)
  have "ended_by s' l" using ends(2) by (auto simp: ends(1) ended_by_def ends_op_def)
  moreover have "ended_by s m \<Longrightarrow> ended_by s' m" for m
    by (rule ended_by_ops [where p = p and ph = "Ending l"]) (use ends(2) in \<open>auto simp: ends(1)\<close>)
  ultimately show ?thesis using ends(4)
    by (intro fence_kept [OF assms(2)]) (auto simp: ends(1) claimTerminal_def fenced_def split: if_splits)
next
  case (ended p l kept)
  have "ended_by s m \<Longrightarrow> ended_by s' m" for m
    by (rule ended_by_ops [where p = p and ph = "Ended l"]) (use ended(2) in \<open>auto simp: ended(1)\<close>)
  then show ?thesis by (intro fence_kept [OF assms(2)]) (auto simp: ended(1))
next
  case (unregisters p l)
  have "ended_by s m \<Longrightarrow> m \<noteq> l \<Longrightarrow> ended_by s' m" for m
    by (rule ended_by_ops [where p = p and ph = Finishing]) (use unregisters(2) in \<open>auto simp: unregisters(1)\<close>)
  then show ?thesis by (intro fence_kept [OF assms(2)]) (auto simp: unregisters(1) unregisterTransaction_def fenced_def)
next
  case (sleeps d ls)
  have "ended_by s m \<Longrightarrow> ended_by s' m" for m
    by (rule ended_by_drain [where w = Sleeper]) (use sleeps(2) in \<open>auto simp: sleeps(1)\<close>)
  with sleeps fence_invD(1) [OF assms(2)] show ?thesis
    by (intro fence_invI) (auto simp: fenceForSleep_def split: if_splits intro!: exI [where x = Sleeper])
next
  case (closes d ls)
  have "ended_by s m \<Longrightarrow> ended_by s' m" for m
    by (rule ended_by_drain [where w = Closer]) (use closes(2) in \<open>auto simp: closes(1)\<close>)
  with closes fence_invD(1) [OF assms(2)] show ?thesis
    by (intro fence_invI) (auto simp: fenceForClose_def intro!: exI [where x = Closer])
next
  case (skips w l ls failed)
  have keep: "ended_by s m \<Longrightarrow> ended_by s' m" for m
    by (rule ended_by_drain [where w = w]) (use skips(2) in \<open>auto simp: skips(1)\<close>)
  have "l \<in> db_terminal (ds_db s)" using skips(3) by (simp add: claimTerminal_def split: if_splits)
  then have "l \<in> db_transactions (ds_db s) \<Longrightarrow> ended_by s' l" using fence_invD(1) [OF assms(2)] keep by blast
  with keep skips(2) show ?thesis
    by (intro fence_kept [OF assms(2)]) (auto simp: skips(1) split: if_splits)
next
  case (claims w l ls failed d)
  have "ended_by s' l" by (auto simp: claims(1) ended_by_def rolls_back_def)
  moreover have "ended_by s m \<Longrightarrow> ended_by s' m" for m
    by (rule ended_by_drain [where w = w]) (use claims(2) in \<open>auto simp: claims(1)\<close>)
  ultimately show ?thesis using claims(2,3)
    by (intro fence_kept [OF assms(2)]) (auto simp: claims(1) claimTerminal_def fenced_def split: if_splits)
next
  case (rolled w l ls failed kept err)
  have "ended_by s m \<Longrightarrow> m \<noteq> l \<Longrightarrow> ended_by s' m" for m
    by (rule ended_by_drain [where w = w]) (use rolled(2) in \<open>auto simp: rolled(1)\<close>)
  then show ?thesis using rolled(2)
    by (intro fence_kept [OF assms(2)]) (auto simp: rolled(1) unregisterTransaction_def fenced_def split: if_splits)
next
  case (drained w failed)
  have "ended_by s m \<Longrightarrow> ended_by s' m" for m
    by (rule ended_by_drain [where w = w]) (use drained(2) in \<open>auto simp: drained(1)\<close>)
  then show ?thesis using drained(2) by (intro fence_kept [OF assms(2)]) (auto simp: drained(1))
next
  case (resumes failed)
  have "ended_by s m \<Longrightarrow> ended_by s' m" for m
    by (rule ended_by_drain [where w = Sleeper]) (use resumes(2) in \<open>auto simp: resumes(1)\<close>)
  then show ?thesis using resumes(2)
    by (intro fence_kept [OF assms(2)]) (auto simp: resumes(1) resumeAfterSleepFailure_def fenced_def split: if_splits)
qed (rule fence_kept [OF assms(2)]; auto simp: db_sections fenced_def ended_by_def split: if_splits intro: ends_op_keep)+

text \<open>A drain runs behind its fence, and no operation is left when it has ended.\<close>

lemma drain_invI:
  assumes "ds_drain s Sleeper \<noteq> NoDrain \<Longrightarrow> db_sleepPrepared (ds_db s)" "ds_drain s Closer \<noteq> NoDrain \<Longrightarrow> db_closing (ds_db s)"
    and "\<And>w failed. ds_drain s w = Drained failed \<Longrightarrow> db_active (ds_db s) = 0"
  shows "drain_inv s"
  using assms by (auto simp: drain_inv_def)

lemma drain_invD:
  assumes "drain_inv s"
  shows "ds_drain s Sleeper \<noteq> NoDrain \<Longrightarrow> db_sleepPrepared (ds_db s)" "ds_drain s Closer \<noteq> NoDrain \<Longrightarrow> db_closing (ds_db s)"
    and "ds_drain s w = Drained failed \<Longrightarrow> db_active (ds_db s) = 0"
  using assms by (auto simp: drain_inv_def)

lemma drained_fenced:
  assumes "drain_inv s" "ds_drain s w = Drained failed"
  shows "fenced (ds_db s)"
  using assms drain_invD(1,2) [OF assms(1)] by (cases w) (simp_all add: fenced_def)

lemma drain_step:
  assumes "db_step s s'" "drain_inv s" "counts_inv s"
  shows "drain_inv s'"
  using assms(1)
proof cases
  case (admit p d)
  then have "ds_drain s w \<noteq> Drained failed" for w failed
    using drained_fenced [OF assms(2), of w failed] by (auto simp: beginOperation_def split: if_splits)
  with admit show ?thesis
    by (intro drain_invI) (auto simp: beginOperation_def split: if_splits dest: drain_invD(1,2) [OF assms(2)])
next
  case (finishes p)
  then have "db_active (ds_db s) \<noteq> 0" using assms(3) by (auto simp: counts_inv_def card_eq_0_iff intro: exI [where x = p])
  then have "ds_drain s w \<noteq> Drained failed" for w failed using drain_invD(3) [OF assms(2), of w failed] by blast
  with finishes show ?thesis
    by (intro drain_invI) (auto simp: finishOperation_def Let_def dest: drain_invD(1,2) [OF assms(2)])
qed (rule drain_invI; use drain_invD(1,2) [OF assms(2)] in \<open>auto simp: db_sections split: if_splits dest: drain_invD(3) [OF assms(2)]\<close>)+

lemma db_inv_step: "db_step s s' \<Longrightarrow> db_inv s \<Longrightarrow> db_inv s'"
  by (simp add: db_inv_def counts_step begin_step lease_step fresh_step fence_step drain_step)

interpretation db_states: kept_by_steps db_step db_inv
  by unfold_locales (rule db_inv_step)

lemma db_inv_start: "db_inv newSys"
  by (simp add: db_inv_def counts_inv_def begin_inv_def lease_inv_def fresh_inv_def fence_inv_def drain_inv_def newSys_def makeDB_def
      unregistered_def)

definition mid_drain :: "drain \<Rightarrow> bool" where
  "mid_drain d \<longleftrightarrow> d \<noteq> NoDrain \<and> (\<forall>failed. d \<noteq> Drained failed)"

lemma no_mid_drain: "\<not> mid_drain d \<Longrightarrow> todo d = {} \<and> d \<noteq> Rolling l ls failed"
  by (cases d) (auto simp: mid_drain_def)



section \<open>A transaction whose \<open>Commit\<close> fails\<close>

text \<open>States in which only operation 0 and the sleep fence move.\<close>

definition db_at :: "int \<Rightarrow> bool \<Rightarrow> nat set \<Rightarrow> nat set \<Rightarrow> bool \<Rightarrow> DB" where
  "db_at active beginning opened terminal sleep =
     \<lparr>db_closing = False, db_sleepPrepared = sleep, db_active = active, db_beginning = beginning, db_transactions = opened,
      db_terminal = terminal\<rparr>"

definition sys_at :: "DB \<Rightarrow> op_phase \<Rightarrow> drain \<Rightarrow> nat set \<Rightarrow> nat set \<Rightarrow> nat \<Rightarrow> db_sys" where
  "sys_at d ph dr leases leaked n =
     \<lparr>ds_db = d, ds_ops = (\<lambda>_. NoOp)(0 := ph), ds_drain = (\<lambda>_. NoDrain)(Sleeper := dr), ds_leases = leases, ds_leaked = leaked,
      ds_next = n\<rparr>"

lemma db_step_to: "db_step s t \<Longrightarrow> t = t' \<Longrightarrow> db_step s t'"
  by simp

lemmas at_simps = sys_at_def db_at_def db_sections fenced_def dropLease_def

definition leak_state :: db_sys where
  "leak_state = sys_at (db_at 0 False {} {0} True) NoOp (Drained False) {0} {0} 1"

lemma leak_begins: "db_step\<^sup>*\<^sup>* newSys (sys_at (db_at 0 False {0} {} False) NoOp NoDrain {0} {} 1)"
proof -
  have "newSys = sys_at (db_at 0 False {} {} False) NoOp NoDrain {} {} 0"
    by (simp add: newSys_def makeDB_def sys_at_def db_at_def fun_eq_iff)
  then have at0: "db_step\<^sup>*\<^sup>* newSys (sys_at (db_at 0 False {} {} False) NoOp NoDrain {} {} 0)" by simp
  have at1: "db_step\<^sup>*\<^sup>* newSys (sys_at (db_at 1 False {} {} False) Admitted NoDrain {} {} 0)"
    by (rule rtranclp.rtrancl_into_rtrancl [OF at0], rule db_step_to [OF db_step.admit [where o' = 0]]) (simp_all add: at_simps)
  have at2: "db_step\<^sup>*\<^sup>* newSys (sys_at (db_at 1 True {} {} False) Beginning NoDrain {} {} 0)"
    by (rule rtranclp.rtrancl_into_rtrancl [OF at1], rule db_step_to [OF db_step.begins [where o' = 0]]) (simp_all add: at_simps)
  have at3: "db_step\<^sup>*\<^sup>* newSys (sys_at (db_at 1 True {} {} False) (Granted 0) NoDrain {0} {} 1)"
    by (rule rtranclp.rtrancl_into_rtrancl [OF at2], rule db_step_to [OF db_step.granted [where o' = 0]]) (simp_all add: at_simps)
  have at4: "db_step\<^sup>*\<^sup>* newSys (sys_at (db_at 1 True {0} {} False) BeginReturns NoDrain {0} {} 1)"
    by (rule rtranclp.rtrancl_into_rtrancl [OF at3], rule db_step_to [OF db_step.registers [where o' = 0]]) (simp_all add: at_simps)
  have at5: "db_step\<^sup>*\<^sup>* newSys (sys_at (db_at 1 False {0} {} False) Finishing NoDrain {0} {} 1)"
    by (rule rtranclp.rtrancl_into_rtrancl [OF at4], rule db_step_to [OF db_step.begin_returns [where o' = 0]]) (simp_all add: at_simps)
  have at6: "db_step\<^sup>*\<^sup>* newSys (sys_at (db_at 0 False {0} {} False) NoOp NoDrain {0} {} 1)"
    by (rule rtranclp.rtrancl_into_rtrancl [OF at5], rule db_step_to [OF db_step.finishes [where o' = 0]]) (simp_all add: at_simps)
  show ?thesis by (rule at6)
qed

lemma leak_run: "db_step\<^sup>*\<^sup>* newSys leak_state"
proof -
  note at0 = leak_begins
  have at1: "db_step\<^sup>*\<^sup>* newSys (sys_at (db_at 1 False {0} {} False) Admitted NoDrain {0} {} 1)"
    by (rule rtranclp.rtrancl_into_rtrancl [OF at0], rule db_step_to [OF db_step.admit [where o' = 0]]) (simp_all add: at_simps)
  have at2: "db_step\<^sup>*\<^sup>* newSys (sys_at (db_at 1 False {0} {0} False) (Ending 0) NoDrain {0} {} 1)"
    by (rule rtranclp.rtrancl_into_rtrancl [OF at1], rule db_step_to [OF db_step.ends [where o' = 0 and l = 0]]) (simp_all add: at_simps)
  have at3: "db_step\<^sup>*\<^sup>* newSys (sys_at (db_at 1 False {0} {0} False) (Ended 0) NoDrain {0} {0} 1)"
    by (rule rtranclp.rtrancl_into_rtrancl [OF at2], rule db_step_to [OF db_step.ended [where o' = 0 and kept = True]]) (simp_all add: at_simps)
  have at4: "db_step\<^sup>*\<^sup>* newSys (sys_at (db_at 1 False {} {0} False) Finishing NoDrain {0} {0} 1)"
    by (rule rtranclp.rtrancl_into_rtrancl [OF at3], rule db_step_to [OF db_step.unregisters [where o' = 0]]) (simp_all add: at_simps)
  have at5: "db_step\<^sup>*\<^sup>* newSys (sys_at (db_at 0 False {} {0} False) NoOp NoDrain {0} {0} 1)"
    by (rule rtranclp.rtrancl_into_rtrancl [OF at4], rule db_step_to [OF db_step.finishes [where o' = 0]]) (simp_all add: at_simps)
  have at6: "db_step\<^sup>*\<^sup>* newSys (sys_at (db_at 0 False {} {0} True) NoOp (Draining [] False) {0} {0} 1)"
    by (rule rtranclp.rtrancl_into_rtrancl [OF at5], rule db_step_to [OF db_step.sleeps [where ls = "[]"]]) (simp_all add: at_simps)
  have at7: "db_step\<^sup>*\<^sup>* newSys leak_state"
    by (rule rtranclp.rtrancl_into_rtrancl [OF at6], rule db_step_to [OF db_step.drained [where w = Sleeper]]) (simp_all add: at_simps leak_state_def)
  show ?thesis by (rule at7)
qed

text \<open>C34: \<open>Commit\<close> and \<open>Rollback\<close> mark a transaction as ended before they call core and forget it whatever core answers. When such a call
  fails without reaching core, core keeps the lease, the handle refuses to roll it back, and a later fence for sleep succeeds without
  it: the lease stays open behind the fence until it expires.\<close>

theorem db_failed_commit_leaks:
  "db_step\<^sup>*\<^sup>* newSys leak_state \<and> ds_drain leak_state Sleeper = Drained False \<and> db_sleepPrepared (ds_db leak_state) \<and>
   ds_leases leak_state = {0} \<and> db_transactions (ds_db leak_state) = {} \<and> endTransaction 0 rollback (ds_db leak_state) = (Inl terminalError, ds_db leak_state)"
  using leak_run by (simp add: leak_state_def sys_at_def db_at_def endTransaction_def claimTerminal_def)


end
