(* ===== verification/Spec2Isabelle.thy ===== *)
theory Spec2Isabelle
  imports Go_Prelude Wire_Scan Wire_Types Wire Bare_Codec Waiters Event_Queues Http_Body Sqlite_Assembler Actor_Session
    Submit_Queue Session_Ops Session_Store Pump Pump_Routing Save_Protocol
    Poll_Loop Sqlite_Stream Actor_Worker Socket_Client Db_Handle Db_Lifecycle
begin

text \<open>
  A verification development for the Go SDK of the Rivet actor runtime.
\<close>

end
